(* ===== verification/JSValue.thy ===== *)
theory JSValue
  imports Prelude
begin

text \<open>
  The JavaScript values the program reads: \<open>unknown\<close> inputs, JSON values, numbers. A string is the
  list of its UTF-16 code units (those below 256), a number a rational that a double represents or
  one of the three special values, an object the list of its own enumerable string keys with their
  values, in the order in which \<open>Object.entries\<close> lists them. \<open>stringify\<close> is \<open>JSON.stringify\<close> and
  \<open>fl\<close> the rounding of IEEE 754 double arithmetic (round to nearest, ties to even).
\<close>

subsection \<open>Values\<close>

datatype jnum = Fin rat | PosInf | NegInf | NaN

datatype jsv =
    JUndef
  | JNull
  | JBool bool
  | JNum jnum
  | JStr string
  | JArr "jsv list"
  | JObj "(string \<times> jsv) list"

abbreviation jint :: "int \<Rightarrow> jsv" where
  "jint n \<equiv> JNum (Fin (of_int n))"

definition nullish :: "jsv \<Rightarrow> bool" where
  "nullish v \<longleftrightarrow> v = JUndef \<or> v = JNull"

fun is_record :: "jsv \<Rightarrow> bool" where
  "is_record (JObj _) = True"
| "is_record _ = False"

fun entries :: "jsv \<Rightarrow> (string \<times> jsv) list" where
  "entries (JObj kvs) = kvs"
| "entries _ = []"

definition own :: "jsv \<Rightarrow> string \<Rightarrow> bool" where
  "own v k \<longleftrightarrow> k \<in> fst ` set (entries v)"

definition getp :: "jsv \<Rightarrow> string \<Rightarrow> jsv" where
  "getp v k = (case map_of (entries v) k of None \<Rightarrow> JUndef | Some x \<Rightarrow> x)"

text \<open>\<open>v ?? d\<close>\<close>

definition coalesce :: "jsv \<Rightarrow> jsv \<Rightarrow> jsv" where
  "coalesce v d = (if nullish v then d else v)"

lemma nullish_simps [simp]:
  "nullish JUndef" "nullish JNull" "\<not> nullish (JBool b)" "\<not> nullish (JNum n)"
  "\<not> nullish (JStr s)" "\<not> nullish (JArr vs)" "\<not> nullish (JObj kvs)"
  by (simp_all add: nullish_def)

lemma coalesce_simps [simp]:
  "coalesce JUndef d = d" "coalesce JNull d = d" "\<not> nullish v \<Longrightarrow> coalesce v d = v"
  by (simp_all add: coalesce_def)

lemma getp_JObj [simp]:
  "getp (JObj []) k = JUndef"
  "getp (JObj ((k', v) # kvs)) k = (if k' = k then v else getp (JObj kvs) k)"
  by (simp_all add: getp_def)

lemma getp_non_record: "\<not> is_record v \<Longrightarrow> getp v k = JUndef"
  by (cases v) (simp_all add: getp_def)

subsection \<open>Strings\<close>

text \<open>The white space and line terminators that \<open>String.prototype.trim\<close> strips.\<close>

definition is_ws :: "char \<Rightarrow> bool" where
  "is_ws c \<longleftrightarrow> (of_char c :: nat) \<in> {9, 10, 11, 12, 13, 32, 160}"

definition trim :: "string \<Rightarrow> string" where
  "trim s = rev (dropWhile is_ws (rev (dropWhile is_ws s)))"

lemma trim_Nil [simp]: "trim [] = []"
  by (simp add: trim_def)

lemma trim_eq_Nil_iff: "trim s = [] \<longleftrightarrow> list_all is_ws s"
proof -
  have "trim s = [] \<longleftrightarrow> (\<forall>c \<in> set (dropWhile is_ws s). is_ws c)"
    by (simp add: trim_def)
  also have "\<dots> \<longleftrightarrow> dropWhile is_ws s = []"
    by (metis dropWhile_eq_Nil_conv hd_dropWhile list.set_sel(1) empty_iff list.set(1))
  finally show ?thesis by (simp add: list_all_iff)
qed

text \<open>\<open>Buffer.byteLength(s, "utf8")\<close> of a string of code units below 256.\<close>

definition utf8_len :: "string \<Rightarrow> nat" where
  "utf8_len s = sum_list (map (\<lambda>c. if (of_char c :: nat) < 128 then 1 else 2) s)"

lemma utf8_len_Nil [simp]: "utf8_len [] = 0"
  by (simp add: utf8_len_def)

lemma utf8_len_Cons [simp]:
  "utf8_len (c # s) = (if (of_char c :: nat) < 128 then 1 else 2) + utf8_len s"
  by (simp add: utf8_len_def)

lemma utf8_len_append [simp]: "utf8_len (s @ t) = utf8_len s + utf8_len t"
  by (simp add: utf8_len_def)

lemma length_le_utf8_len: "length s \<le> utf8_len s"
  by (induction s) auto

fun join :: "string \<Rightarrow> string list \<Rightarrow> string" where
  "join sep [] = []"
| "join sep [s] = s"
| "join sep (s # t # ts) = s @ sep @ join sep (t # ts)"

subsection \<open>Numbers\<close>

definition MAX_SAFE_INTEGER :: int where
  "MAX_SAFE_INTEGER = 9007199254740991"

text \<open>\<open>typeof v === "number" && Number.isInteger(v)\<close>, with the integer it is.\<close>

fun as_integer :: "jsv \<Rightarrow> int option" where
  "as_integer (JNum (Fin r)) = (if of_int \<lfloor>r\<rfloor> = r then Some \<lfloor>r\<rfloor> else None)"
| "as_integer _ = None"

lemma as_integer_jint [simp]: "as_integer (jint n) = Some n"
  by simp

lemma as_integer_Some: "as_integer v = Some n \<Longrightarrow> v = jint n"
  by (induction v rule: as_integer.induct) (auto split: if_splits)

text \<open>
  Rounding to a double: \<open>flog2 r\<close> is the exponent of the leading bit of \<open>r > 0\<close>; the significand
  keeps 53 bits (fewer below the smallest normal number).
\<close>

definition flog2 :: "rat \<Rightarrow> int" where
  "flog2 r = (let (a, b) = quotient_of r; k = bitlen a - bitlen b
     in if 2 powi k \<le> r then k else k - 1)"

definition round_half_even :: "rat \<Rightarrow> int" where
  "round_half_even q = (let f = \<lfloor>q\<rfloor>; d = q - of_int f
     in if d < 1 / 2 then f else if d > 1 / 2 then f + 1 else if even f then f else f + 1)"

definition fl :: "rat \<Rightarrow> rat" where
  "fl r = (if r = 0 then 0 else
     let e = max (flog2 \<bar>r\<bar> - 52) (- 1074)
     in sgn r * of_int (round_half_even (\<bar>r\<bar> / 2 powi e)) * 2 powi e)"

text \<open>The sum of two integers as doubles, and \<open>Math.round\<close>.\<close>

definition fadd :: "int \<Rightarrow> int \<Rightarrow> int" where
  "fadd a b = \<lfloor>fl (of_int (a + b))\<rfloor>"

definition math_round :: "rat \<Rightarrow> int" where
  "math_round r = \<lfloor>r + 1 / 2\<rfloor>"

lemma math_round_int [simp]: "math_round (of_int n) = n"
  unfolding math_round_def by linarith

lemma math_round_numeral [simp]: "math_round (numeral n) = numeral n"
  using math_round_int [of "numeral n"] by simp

lemma round_half_even_int [simp]: "round_half_even (of_int n) = n"
  by (simp add: round_half_even_def)

lemma flog2_int:
  assumes "0 < n"
  shows "flog2 (of_int n) = bitlen n - 1"
proof -
  have q: "quotient_of (rat_of_int n) = (n, 1)" by simp
  have b1: "bitlen 1 = 1" by (simp add: bitlen_alt_def)
  have "2 ^ nat (bitlen n - 1) \<le> n" using bitlen_bounds [OF assms] by simp
  then have "(2::rat) ^ nat (bitlen n - 1) \<le> of_int n"
    by (metis of_int_le_iff of_int_numeral of_int_power)
  moreover have "0 \<le> bitlen n - 1" using assms by (simp add: bitlen_alt_def)
  ultimately have "(2::rat) powi (bitlen n - 1) \<le> of_int n"
    by (simp add: power_int_def)
  with q b1 show ?thesis by (simp add: flog2_def)
qed

lemma fl_int_pos:
  assumes "0 < n" and "n < 2 ^ 53"
  shows "fl (of_int n) = of_int n"
proof -
  let ?e = "max (bitlen n - 53) (- 1074)"
  have "bitlen n \<le> 53"
    using assms bitlen_le_iff_power [of n 53] by simp
  then obtain m where e: "?e = - int m" by (metis max.boundedI minus_minus neg_le_0_iff_le
    nat_0_le diff_le_0_iff_le neg_le_iff_le zero_le_numeral minus_zero)
  have "(2::rat) powi ?e = 1 / 2 ^ m"
    by (simp only: e power_int_minus power_int_of_nat) (simp add: field_simps)
  then have "of_int n / (2::rat) powi ?e = of_int (n * 2 ^ m)" by simp
  then have "of_int (round_half_even (of_int n / (2::rat) powi ?e)) = of_int n / (2::rat) powi ?e"
    by (simp only: round_half_even_int)
  then show ?thesis
    using assms by (simp add: fl_def flog2_int)
qed

lemma fl_minus: "fl (- r) = - fl r"
  by (simp add: fl_def Let_def)

lemma fl_int:
  assumes "\<bar>n\<bar> < 2 ^ 53"
  shows "fl (of_int n) = of_int n"
proof (cases n "0::int" rule: linorder_cases)
  case less
  with assms have "fl (of_int (- n)) = of_int (- n)" by (intro fl_int_pos) auto
  then show ?thesis by (simp add: fl_minus)
next
  case equal
  then show ?thesis by (simp add: fl_def)
next
  case greater
  with assms show ?thesis by (intro fl_int_pos) auto
qed

lemma fadd_exact: "\<bar>a + b\<bar> \<le> MAX_SAFE_INTEGER \<Longrightarrow> fadd a b = a + b"
  unfolding fadd_def by (subst fl_int) (auto simp: MAX_SAFE_INTEGER_def)

end
