(* ===== verification/Json.thy ===== *)
theory Json
  imports JSValue
begin

text \<open>
  \<open>JSON.stringify\<close> on the values of theory JSValue, and the two canonical serialisers of the
  repository: \<open>canonicalJson\<close> of the orchestrator (domain/canonical-json.ts), whose object keys are
  ordered by \<open>localeCompare\<close>, and \<open>canonicalJson\<close> of the worker package
  (invocation/canonical-json.ts), whose keys are in code-unit order. Hash functions are parameters.
\<close>

subsection \<open>Numbers as text\<close>

definition digit_char :: "nat \<Rightarrow> char" where
  "digit_char d = char_of (48 + d)"

fun nat_str :: "nat \<Rightarrow> string" where
  "nat_str n = (if n < 10 then [digit_char n] else nat_str (n div 10) @ [digit_char (n mod 10)])"

declare nat_str.simps [simp del]

definition int_str :: "int \<Rightarrow> string" where
  "int_str n = (if n < 0 then CHR ''-'' # nat_str (nat (- n)) else nat_str (nat n))"

lemma digit_char_inject: "a < 10 \<Longrightarrow> b < 10 \<Longrightarrow> digit_char a = digit_char b \<longleftrightarrow> a = b"
proof -
  assume "a < 10" "b < 10"
  moreover have "of_char (digit_char d) = 48 + d" if "d < 10" for d :: nat
    using that by (simp add: digit_char_def)
  ultimately show ?thesis by (metis add_left_cancel)
qed

definition is_digit :: "char \<Rightarrow> bool" where
  "is_digit c \<longleftrightarrow> (of_char c :: nat) \<in> {48..57}"

lemma is_digit_minus: "\<not> is_digit (CHR ''-'')"
  by (simp add: is_digit_def)

lemma is_digit_digit_char: "d < 10 \<Longrightarrow> is_digit (digit_char d)"
  by (simp add: is_digit_def digit_char_def)

lemma nat_str_digits: "c \<in> set (nat_str n) \<Longrightarrow> is_digit c"
proof (induction n rule: nat_str.induct)
  case (1 n)
  then show ?case
    by (cases "n < 10") (auto simp: nat_str.simps [of n] is_digit_digit_char)
qed

lemma nat_str_not_Nil [simp]: "nat_str n \<noteq> []" "[] \<noteq> nat_str n"
  by (subst nat_str.simps, simp)+

lemma nat_str_inject [simp]: "nat_str m = nat_str n \<longleftrightarrow> m = n"
proof (induction m arbitrary: n rule: nat_str.induct)
  case (1 m)
  show ?case
  proof (cases "m < 10")
    case True
    then show ?thesis
      by (cases "n < 10") (auto simp: nat_str.simps [of m] nat_str.simps [of n] digit_char_inject)
  next
    case m: False
    show ?thesis
    proof (cases "n < 10")
      case True
      with m show ?thesis by (auto simp: nat_str.simps [of m] nat_str.simps [of n])
    next
      case False
      with m "1.IH" [OF m, of "n div 10"] show ?thesis
        by (simp add: nat_str.simps [of m] nat_str.simps [of n] digit_char_inject)
          (metis div_mult_mod_eq)
    qed
  qed
qed

lemma int_str_chars: "c \<in> set (int_str n) \<Longrightarrow> is_digit c \<or> c = CHR ''-''"
  by (auto simp: int_str_def dest: nat_str_digits split: if_splits)

lemma int_str_inject [simp]: "int_str m = int_str n \<longleftrightarrow> m = n"
proof -
  have "CHR ''-'' # xs \<noteq> nat_str k" for xs k
    using nat_str_digits [of "CHR ''-''" k] by (metis list.set_intros(1) is_digit_minus)
  from this this [symmetric] show ?thesis by (auto simp: int_str_def)
qed

text \<open>
  \<open>Number::toString\<close>: the shortest significand \<open>s\<close> of \<open>k\<close> decimal digits with
  \<open>fl (s * 10 ^ (n - k)) = x\<close>, the closest to \<open>x\<close> where two have the length. \<open>dec_expo x\<close> is
  the \<open>n\<close> with \<open>10 ^ (n - 1) \<le> x < 10 ^ n\<close>; a double needs less than 400 steps either way.
\<close>

fun dec_up :: "nat \<Rightarrow> rat \<Rightarrow> int \<Rightarrow> int" where
  "dec_up 0 x n = n"
| "dec_up (Suc f) x n = (if 1 \<le> x then dec_up f (x / 10) (n + 1) else n)"

fun dec_down :: "nat \<Rightarrow> rat \<Rightarrow> int \<Rightarrow> int" where
  "dec_down 0 x n = n"
| "dec_down (Suc f) x n = (if x < 1 / 10 then dec_down f (x * 10) (n - 1) else n)"

definition dec_expo :: "rat \<Rightarrow> int" where
  "dec_expo x = (if 1 \<le> x then dec_up 400 x 0 else dec_down 400 x 0)"

definition candidates :: "rat \<Rightarrow> int \<Rightarrow> nat \<Rightarrow> (int \<times> int) list" where
  "candidates x n k = (let s = \<lfloor>x / 10 powi (n - int k)\<rfloor>;
      up = (if s + 1 = 10 ^ k then (10 ^ (k - 1), n + 1) else (s + 1, n))
    in filter (\<lambda>(s, n). fl (of_int s * 10 powi (n - int k)) = x)
         (if x / 10 powi (n - int k) - of_int s \<le> 1 / 2 then [(s, n), up] else [up, (s, n)]))"

fun shortest :: "rat \<Rightarrow> int \<Rightarrow> nat list \<Rightarrow> int \<times> int \<times> nat" where
  "shortest x n [] = (\<lfloor>x / 10 powi (n - 17)\<rfloor>, n, 17)"
| "shortest x n (k # ks) =
     (case candidates x n k of [] \<Rightarrow> shortest x n ks | (s, n') # _ \<Rightarrow> (s, n', k))"

definition layout_digits :: "string \<Rightarrow> int \<Rightarrow> nat \<Rightarrow> string" where
  "layout_digits ds n k =
     (if int k \<le> n \<and> n \<le> 21 then ds @ replicate (nat n - k) (CHR ''0'')
      else if 0 < n \<and> n \<le> 21 then take (nat n) ds @ ''.'' @ drop (nat n) ds
      else if - 6 < n \<and> n \<le> 0 then ''0.'' @ replicate (nat (- n)) (CHR ''0'') @ ds
      else (if k = 1 then ds else take 1 ds @ ''.'' @ drop 1 ds)
        @ (if 0 \<le> n - 1 then ''e+'' else ''e-'') @ nat_str (nat \<bar>n - 1\<bar>))"

definition num_str :: "rat \<Rightarrow> string" where
  "num_str r = (if r = 0 then ''0'' else
     let (s, n, k) = shortest \<bar>r\<bar> (dec_expo \<bar>r\<bar>) [1..<18]
     in (if r < 0 then ''-'' else []) @ layout_digits (nat_str (nat s)) n k)"

lemma dec_up_digit: "1 \<le> x \<Longrightarrow> x < 10 \<Longrightarrow> 2 \<le> f \<Longrightarrow> dec_up f x 0 = 1"
  by (cases f; cases "f - 1") auto

text \<open>A positive number of one digit is printed as that digit.\<close>

lemma num_str_digit:
  assumes "0 < d" and "d < 10"
  shows "num_str (of_int (int d)) = [digit_char d]"
proof -
  from assms have "dec_expo (of_int (int d)) = 1" by (simp add: dec_expo_def dec_up_digit)
  moreover have "[1..<18] = 1 # [2..<18]" by (simp add: upt_rec)
  moreover have "fl (of_int (int d)) = of_int (int d)" using assms by (intro fl_int) auto
  moreover have "fl (1 + of_int (int d)) = 1 + of_int (int d)"
    using fl_int [of "1 + int d"] assms by simp
  ultimately show ?thesis
    using assms by (auto simp: num_str_def candidates_def layout_digits_def Let_def nat_str.simps)
qed

lemma num_str_1 [simp]: "num_str 1 = ''1''"
proof -
  have "digit_char 1 = CHR ''1''" by code_simp
  with num_str_digit [of 1] show ?thesis by simp
qed
subsection \<open>JSON.stringify\<close>

definition hex_char :: "nat \<Rightarrow> char" where
  "hex_char d = char_of (if d < 10 then 48 + d else 87 + d)"

definition escape_char :: "char \<Rightarrow> string" where
  "escape_char c = (let n = (of_char c :: nat)
     in if n = 34 then [CHR 0x5C, CHR 0x22]
        else if n = 92 then [CHR 0x5C, CHR 0x5C]
        else if n = 8 then CHR 0x5C # ''b''
        else if n = 9 then CHR 0x5C # ''t''
        else if n = 10 then CHR 0x5C # ''n''
        else if n = 12 then CHR 0x5C # ''f''
        else if n = 13 then CHR 0x5C # ''r''
        else if n < 32 then CHR 0x5C # ''u00'' @ [hex_char (n div 16), hex_char (n mod 16)]
        else [c])"

definition quote :: "string \<Rightarrow> string" where
  "quote s = CHR 0x22 # concat (map escape_char s) @ [CHR 0x22]"

fun stringify_num :: "jnum \<Rightarrow> string" where
  "stringify_num (Fin r) = num_str r"
| "stringify_num _ = ''null''"

definition member :: "string \<times> string \<Rightarrow> string" where
  "member kt = quote (fst kt) @ '':'' @ snd kt"

text \<open>\<open>None\<close> is the result \<open>undefined\<close>: an array shows it as null, an object drops the key.\<close>

fun stringify :: "jsv \<Rightarrow> string option" where
  "stringify JUndef = None"
| "stringify JNull = Some ''null''"
| "stringify (JBool b) = Some (if b then ''true'' else ''false'')"
| "stringify (JNum n) = Some (stringify_num n)"
| "stringify (JStr s) = Some (quote s)"
| "stringify (JArr vs) =
     Some (''['' @ join '','' (map (\<lambda>t. case t of None \<Rightarrow> ''null'' | Some t \<Rightarrow> t) (map stringify vs)) @ '']'')"
| "stringify (JObj kvs) =
     Some (''{'' @ join '','' (map (\<lambda>(k, t). member (k, the t))
       (filter (\<lambda>(k, t). t \<noteq> None) (map (\<lambda>(k, v). (k, stringify v)) kvs))) @ ''}'')"

text \<open>\<open>Buffer.byteLength(JSON.stringify(v), "utf8")\<close>; \<open>None\<close> is the TypeError on \<open>undefined\<close>.\<close>

definition json_bytes :: "jsv \<Rightarrow> nat option" where
  "json_bytes v = map_option utf8_len (stringify v)"

lemma stringify_None_iff: "stringify v = None \<longleftrightarrow> v = JUndef"
  by (cases v) auto

lemma json_bytes_record: "is_record v \<Longrightarrow> \<exists>n. json_bytes v = Some n"
  by (cases v) (auto simp: json_bytes_def)

subsection \<open>Canonical JSON\<close>

text \<open>
  domain/canonical-json.ts. \<open>coll\<close> is \<open>localeCompare\<close>: its order is the runtime's collation data,
  so it is a parameter (\<open>coll a b\<close> is \<open>a.localeCompare(b) \<le> 0\<close>).
\<close>

fun canonicalJson :: "(string \<Rightarrow> string \<Rightarrow> bool) \<Rightarrow> jsv \<Rightarrow> string" where
  "canonicalJson coll JUndef = ''null''"
| "canonicalJson coll JNull = ''null''"
| "canonicalJson coll (JBool b) = (if b then ''true'' else ''false'')"
| "canonicalJson coll (JNum n) = stringify_num n"
| "canonicalJson coll (JStr s) = quote s"
| "canonicalJson coll (JArr vs) = ''['' @ join '','' (map (canonicalJson coll) vs) @ '']''"
| "canonicalJson coll (JObj kvs) =
     ''{'' @ join '','' (map member (sort_by (\<lambda>p q. coll (fst p) (fst q))
       (map (\<lambda>(k, v). (k, canonicalJson coll v)) kvs))) @ ''}''"

definition sha256Json :: "(string \<Rightarrow> string) \<Rightarrow> (string \<Rightarrow> string \<Rightarrow> bool) \<Rightarrow> jsv \<Rightarrow> string" where
  "sha256Json sha coll v = sha (canonicalJson coll v)"

text \<open>invocation/canonical-json.ts of the worker: numbers are checked, keys sorted by code units.\<close>

datatype canonical_error = NotFinite | UnsafeInteger | NotJson

definition canonical_num :: "jnum \<Rightarrow> canonical_error + string" where
  "canonical_num n = (case n of Fin r \<Rightarrow>
       (if of_int \<lfloor>r\<rfloor> = r \<and> \<bar>r\<bar> > of_int MAX_SAFE_INTEGER then Inl UnsafeInteger
        else Inr (num_str r))
     | _ \<Rightarrow> Inl NotFinite)"

text \<open>
  The object branch serialises the values in key order, so the first error in key order is thrown;
  the keys of an object are distinct.
\<close>

fun sequence :: "('e + 'a) list \<Rightarrow> 'e + 'a list" where
  "sequence [] = Inr []"
| "sequence (m # ms) = bindE m (\<lambda>x. bindE (sequence ms) (\<lambda>xs. Inr (x # xs)))"

fun sequence_snd :: "('k \<times> ('e + 'a)) list \<Rightarrow> 'e + ('k \<times> 'a) list" where
  "sequence_snd [] = Inr []"
| "sequence_snd ((k, m) # ms) =
     bindE m (\<lambda>x. bindE (sequence_snd ms) (\<lambda>xs. Inr ((k, x) # xs)))"

fun canonical_worker :: "jsv \<Rightarrow> canonical_error + string" where
  "canonical_worker JUndef = Inl NotJson"
| "canonical_worker JNull = Inr ''null''"
| "canonical_worker (JBool b) = Inr (if b then ''true'' else ''false'')"
| "canonical_worker (JStr s) = Inr (quote s)"
| "canonical_worker (JNum n) = canonical_num n"
| "canonical_worker (JArr vs) =
     bindE (sequence (map canonical_worker vs)) (\<lambda>ts. Inr (''['' @ join '','' ts @ '']''))"
| "canonical_worker (JObj kvs) =
     bindE (sequence_snd (sort_by (\<lambda>p q. fst p \<le> fst q)
             (map (\<lambda>(k, v). (k, canonical_worker v)) kvs)))
       (\<lambda>ts. Inr (''{'' @ join '','' (map member ts) @ ''}''))"

definition requestFingerprint ::
  "(string \<Rightarrow> string) \<Rightarrow> jsv \<Rightarrow> string \<Rightarrow> canonical_error + string" where
  "requestFingerprint sha request idempotencyKey =
     bindE (canonical_worker request) (\<lambda>t. Inr (sha (idempotencyKey @ [CHR 0x0A] @ t)))"

end
