(* ===== verification/Budget.thy ===== *)
theory Budget
  imports Json
begin

text \<open>
  services/orchestrator/src/domain/budget.ts: the budget vocabulary, the validators of untrusted
  ledger inputs, the availability projection over ledger facts (in double arithmetic), the budget
  declarations of pipelines and steps, and the mapping of a result's usage block to observations.
  A \<open>BudgetAmounts\<close> object is the list of its dimensions with their amounts, in key order.
\<close>

subsection \<open>Vocabulary\<close>

datatype dimension = CurrencyMicros | Tokens | WallTimeMs

fun dimension_str :: "dimension \<Rightarrow> string" where
  "dimension_str CurrencyMicros = ''currency_micros''"
| "dimension_str Tokens = ''tokens''"
| "dimension_str WallTimeMs = ''wall_time_ms''"

definition BUDGET_DIMENSION_IDS :: "dimension list" where
  "BUDGET_DIMENSION_IDS = [CurrencyMicros, Tokens, WallTimeMs]"

datatype source = Actual | Estimated | Unknown

datatype ledger_operation = Reserve | Commit | Release | Adjust

datatype reservation_status = ACTIVE | COMMITTED | RELEASED | ADJUSTED

definition BUDGET_AMOUNT_MAX :: int where
  "BUDGET_AMOUNT_MAX = MAX_SAFE_INTEGER"

definition scopeTypeMaxLength :: nat where "scopeTypeMaxLength = 32"
definition scopeIdMaxLength :: nat where "scopeIdMaxLength = 255"
definition idempotencyKeyMaxLength :: nat where "idempotencyKeyMaxLength = 255"
definition actionRefMaxLength :: nat where "actionRefMaxLength = 255"
definition evidenceMaxBytes :: nat where "evidenceMaxBytes = 4096"
definition accountChainMaxDepth :: nat where "accountChainMaxDepth = 16"
definition projectionPageSize :: nat where "projectionPageSize = 10000"
definition confidenceMax :: int where "confidenceMax = 100"

datatype budget_error =
    DIMENSION_UNKNOWN | AMOUNT_INVALID | AMOUNT_OVERFLOW | EVIDENCE_TOO_LARGE
  | INSUFFICIENT_BUDGET | IDEMPOTENCY_CONFLICT | RESERVATION_NOT_ACTIVE
  | RESERVATION_AMOUNT_EXCEEDED | SCOPE_ALREADY_EXISTS | ACCOUNT_NOT_FOUND
  | CHAIN_TOO_DEEP | CHILD_CEILING_EXCEEDS_PARENT | DIMENSION_MISSING | CONFIDENCE_INVALID
  | DELTA_INVALID | AVAILABILITY_NEGATIVE | PROJECTION_TOO_LARGE | INPUT_INVALID

type_synonym amounts = "(dimension \<times> int) list"

subsection \<open>Validators\<close>

definition validateDimension :: "string \<Rightarrow> budget_error + dimension" where
  "validateDimension s =
     (case find (\<lambda>d. dimension_str d = s) BUDGET_DIMENSION_IDS of
        None \<Rightarrow> Inl DIMENSION_UNKNOWN
      | Some d \<Rightarrow> Inr d)"

definition validateAmount :: "string \<Rightarrow> jsv \<Rightarrow> budget_error + int" where
  "validateAmount dm amount = bindE (validateDimension dm) (\<lambda>_.
     case as_integer amount of
       None \<Rightarrow> Inl AMOUNT_INVALID
     | Some n \<Rightarrow> if n \<le> 0 then Inl AMOUNT_INVALID
                else if n > BUDGET_AMOUNT_MAX then Inl AMOUNT_OVERFLOW
                else Inr n)"

definition validateDelta :: "string \<Rightarrow> jsv \<Rightarrow> budget_error + int" where
  "validateDelta dm delta = bindE (validateDimension dm) (\<lambda>_.
     case as_integer delta of
       None \<Rightarrow> Inl DELTA_INVALID
     | Some n \<Rightarrow> if n = 0 then Inl DELTA_INVALID
                else if \<bar>n\<bar> > BUDGET_AMOUNT_MAX then Inl AMOUNT_OVERFLOW
                else Inr n)"

definition validateSource :: "jsv \<Rightarrow> budget_error + source" where
  "validateSource v =
     (if v = JStr ''actual'' then Inr Actual
      else if v = JStr ''estimated'' then Inr Estimated
      else if v = JStr ''unknown'' then Inr Unknown
      else Inl CONFIDENCE_INVALID)"

definition validateConfidence :: "jsv \<Rightarrow> budget_error + int option" where
  "validateConfidence v =
     (if nullish v then Inr None
      else case as_integer v of
        None \<Rightarrow> Inl CONFIDENCE_INVALID
      | Some n \<Rightarrow> if n < 0 \<or> n > confidenceMax then Inl CONFIDENCE_INVALID else Inr (Some n))"

text \<open>The entries of an object have distinct keys, so the loop that fills \<open>result\<close> appends.\<close>

definition validateCeilings :: "jsv \<Rightarrow> budget_error + amounts" where
  "validateCeilings v =
     (if \<not> is_record v then Inl DIMENSION_MISSING
      else bindE (mapE (\<lambda>(k, a). bindE (validateDimension k) (\<lambda>d.
                    bindE (validateAmount k a) (\<lambda>n. Inr (d, n)))) (entries v))
        (\<lambda>result. if result = [] then Inl DIMENSION_MISSING else Inr result))"

definition validateEvidence :: "jsv \<Rightarrow> budget_error + jsv option" where
  "validateEvidence v =
     (if nullish v then Inr None
      else if \<not> is_record v then Inl EVIDENCE_TOO_LARGE
      else if the (json_bytes v) > evidenceMaxBytes then Inl EVIDENCE_TOO_LARGE
      else Inr (Some v))"

subsection \<open>Availability\<close>

record budget_fact =
  f_operation :: ledger_operation
  f_dimension :: dimension
  f_amount :: int
  f_delta :: "int option"
  f_source :: source
  f_confidence :: "int option"

definition amount_of :: "amounts \<Rightarrow> dimension \<Rightarrow> int" where
  "amount_of c d = (case map_of c d of None \<Rightarrow> 0 | Some n \<Rightarrow> n)"

text \<open>What one fact of the dimension adds: the body of the loop of \<open>projectAvailable\<close>.\<close>

fun fact_effect :: "budget_fact \<Rightarrow> int" where
  "fact_effect f = (case f_operation f of
       Reserve \<Rightarrow> - f_amount f
     | Release \<Rightarrow> f_amount f
     | Adjust \<Rightarrow> (case f_delta f of None \<Rightarrow> 0 | Some x \<Rightarrow> x)
     | Commit \<Rightarrow> 0)"

declare fact_effect.simps [simp del]

fun project_loop :: "dimension \<Rightarrow> int \<Rightarrow> budget_fact list \<Rightarrow> int" where
  "project_loop d available [] = available"
| "project_loop d available (f # fs) =
     (if f_dimension f \<noteq> d then project_loop d available fs
      else if f_operation f = Commit then project_loop d available fs
      else project_loop d (fadd available (fact_effect f)) fs)"

definition projectAvailable :: "amounts \<Rightarrow> budget_fact list \<Rightarrow> dimension \<Rightarrow> budget_error + int" where
  "projectAvailable ceilings facts d =
     (let available = project_loop d (amount_of ceilings d) facts
      in if available < 0 then Inl AVAILABILITY_NEGATIVE else Inr available)"

definition projectAll :: "amounts \<Rightarrow> budget_fact list \<Rightarrow> budget_error + amounts" where
  "projectAll ceilings facts =
     mapE (\<lambda>d. bindE (projectAvailable ceilings facts d) (\<lambda>a. Inr (d, a)))
       (uniq (map fst ceilings @ map f_dimension facts))"

subsection \<open>Budget declarations\<close>

record parent_scope =
  ps_scopeType :: string
  ps_scopeId :: string

record pipeline_budget =
  pb_parent :: "parent_scope option"
  pb_ceilings :: amounts

definition parse_parent :: "jsv \<Rightarrow> budget_error + parent_scope option" where
  "parse_parent v =
     (if nullish v then Inr None
      else if \<not> is_record v then Inl INPUT_INVALID
      else case (getp v ''scopeType'', getp v ''scopeId'') of
        (JStr t, JStr i) \<Rightarrow>
          if trim t = [] \<or> length t > scopeTypeMaxLength \<or> trim i = [] \<or> length i > scopeIdMaxLength
          then Inl INPUT_INVALID
          else Inr (Some \<lparr>ps_scopeType = t, ps_scopeId = i\<rparr>)
      | _ \<Rightarrow> Inl INPUT_INVALID)"

definition parsePipelineBudget :: "jsv \<Rightarrow> budget_error + pipeline_budget option" where
  "parsePipelineBudget v =
     (if nullish v then Inr None
      else if \<not> is_record v then Inl INPUT_INVALID
      else bindE (parse_parent (getp v ''parent'')) (\<lambda>parent.
        bindE (if is_record (getp v ''ceilings'') then validateCeilings (getp v ''ceilings'')
               else validateCeilings (JObj (filter (\<lambda>(k, _). k \<noteq> ''parent'') (entries v))))
          (\<lambda>ceilings. Inr (Some \<lparr>pb_parent = parent, pb_ceilings = ceilings\<rparr>))))"

definition parseStepBudget :: "jsv \<Rightarrow> budget_error + amounts option" where
  "parseStepBudget v =
     (if nullish v then Inr None else bindE (validateCeilings v) (\<lambda>c. Inr (Some c)))"

text \<open>An attempt number is an integer; \<open>int_str\<close> is its decimal text.\<close>

definition reservationKeyForAttempt :: "string \<Rightarrow> string \<Rightarrow> int \<Rightarrow> dimension \<Rightarrow> string" where
  "reservationKeyForAttempt executionId logicalStepId attemptNumber d =
     executionId @ '':'' @ logicalStepId @ '':'' @ int_str attemptNumber @ '':'' @ dimension_str d"

subsection \<open>Usage\<close>

record usage_observation =
  u_dimension :: dimension
  u_amount :: int
  u_source :: source

text \<open>\<open>Math.round(costUsd * 1_000_000)\<close>; \<open>None\<close> where the product overflows to infinity.\<close>

definition cost_micros :: "rat \<Rightarrow> int option" where
  "cost_micros r = (let p = fl (r * 1000000) in if p \<ge> 2 ^ 1024 then None else Some (math_round p))"

definition usageFromResult :: "jsv \<Rightarrow> budget_error + usage_observation list" where
  "usageFromResult usage =
     (if nullish usage then Inr []
      else if \<not> is_record usage then Inl AMOUNT_INVALID
      else bindE (if nullish (getp usage ''totalTokens'') then Inr []
                  else bindE (validateAmount ''tokens'' (getp usage ''totalTokens'')) (\<lambda>n.
                    Inr [\<lparr>u_dimension = Tokens, u_amount = n, u_source = Actual\<rparr>]))
        (\<lambda>tokens. bindE (case getp usage ''costUsd'' of
              JUndef \<Rightarrow> Inr []
            | JNull \<Rightarrow> Inr []
            | JNum (Fin r) \<Rightarrow>
                (if r < 0 then Inl AMOUNT_INVALID
                 else case cost_micros r of
                   None \<Rightarrow> Inl AMOUNT_INVALID
                 | Some micros \<Rightarrow>
                     if micros \<le> 0 then Inl AMOUNT_INVALID
                     else bindE (validateAmount ''currency_micros'' (jint micros)) (\<lambda>n.
                       Inr [\<lparr>u_dimension = CurrencyMicros, u_amount = n, u_source = Estimated\<rparr>]))
            | _ \<Rightarrow> Inl AMOUNT_INVALID)
          (\<lambda>cost. Inr (tokens @ cost))))"

subsection \<open>Lemmas on the validators\<close>

lemma dimension_str_inject [simp]: "dimension_str d = dimension_str e \<longleftrightarrow> d = e"
  by (cases d; cases e) auto

lemma validateDimension_Inr_iff [result_simps]: "validateDimension s = Inr d \<longleftrightarrow> s = dimension_str d"
  by (cases d) (auto simp: validateDimension_def BUDGET_DIMENSION_IDS_def split: if_splits)

lemma validateDimension_str [simp]: "validateDimension (dimension_str d) = Inr d"
  by (simp add: validateDimension_Inr_iff)

lemma validateAmount_Inr_iff [result_simps]:
  "validateAmount s v = Inr n \<longleftrightarrow>
     (\<exists>d. s = dimension_str d) \<and> v = jint n \<and> 0 < n \<and> n \<le> BUDGET_AMOUNT_MAX"
  by (auto simp: validateAmount_def result_simps dest: as_integer_Some split: option.splits if_splits)

lemma validateDelta_Inr_iff [result_simps]:
  "validateDelta s v = Inr n \<longleftrightarrow>
     (\<exists>d. s = dimension_str d) \<and> v = jint n \<and> n \<noteq> 0 \<and> \<bar>n\<bar> \<le> BUDGET_AMOUNT_MAX"
  by (auto simp: validateDelta_def result_simps dest: as_integer_Some split: option.splits if_splits)

definition amounts_js :: "amounts \<Rightarrow> jsv" where
  "amounts_js c = JObj (map (\<lambda>(d, n). (dimension_str d, jint n)) c)"

definition valid_amounts :: "amounts \<Rightarrow> bool" where
  "valid_amounts c \<longleftrightarrow> c \<noteq> [] \<and> (\<forall>(d, n) \<in> set c. 0 < n \<and> n \<le> BUDGET_AMOUNT_MAX)"

lemma is_record_amounts_js [simp]: "is_record (amounts_js c)"
  by (simp add: amounts_js_def)

lemma validateCeilings_Inr:
  assumes "validateCeilings v = Inr c"
  shows "v = amounts_js c" and "valid_amounts c"
proof -
  from assms obtain kvs where v: "v = JObj kvs" by (cases v) (auto simp: validateCeilings_def)
  with assms have "c \<noteq> []" and
    "list_all2 (\<lambda>(k, a) (d, n). k = dimension_str d \<and> a = jint n \<and> 0 < n \<and> n \<le> BUDGET_AMOUNT_MAX) kvs c"
    by (auto simp: validateCeilings_def result_simps split: if_splits elim!: list_all2_mono)
  from this(2) have "kvs = map (\<lambda>(d, n). (dimension_str d, jint n)) c \<and>
      (\<forall>(d, n) \<in> set c. 0 < n \<and> n \<le> BUDGET_AMOUNT_MAX)"
    by (induction kvs c rule: list_all2_induct) auto
  with v \<open>c \<noteq> []\<close> show "v = amounts_js c" "valid_amounts c"
    by (auto simp: amounts_js_def valid_amounts_def)
qed

lemma validateCeilings_amounts_js:
  assumes "valid_amounts c"
  shows "validateCeilings (amounts_js c) = Inr c"
proof -
  let ?f = "\<lambda>(k, a). bindE (validateDimension k) (\<lambda>d. bindE (validateAmount k a) (\<lambda>n. Inr (d, n)))"
  have "mapE ?f (map (\<lambda>(d, n). (dimension_str d, jint n)) c) = Inr c"
    using assms unfolding valid_amounts_def
    by (auto simp: mapE_Inr_iff list_all2_map1 list.rel_refl_strong bindE_Inr_iff
        validateAmount_Inr_iff validateDimension_Inr_iff intro!: list.rel_refl_strong)
  with assms show ?thesis
    by (simp add: validateCeilings_def amounts_js_def valid_amounts_def)
qed

lemma parse_parent_Inr:
  "parse_parent v = Inr (Some p) \<Longrightarrow>
     parse_parent (JObj [(''scopeType'', JStr (ps_scopeType p)), (''scopeId'', JStr (ps_scopeId p))]) = Inr (Some p)"
  by (auto simp: parse_parent_def split: if_splits jsv.splits)

text \<open>The object that a parsed declaration is stored as.\<close>

definition envelope_js :: "pipeline_budget \<Rightarrow> jsv" where
  "envelope_js b = JObj ((case pb_parent b of None \<Rightarrow> []
       | Some p \<Rightarrow> [(''parent'', JObj [(''scopeType'', JStr (ps_scopeType p)),
                                     (''scopeId'', JStr (ps_scopeId p))])])
     @ [(''ceilings'', amounts_js (pb_ceilings b))])"

lemma parsePipelineBudget_Some:
  assumes "parsePipelineBudget v = Inr (Some b)"
  shows "parse_parent (getp v ''parent'') = Inr (pb_parent b)" and "valid_amounts (pb_ceilings b)"
  using assms by (auto simp: parsePipelineBudget_def result_simps dest: validateCeilings_Inr
      split: if_splits)

subsection \<open>Lemmas on the projection\<close>

lemma fl_nonneg: "0 \<le> r \<Longrightarrow> 0 \<le> fl r"
  by (auto simp: fl_def Let_def round_half_even_def sgn_if)

lemma fadd_nonneg: "0 \<le> a + b \<Longrightarrow> 0 \<le> fadd a b"
  by (simp add: fadd_def fl_nonneg)

lemma project_loop_append:
  "project_loop d a (fs @ gs) = project_loop d (project_loop d a fs) gs"
  by (induction fs arbitrary: a) auto

text \<open>Every intermediate sum is an integer that a double represents exactly.\<close>

fun safe_run :: "dimension \<Rightarrow> int \<Rightarrow> budget_fact list \<Rightarrow> bool" where
  "safe_run d a [] = True"
| "safe_run d a (f # fs) =
     (if f_dimension f \<noteq> d then safe_run d a fs
      else \<bar>a + fact_effect f\<bar> \<le> MAX_SAFE_INTEGER \<and> safe_run d (a + fact_effect f) fs)"

definition ledger_sum :: "ledger_operation \<Rightarrow> dimension \<Rightarrow> budget_fact list \<Rightarrow> int" where
  "ledger_sum oper d fs =
     sum_list (map (\<lambda>f. if oper = Adjust then (case f_delta f of None \<Rightarrow> 0 | Some x \<Rightarrow> x) else f_amount f)
       (filter (\<lambda>f. f_dimension f = d \<and> f_operation f = oper) fs))"

lemma fact_effect_Commit: "f_operation f = Commit \<Longrightarrow> fact_effect f = 0"
  by (simp add: fact_effect.simps)

lemma project_loop_exact:
  "safe_run d a fs \<Longrightarrow>
     project_loop d a fs = a + ledger_sum Adjust d fs + ledger_sum Release d fs - ledger_sum Reserve d fs"
proof (induction fs arbitrary: a)
  case Nil
  then show ?case by (simp add: ledger_sum_def)
next
  case (Cons f fs)
  show ?case
  proof (cases "f_dimension f = d")
    case False
    with Cons show ?thesis by (simp add: ledger_sum_def)
  next
    case True
    with Cons.prems have "project_loop d (a + fact_effect f) fs = a + fact_effect f +
        ledger_sum Adjust d fs + ledger_sum Release d fs - ledger_sum Reserve d fs"
      by (intro Cons.IH) simp
    with True Cons.prems show ?thesis
      by (cases "f_operation f")
        (auto simp: ledger_sum_def fadd_exact fact_effect.simps split: option.splits)
  qed
qed

lemma projectAll_Inr_iff:
  "projectAll c fs = Inr av \<longleftrightarrow>
     (\<forall>d \<in> set (map fst c) \<union> set (map f_dimension fs). 0 \<le> project_loop d (amount_of c d) fs) \<and>
     av = map (\<lambda>d. (d, project_loop d (amount_of c d) fs)) (uniq (map fst c @ map f_dimension fs))"
  unfolding projectAll_def
  by (subst mapE_graph [where P = "\<lambda>d. 0 \<le> project_loop d (amount_of c d) fs"
        and g = "\<lambda>d. (d, project_loop d (amount_of c d) fs)"])
     (auto simp: projectAvailable_def Let_def result_simps)

lemma projectAll_lookup:
  assumes "projectAll c fs = Inr av"
  shows "amount_of av d = project_loop d (amount_of c d) fs"
proof -
  have "d \<notin> set (map f_dimension fs) \<Longrightarrow> project_loop d a fs = a" for a
    by (induction fs) auto
  moreover have "d \<notin> set (map fst c) \<Longrightarrow> amount_of c d = 0"
    using map_of_eq_None_iff [of c d] by (auto simp: amount_of_def)
  moreover have "amount_of av d = (if d \<in> set (map fst c) \<union> set (map f_dimension fs)
      then project_loop d (amount_of c d) fs else 0)"
    using assms by (simp add: projectAll_Inr_iff amount_of_def [of "map _ _"] map_of_graph)
  ultimately show ?thesis by auto
qed

subsection \<open>Properties\<close>

text \<open>Two attempts share a reservation key only when they are the same attempt, of the same
  step of the same execution, for the same dimension. Execution ids are UUIDs: they have no colon;
  a step id may have one.\<close>

theorem reservationKeyForAttempt_inject:
  assumes "CHR '':'' \<notin> set e1" and "CHR '':'' \<notin> set e2"
  shows "reservationKeyForAttempt e1 s1 n1 d1 = reservationKeyForAttempt e2 s2 n2 d2 \<longleftrightarrow>
    e1 = e2 \<and> s1 = s2 \<and> n1 = n2 \<and> d1 = d2"
proof -
  have num: "CHR '':'' \<notin> set (int_str n)" for n
    using int_str_chars [of "CHR '':''" n] by (auto simp: is_digit_def)
  have dim: "CHR '':'' \<notin> set (dimension_str d)" for d by (cases d) auto
  from first_sep_eq [OF assms] last_sep_eq [OF dim dim] last_sep_eq [OF num num] show ?thesis
    unfolding reservationKeyForAttempt_def append_Cons append_Nil
    by (simp only: append_assoc [symmetric] append_Cons [symmetric] append_Nil) (auto simp: first_sep_eq [OF assms])
qed

theorem reservationKeyForAttempt_inject_witness:
  "reservationKeyForAttempt ''e1'' ''s:1'' 2 Tokens \<noteq> reservationKeyForAttempt ''e1'' ''s'' 12 Tokens"
  by (subst reservationKeyForAttempt_inject) auto

text \<open>Parsing a pipeline budget is stable under storage: the parsed declaration, written as an
  object and parsed again, gives the same declaration, whichever of the two shapes it came in.\<close>

theorem parsePipelineBudget_roundtrip:
  assumes "parsePipelineBudget v = Inr (Some b)"
  shows "parsePipelineBudget (envelope_js b) = Inr (Some b)"
  using parsePipelineBudget_Some [OF assms] parse_parent_Inr [of "getp v ''parent''"]
  by (cases "pb_parent b")
    (auto simp: parsePipelineBudget_def envelope_js_def validateCeilings_amounts_js parse_parent_def
      split: option.splits)

theorem parsePipelineBudget_roundtrip_witness:
  "parsePipelineBudget (envelope_js \<lparr>pb_parent = Some \<lparr>ps_scopeType = ''org'', ps_scopeId = ''7''\<rparr>,
       pb_ceilings = [(Tokens, 500), (CurrencyMicros, 90)]\<rparr>) =
     Inr (Some \<lparr>pb_parent = Some \<lparr>ps_scopeType = ''org'', ps_scopeId = ''7''\<rparr>,
       pb_ceilings = [(Tokens, 500), (CurrencyMicros, 90)]\<rparr>)"
  by (rule parsePipelineBudget_roundtrip [of "JObj [(''parent'',
        JObj [(''scopeType'', JStr ''org''), (''scopeId'', JStr ''7'')]),
        (''tokens'', jint 500), (''currency_micros'', jint 90)]"])
    (simp add: parsePipelineBudget_def parse_parent_def validateCeilings_def validateAmount_def
      validateDimension_def BUDGET_DIMENSION_IDS_def trim_def is_ws_def scopeTypeMaxLength_def
      scopeIdMaxLength_def BUDGET_AMOUNT_MAX_def MAX_SAFE_INTEGER_def)

text \<open>Availability is what the ledger's design says it is, the ceiling plus the adjustments plus
  the releases minus the reservations (commits do not count), as long as every intermediate sum is
  an integer that a double holds exactly; a negative result is an error.\<close>

theorem projectAvailable_formula:
  assumes "safe_run d (amount_of ceilings d) facts"
  shows "projectAvailable ceilings facts d =
    (let n = amount_of ceilings d + ledger_sum Adjust d facts + ledger_sum Release d facts
             - ledger_sum Reserve d facts
     in if n < 0 then Inl AVAILABILITY_NEGATIVE else Inr n)"
  using project_loop_exact [OF assms] by (simp add: projectAvailable_def)

theorem projectAvailable_formula_witness:
  "projectAvailable [(Tokens, 100)]
     [\<lparr>f_operation = Reserve, f_dimension = Tokens, f_amount = 60, f_delta = None,
       f_source = Unknown, f_confidence = None\<rparr>,
      \<lparr>f_operation = Commit, f_dimension = Tokens, f_amount = 45, f_delta = None,
       f_source = Actual, f_confidence = None\<rparr>,
      \<lparr>f_operation = Release, f_dimension = Tokens, f_amount = 15, f_delta = None,
       f_source = Unknown, f_confidence = None\<rparr>] Tokens = Inr 55"
  by (subst projectAvailable_formula)
    (simp_all add: amount_of_def fact_effect.simps MAX_SAFE_INTEGER_def ledger_sum_def)

text \<open>The observations read from a result's usage block are valid ledger amounts: at most one
  per dimension, each between 1 and 2^53 - 1, the tokens an actual amount and the cost an estimate.\<close>

theorem usageFromResult_valid:
  assumes "usageFromResult usage = Inr obs"
  shows "distinct (map u_dimension obs) \<and> (\<forall>u \<in> set obs. 0 < u_amount u \<and> u_amount u \<le> BUDGET_AMOUNT_MAX \<and>
      (u_dimension u = Tokens \<and> u_source u = Actual \<and> getp usage ''totalTokens'' = jint (u_amount u) \<or>
       u_dimension u = CurrencyMicros \<and> u_source u = Estimated))"
  using assms
  by (auto simp: usageFromResult_def result_simps split: if_splits jsv.splits jnum.splits option.splits)

theorem usageFromResult_valid_witness:
  "distinct (map u_dimension [\<lparr>u_dimension = Tokens, u_amount = 42, u_source = Actual\<rparr>,
     \<lparr>u_dimension = CurrencyMicros, u_amount = 3000000, u_source = Estimated\<rparr>])"
proof -
  have "fl (rat_of_int 3000000) = rat_of_int 3000000" by (rule fl_int) simp
  then have "usageFromResult (JObj [(''totalTokens'', jint 42), (''costUsd'', jint 3)]) =
      Inr [\<lparr>u_dimension = Tokens, u_amount = 42, u_source = Actual\<rparr>,
           \<lparr>u_dimension = CurrencyMicros, u_amount = 3000000, u_source = Estimated\<rparr>]"
    by (simp add: usageFromResult_def validateAmount_def validateDimension_def BUDGET_DIMENSION_IDS_def
        BUDGET_AMOUNT_MAX_def MAX_SAFE_INTEGER_def cost_micros_def)
  from usageFromResult_valid [OF this] show ?thesis by simp
qed

end
