(* ===== verification/Ledger.thy ===== *)
theory Ledger
  imports Budget
begin

text \<open>
  services/orchestrator/src/services/budget-ledger.service.ts: the append-only budget ledger over
  its three tables. Each operation is one transaction: it returns the new tables, or the error that
  rolls it back. Ids that PostgreSQL generates are arguments; the rows of a table are in insertion
  order; the row locks make the transactions on one chain of accounts sequential.
\<close>

subsection \<open>Tables\<close>

record account =
  a_id :: string
  a_scopeType :: string
  a_scopeId :: string
  a_parent :: "string option"
  a_ceilings :: amounts
  a_soft :: "amounts option"

record reservation =
  r_id :: string
  r_account :: string
  r_key :: string
  r_dimension :: dimension
  r_amount :: int
  r_status :: reservation_status
  r_action :: "string option"

record entry =
  e_account :: string
  e_reservation :: "string option"
  e_fact :: budget_fact
  e_key :: "string option"
  e_evidence :: "jsv option"

record ledger_db =
  accounts :: "account list"
  reservations :: "reservation list"
  ledger :: "entry list"

text \<open>What a transaction throws: a \<open>BudgetError\<close>, or an error of the database.\<close>

datatype ledger_error =
    Budget budget_error | UniqueViolation string | ForeignKeyViolation string | ValueTooLong
  | NoAccountRow

definition liftB :: "budget_error + 'a \<Rightarrow> ledger_error + 'a" where
  "liftB m = (case m of Inl e \<Rightarrow> Inl (Budget e) | Inr x \<Rightarrow> Inr x)"

lemma liftB_simps [simp]: "liftB (Inl e) = Inl (Budget e)" "liftB (Inr x) = Inr x"
  by (simp_all add: liftB_def)

lemma liftB_Inr_iff [result_simps]: "liftB m = Inr x \<longleftrightarrow> m = Inr x"
  by (cases m) auto

definition find_account :: "ledger_db \<Rightarrow> string \<Rightarrow> account option" where
  "find_account db i = find (\<lambda>a. a_id a = i) (accounts db)"

definition find_reservation :: "ledger_db \<Rightarrow> string \<Rightarrow> reservation option" where
  "find_reservation db i = find (\<lambda>r. r_id r = i) (reservations db)"

subsection \<open>Internals\<close>

definition boundedString :: "jsv \<Rightarrow> nat \<Rightarrow> ledger_error + string" where
  "boundedString v maxLength =
     (case v of
        JStr s \<Rightarrow> if trim s = [] \<or> length s > maxLength then Inl (Budget INPUT_INVALID) else Inr s
      | _ \<Rightarrow> Inl (Budget INPUT_INVALID))"

definition optionalBoundedString :: "string option \<Rightarrow> nat \<Rightarrow> ledger_error + string option" where
  "optionalBoundedString v maxLength =
     (case v of None \<Rightarrow> Inr None | Some s \<Rightarrow> bindE (boundedString (JStr s) maxLength) (\<lambda>s. Inr (Some s)))"

text \<open>The walk from an account to its root; \<open>[]\<close> ends it, as the empty string does.\<close>

function walk_chain ::
  "ledger_db \<Rightarrow> string list \<Rightarrow> account list \<Rightarrow> string \<Rightarrow> ledger_error + account list" where
  "walk_chain db seen chain currentId =
     (if currentId = [] then Inr chain
      else if currentId \<in> set seen then Inl (Budget CHAIN_TOO_DEEP)
      else case find_account db currentId of
        None \<Rightarrow> Inl (Budget ACCOUNT_NOT_FOUND)
      | Some a \<Rightarrow>
          if length (chain @ [a]) > accountChainMaxDepth then Inl (Budget CHAIN_TOO_DEEP)
          else walk_chain db (currentId # seen) (chain @ [a])
                 (case a_parent a of None \<Rightarrow> [] | Some p \<Rightarrow> p))"
  by pat_completeness auto
termination
  by (relation "measure (\<lambda>(db, seen, chain, i). Suc accountChainMaxDepth - length chain)") auto

declare walk_chain.simps [simp del]

definition lockChain :: "ledger_db \<Rightarrow> string \<Rightarrow> ledger_error + account list" where
  "lockChain db i = bindE (walk_chain db [] [] i) (\<lambda>chain.
     Inr (sort_by (\<lambda>l r. a_id l < a_id r) chain))"

definition rows_of :: "ledger_db \<Rightarrow> string \<Rightarrow> budget_fact list" where
  "rows_of db i = map e_fact (filter (\<lambda>e. e_account e = i) (ledger db))"

definition loadFacts :: "ledger_db \<Rightarrow> string \<Rightarrow> ledger_error + budget_fact list" where
  "loadFacts db i =
     (if length (rows_of db i) > projectionPageSize then Inl (Budget PROJECTION_TOO_LARGE)
      else Inr (rows_of db i))"

definition projectAvailableLocked :: "ledger_db \<Rightarrow> account \<Rightarrow> dimension \<Rightarrow> ledger_error + int" where
  "projectAvailableLocked db a d = bindE (loadFacts db (a_id a)) (\<lambda>facts.
     bindE (liftB (projectAll (a_ceilings a) facts)) (\<lambda>projected. Inr (amount_of projected d)))"

text \<open>
  One inserted row, with the constraints of the table: the key column holds 255 characters and is
  unique for an account, the account and the reservation exist.
\<close>

definition entry_references :: "ledger_db \<Rightarrow> entry \<Rightarrow> ledger_error + unit" where
  "entry_references db e =
     (if e_account e \<notin> a_id ` set (accounts db)
      then Inl (ForeignKeyViolation ''FK_budget_entry_account'')
      else case e_reservation e of
        None \<Rightarrow> Inr ()
      | Some i \<Rightarrow> if i \<in> r_id ` set (reservations db) then Inr ()
                  else Inl (ForeignKeyViolation ''FK_budget_entry_reservation''))"

definition entry_key_free :: "ledger_db \<Rightarrow> entry \<Rightarrow> ledger_error + unit" where
  "entry_key_free db e =
     (case e_key e of
        None \<Rightarrow> Inr ()
      | Some k \<Rightarrow>
          if length k > 255 then Inl ValueTooLong
          else if \<exists>e' \<in> set (ledger db). e_account e' = e_account e \<and> e_key e' = Some k
          then Inl (UniqueViolation ''UQ_budget_entry_account_key'')
          else Inr ())"

definition insert_entry :: "ledger_db \<Rightarrow> entry \<Rightarrow> ledger_error + ledger_db" where
  "insert_entry db e =
     bindE (entry_key_free db e) (\<lambda>_. bindE (entry_references db e) (\<lambda>_.
       Inr (db\<lparr>ledger := ledger db @ [e]\<rparr>)))"

definition chain_entry :: "string \<Rightarrow> string \<Rightarrow> budget_fact \<Rightarrow> jsv option \<Rightarrow> account \<Rightarrow> entry" where
  "chain_entry rid key f evidence a =
     \<lparr>e_account = a_id a, e_reservation = Some rid, e_fact = f,
      e_key = Some (key @ '':'' @ a_id a), e_evidence = evidence\<rparr>"

definition writeChainEntries ::
  "ledger_db \<Rightarrow> account list \<Rightarrow> string \<Rightarrow> string \<Rightarrow> budget_fact \<Rightarrow> jsv option \<Rightarrow> ledger_error + ledger_db" where
  "writeChainEntries db chain rid key f evidence =
     foldE insert_entry db (map (chain_entry rid key f evidence) chain)"

definition assertChildCeilingSubset :: "amounts \<Rightarrow> account \<Rightarrow> ledger_error + unit" where
  "assertChildCeilingSubset child parent =
     forE (\<lambda>(d, n). case map_of (a_ceilings parent) d of
         None \<Rightarrow> Inl (Budget CHILD_CEILING_EXCEEDS_PARENT)
       | Some p \<Rightarrow> if n > p then Inl (Budget CHILD_CEILING_EXCEEDS_PARENT) else Inr ()) child"

subsection \<open>Accounts\<close>

record account_input =
  ai_scopeType :: string
  ai_scopeId :: string
  ai_parent :: "string option"
  ai_ceilings :: jsv
  ai_soft :: jsv

definition createAccount :: "ledger_db \<Rightarrow> string \<Rightarrow> account_input \<Rightarrow> ledger_error + ledger_db \<times> account" where
  "createAccount db newId inp =
     bindE (boundedString (JStr (ai_scopeType inp)) scopeTypeMaxLength) (\<lambda>scopeType.
     bindE (boundedString (JStr (ai_scopeId inp)) scopeIdMaxLength) (\<lambda>scopeId.
     bindE (liftB (validateCeilings (ai_ceilings inp))) (\<lambda>ceilings.
     bindE (if nullish (ai_soft inp) then Inr None
            else bindE (liftB (validateCeilings (ai_soft inp))) (\<lambda>c. Inr (Some c))) (\<lambda>soft.
     bindE (case ai_parent inp of
          None \<Rightarrow> Inr ()
        | Some p \<Rightarrow> if p = [] then Inr () else
            bindE (lockChain db p) (\<lambda>chain.
              let directParent = (case find (\<lambda>a. a_id a = p) chain of Some a \<Rightarrow> a | None \<Rightarrow> hd chain)
              in bindE (assertChildCeilingSubset ceilings directParent) (\<lambda>_.
                   case soft of None \<Rightarrow> Inr () | Some c \<Rightarrow> assertChildCeilingSubset c directParent)))
     (\<lambda>_.
       if \<exists>a \<in> set (accounts db). a_id a = newId \<or> a_scopeType a = scopeType \<and> a_scopeId a = scopeId
       then Inl (Budget SCOPE_ALREADY_EXISTS)
       else if \<exists>p. ai_parent inp = Some p \<and> p \<notin> a_id ` set (accounts db)
       then Inl (ForeignKeyViolation ''FK_budget_account_parent'')
       else let a = \<lparr>a_id = newId, a_scopeType = scopeType, a_scopeId = scopeId,
                     a_parent = ai_parent inp, a_ceilings = ceilings, a_soft = soft\<rparr>
            in Inr (db\<lparr>accounts := accounts db @ [a]\<rparr>, a))))))"

definition projection :: "ledger_db \<Rightarrow> string \<Rightarrow> ledger_error + account \<times> amounts" where
  "projection db i =
     (case find_account db i of
        None \<Rightarrow> Inl (Budget ACCOUNT_NOT_FOUND)
      | Some a \<Rightarrow> bindE (loadFacts db i) (\<lambda>facts.
          bindE (liftB (projectAll (a_ceilings a) facts)) (\<lambda>available. Inr (a, available))))"

subsection \<open>Reservations\<close>

record reserve_input =
  ri_account :: string
  ri_dimension :: string
  ri_amount :: jsv
  ri_key :: string
  ri_action :: "string option"
  ri_source :: jsv
  ri_confidence :: jsv
  ri_evidence :: jsv

record reserve_args =
  ra_dimension :: dimension
  ra_amount :: int
  ra_key :: string
  ra_action :: "string option"
  ra_source :: source
  ra_confidence :: "int option"
  ra_evidence :: "jsv option"

definition reserve_args :: "reserve_input \<Rightarrow> ledger_error + reserve_args" where
  "reserve_args inp =
     bindE (liftB (validateDimension (ri_dimension inp))) (\<lambda>d.
     bindE (liftB (validateAmount (ri_dimension inp) (ri_amount inp))) (\<lambda>n.
     bindE (boundedString (JStr (ri_key inp)) idempotencyKeyMaxLength) (\<lambda>key.
     bindE (optionalBoundedString (ri_action inp) actionRefMaxLength) (\<lambda>action.
     bindE (liftB (validateSource (coalesce (ri_source inp) (JStr ''unknown'')))) (\<lambda>source.
     bindE (liftB (validateConfidence (ri_confidence inp))) (\<lambda>confidence.
     bindE (liftB (validateEvidence (ri_evidence inp))) (\<lambda>evidence.
       Inr \<lparr>ra_dimension = d, ra_amount = n, ra_key = key, ra_action = action,
            ra_source = source, ra_confidence = confidence, ra_evidence = evidence\<rparr>)))))))"

definition check_available :: "ledger_db \<Rightarrow> dimension \<Rightarrow> int \<Rightarrow> account list \<Rightarrow> ledger_error + unit" where
  "check_available db d n chain =
     forE (\<lambda>a. bindE (projectAvailableLocked db a d) (\<lambda>available.
       if available < n then Inl (Budget INSUFFICIENT_BUDGET) else Inr ())) chain"

definition insert_reservation :: "ledger_db \<Rightarrow> reservation \<Rightarrow> ledger_error + ledger_db" where
  "insert_reservation db r =
     (if \<exists>r' \<in> set (reservations db). r_key r' = r_key r
      then Inl (UniqueViolation ''UQ_budget_reservation_key'')
      else if \<exists>r' \<in> set (reservations db). r_id r' = r_id r
      then Inl (UniqueViolation ''PK_budget_reservations'')
      else if r_account r \<notin> a_id ` set (accounts db)
      then Inl (ForeignKeyViolation ''FK_budget_reservation_account'')
      else Inr (db\<lparr>reservations := reservations db @ [r]\<rparr>))"

definition new_reservation :: "string \<Rightarrow> string \<Rightarrow> reserve_args \<Rightarrow> reservation" where
  "new_reservation newId accountId x =
     \<lparr>r_id = newId, r_account = accountId, r_key = ra_key x, r_dimension = ra_dimension x,
      r_amount = ra_amount x, r_status = ACTIVE, r_action = ra_action x\<rparr>"

definition reserve_fact :: "reserve_args \<Rightarrow> budget_fact" where
  "reserve_fact x =
     \<lparr>f_operation = Reserve, f_dimension = ra_dimension x, f_amount = ra_amount x,
      f_delta = None, f_source = ra_source x, f_confidence = ra_confidence x\<rparr>"

definition reserve_tx ::
  "ledger_db \<Rightarrow> string \<Rightarrow> string \<Rightarrow> reserve_args \<Rightarrow> ledger_error + ledger_db \<times> reservation" where
  "reserve_tx db newId accountId x =
     bindE (lockChain db accountId) (\<lambda>chain.
     bindE (check_available db (ra_dimension x) (ra_amount x) chain) (\<lambda>_.
     bindE (insert_reservation db (new_reservation newId accountId x)) (\<lambda>db1.
     bindE (writeChainEntries db1 chain newId (ra_key x) (reserve_fact x) (ra_evidence x)) (\<lambda>db2.
       Inr (db2, new_reservation newId accountId x)))))"

definition assertReplayMatches ::
  "reservation \<Rightarrow> string \<Rightarrow> dimension \<Rightarrow> int \<Rightarrow> ledger_error + reservation" where
  "assertReplayMatches existing accountId d n =
     (if r_account existing = accountId \<and> r_dimension existing = d \<and> r_amount existing = n
      then Inr existing else Inl (Budget IDEMPOTENCY_CONFLICT))"

definition replayReservation ::
  "ledger_db \<Rightarrow> string \<Rightarrow> string \<Rightarrow> dimension \<Rightarrow> int \<Rightarrow> ledger_error + reservation" where
  "replayReservation db key accountId d n =
     (case find (\<lambda>r. r_key r = key) (reservations db) of
        None \<Rightarrow> Inl (Budget IDEMPOTENCY_CONFLICT)
      | Some existing \<Rightarrow> assertReplayMatches existing accountId d n)"

text \<open>
  \<open>owned\<close> says that the caller passed its own transaction: then the unique violation surfaces;
  a standalone call replays the key in a fresh transaction.
\<close>

definition reserve ::
  "bool \<Rightarrow> ledger_db \<Rightarrow> string \<Rightarrow> reserve_input \<Rightarrow> ledger_error + ledger_db \<times> reservation" where
  "reserve owned db newId inp =
     bindE (reserve_args inp) (\<lambda>x.
       case reserve_tx db newId (ri_account inp) x of
         Inr res \<Rightarrow> Inr res
       | Inl e \<Rightarrow>
           if e = UniqueViolation ''UQ_budget_reservation_key'' \<and> \<not> owned
           then bindE (replayReservation db (ra_key x) (ri_account inp) (ra_dimension x) (ra_amount x))
                  (\<lambda>r. Inr (db, r))
           else Inl e)"

subsection \<open>Settlement\<close>

text \<open>Saving the reservation with its new status, in place.\<close>

definition set_status :: "ledger_db \<Rightarrow> string \<Rightarrow> reservation_status \<Rightarrow> ledger_db" where
  "set_status db i st =
     db\<lparr>reservations := map (\<lambda>r. if r_id r = i then r\<lparr>r_status := st\<rparr> else r) (reservations db)\<rparr>"

definition settleReservation ::
  "ledger_db \<Rightarrow> string \<Rightarrow> reservation_status \<Rightarrow> reservation_status list \<Rightarrow>
     (ledger_db \<Rightarrow> reservation \<Rightarrow> ledger_error + ledger_db) \<Rightarrow> ledger_error + ledger_db \<times> reservation" where
  "settleReservation db i target allowedFrom prepare =
     (case find_reservation db i of
        None \<Rightarrow> Inl (Budget RESERVATION_NOT_ACTIVE)
      | Some r \<Rightarrow>
          if r_status r \<notin> set allowedFrom then Inl (Budget RESERVATION_NOT_ACTIVE)
          else bindE (prepare db r) (\<lambda>db1. Inr (set_status db1 i target, r\<lparr>r_status := target\<rparr>)))"

record settle_input =
  si_reservation :: string
  si_amount :: jsv
  si_source :: jsv
  si_confidence :: jsv
  si_evidence :: jsv
  si_reason :: "string option"

definition prepare_commit :: "settle_input \<Rightarrow> ledger_db \<Rightarrow> reservation \<Rightarrow> ledger_error + ledger_db" where
  "prepare_commit inp db r =
     bindE (liftB (validateAmount (dimension_str (r_dimension r)) (si_amount inp))) (\<lambda>n.
     if n > r_amount r then Inl (Budget RESERVATION_AMOUNT_EXCEEDED)
     else bindE (liftB (validateSource (coalesce (si_source inp) (JStr ''unknown'')))) (\<lambda>source.
       bindE (liftB (validateConfidence (si_confidence inp))) (\<lambda>confidence.
       bindE (liftB (validateEvidence (si_evidence inp))) (\<lambda>evidence.
         insert_entry db
           \<lparr>e_account = r_account r, e_reservation = Some (r_id r),
            e_fact = \<lparr>f_operation = Commit, f_dimension = r_dimension r, f_amount = n,
                      f_delta = None, f_source = source, f_confidence = confidence\<rparr>,
            e_key = Some (r_key r @ '':commit''), e_evidence = evidence\<rparr>))))"

definition commit :: "ledger_db \<Rightarrow> settle_input \<Rightarrow> ledger_error + ledger_db \<times> reservation" where
  "commit db inp =
     settleReservation db (si_reservation inp) COMMITTED [ACTIVE] (prepare_commit inp)"

definition committedAmount :: "ledger_db \<Rightarrow> string \<Rightarrow> int" where
  "committedAmount db i = sum_list (map (\<lambda>e. f_amount (e_fact e))
     (filter (\<lambda>e. e_reservation e = Some i \<and> f_operation (e_fact e) = Commit) (ledger db)))"

definition prepare_release :: "settle_input \<Rightarrow> ledger_db \<Rightarrow> reservation \<Rightarrow> ledger_error + ledger_db" where
  "prepare_release inp db r =
     bindE (liftB (validateAmount (dimension_str (r_dimension r)) (si_amount inp))) (\<lambda>n.
     if n > r_amount r - committedAmount db (r_id r) then Inl (Budget RESERVATION_AMOUNT_EXCEEDED)
     else bindE (liftB (validateSource (coalesce (si_source inp) (JStr ''unknown'')))) (\<lambda>source.
       bindE (liftB (validateConfidence (si_confidence inp))) (\<lambda>confidence.
       bindE (case si_reason inp of
           None \<Rightarrow> Inr None
         | Some t \<Rightarrow> liftB (validateEvidence (JObj [(''reason'', JStr t)]))) (\<lambda>evidence.
       bindE (lockChain db (r_account r)) (\<lambda>chain.
         writeChainEntries db chain (r_id r) (r_key r @ '':release'')
           \<lparr>f_operation = Release, f_dimension = r_dimension r, f_amount = n,
            f_delta = None, f_source = source, f_confidence = confidence\<rparr> evidence)))))"

definition release :: "ledger_db \<Rightarrow> settle_input \<Rightarrow> ledger_error + ledger_db \<times> reservation" where
  "release db inp =
     settleReservation db (si_reservation inp) RELEASED [ACTIVE, COMMITTED] (prepare_release inp)"

subsection \<open>Adjustments\<close>

record adjust_input =
  ad_account :: string
  ad_dimension :: string
  ad_delta :: jsv
  ad_reason :: jsv

definition accountDelta :: "string \<Rightarrow> int \<Rightarrow> account \<Rightarrow> int" where
  "accountDelta accountId delta a = (if a_id a = accountId then delta else - delta)"

definition adjust_entry :: "string \<Rightarrow> dimension \<Rightarrow> int \<Rightarrow> string \<Rightarrow> account \<Rightarrow> entry" where
  "adjust_entry accountId d delta reason a =
     \<lparr>e_account = a_id a, e_reservation = None,
      e_fact = \<lparr>f_operation = Adjust, f_dimension = d, f_amount = \<bar>delta\<bar>,
                f_delta = Some (accountDelta accountId delta a), f_source = Actual, f_confidence = None\<rparr>,
      e_key = None, e_evidence = Some (JObj [(''reason'', JStr reason)])\<rparr>"

definition check_adjust :: "ledger_db \<Rightarrow> string \<Rightarrow> dimension \<Rightarrow> int \<Rightarrow> account list \<Rightarrow> ledger_error + unit" where
  "check_adjust db accountId d delta chain =
     forE (\<lambda>a. bindE (projectAvailableLocked db a d) (\<lambda>current.
       if fadd current (accountDelta accountId delta a) < 0
       then Inl (Budget AVAILABILITY_NEGATIVE) else Inr ())) chain"

text \<open>It returns \<open>saved[0]\<close>: the entry of the first account of the chain.\<close>

definition adjust :: "ledger_db \<Rightarrow> adjust_input \<Rightarrow> ledger_error + ledger_db \<times> entry" where
  "adjust db inp =
     bindE (liftB (validateDimension (ad_dimension inp))) (\<lambda>d.
     bindE (liftB (validateDelta (ad_dimension inp) (ad_delta inp))) (\<lambda>delta.
     bindE (boundedString (ad_reason inp) actionRefMaxLength) (\<lambda>reason.
     bindE (lockChain db (ad_account inp)) (\<lambda>chain.
     bindE (check_adjust db (ad_account inp) d delta chain) (\<lambda>_.
     let entries = map (adjust_entry (ad_account inp) d delta reason) chain
     in bindE (foldE insert_entry db entries) (\<lambda>db1. Inr (db1, hd entries)))))))"

subsection \<open>Enforcement inside the owner's transaction\<close>

definition ensureExecutionAccount ::
  "ledger_db \<Rightarrow> string \<Rightarrow> string \<Rightarrow> pipeline_budget option \<Rightarrow> amounts option \<Rightarrow>
     ledger_error + ledger_db \<times> account" where
  "ensureExecutionAccount db newId executionId pipelineBudget stepBudget =
     (case find (\<lambda>a. a_scopeType a = ''execution'' \<and> a_scopeId a = executionId) (accounts db) of
        Some existing \<Rightarrow> Inr (db, existing)
      | None \<Rightarrow>
         let ceilings = (case pipelineBudget of
               Some b \<Rightarrow> if pb_ceilings b \<noteq> [] then pb_ceilings b
                         else (case stepBudget of None \<Rightarrow> [] | Some c \<Rightarrow> c)
             | None \<Rightarrow> (case stepBudget of None \<Rightarrow> [] | Some c \<Rightarrow> c))
         in if ceilings = [] then Inl (Budget DIMENSION_MISSING)
         else bindE (case pipelineBudget of
               None \<Rightarrow> Inr None
             | Some b \<Rightarrow> (case pb_parent b of
                 None \<Rightarrow> Inr None
               | Some p \<Rightarrow> (case find (\<lambda>a. a_scopeType a = ps_scopeType p \<and> a_scopeId a = ps_scopeId p)
                              (accounts db) of
                   None \<Rightarrow> Inl (Budget ACCOUNT_NOT_FOUND)
                 | Some parent \<Rightarrow>
                     bindE (assertChildCeilingSubset ceilings parent) (\<lambda>_. Inr (Some (a_id parent))))))
           (\<lambda>parentId.
             if \<exists>a \<in> set (accounts db). a_id a = newId
             then Inl NoAccountRow
             else let a = \<lparr>a_id = newId, a_scopeType = ''execution'', a_scopeId = executionId,
                           a_parent = parentId, a_ceilings = ceilings, a_soft = None\<rparr>
                  in Inr (db\<lparr>accounts := accounts db @ [a]\<rparr>, a)))"

record attempt_budget =
  ab_executionId :: string
  ab_logicalStepId :: string
  ab_attemptNumber :: int
  ab_invocationId :: string
  ab_accountId :: string
  ab_budget :: amounts

text \<open>\<open>newId d\<close> is the id that the database gives the reservation of dimension \<open>d\<close>.\<close>

definition attempt_reservation :: "attempt_budget \<Rightarrow> dimension \<times> int \<Rightarrow> reserve_input" where
  "attempt_reservation inp dn =
     \<lparr>ri_account = ab_accountId inp, ri_dimension = dimension_str (fst dn), ri_amount = jint (snd dn),
      ri_key = reservationKeyForAttempt (ab_executionId inp) (ab_logicalStepId inp)
                 (ab_attemptNumber inp) (fst dn),
      ri_action = Some (ab_invocationId inp), ri_source = JStr ''unknown'',
      ri_confidence = JUndef, ri_evidence = JUndef\<rparr>"

definition reserveForAttempt ::
  "ledger_db \<Rightarrow> (dimension \<Rightarrow> string) \<Rightarrow> attempt_budget \<Rightarrow> ledger_error + ledger_db" where
  "reserveForAttempt db newId inp =
     foldE (\<lambda>db dn. bindE (reserve True db (newId (fst dn)) (attempt_reservation inp dn))
              (\<lambda>res. Inr (fst res))) db (ab_budget inp)"

definition commit_input :: "reservation \<Rightarrow> int \<Rightarrow> source \<Rightarrow> string \<Rightarrow> settle_input" where
  "commit_input r n src actionRef =
     \<lparr>si_reservation = r_id r, si_amount = jint n,
      si_source = JStr (case src of Actual \<Rightarrow> ''actual'' | Estimated \<Rightarrow> ''estimated'' | Unknown \<Rightarrow> ''unknown''),
      si_confidence = JUndef, si_evidence = JObj [(''actionRef'', JStr actionRef)], si_reason = None\<rparr>"

definition release_input :: "reservation \<Rightarrow> int \<Rightarrow> string \<Rightarrow> settle_input" where
  "release_input r n reason =
     \<lparr>si_reservation = r_id r, si_amount = jint n, si_source = JStr ''unknown'',
      si_confidence = JUndef, si_evidence = JUndef, si_reason = Some reason\<rparr>"

definition reconcile_one ::
  "string \<Rightarrow> usage_observation list \<Rightarrow> ledger_db \<Rightarrow> reservation \<Rightarrow> ledger_error + ledger_db" where
  "reconcile_one actionRef usage db r =
     (case find (\<lambda>u. u_dimension u = r_dimension r) usage of
        None \<Rightarrow> Inr db
      | Some obs \<Rightarrow>
         let reserved = r_amount r; committed = min (u_amount obs) reserved;
             unused = reserved - committed
         in bindE (if committed > 0
                   then bindE (commit db (commit_input r committed (u_source obs) actionRef))
                          (\<lambda>res. Inr (fst res))
                   else Inr db)
             (\<lambda>db1. if unused > 0
               then bindE (release db1 (release_input r unused ''unused reservation after terminal result''))
                      (\<lambda>res. Inr (fst res))
               else Inr db1))"

definition reconcileTerminal ::
  "ledger_db \<Rightarrow> string \<Rightarrow> usage_observation list \<Rightarrow> ledger_error + ledger_db" where
  "reconcileTerminal db actionRef usage =
     foldE (reconcile_one actionRef usage) db
       (filter (\<lambda>r. r_action r = Some actionRef) (reservations db))"

definition releaseForAction :: "ledger_db \<Rightarrow> string \<Rightarrow> string \<Rightarrow> ledger_error + ledger_db" where
  "releaseForAction db actionRef reason =
     foldE (\<lambda>db r. bindE (release db (release_input r (r_amount r) reason)) (\<lambda>res. Inr (fst res))) db
       (filter (\<lambda>r. r_action r = Some actionRef) (reservations db))"

subsection \<open>The ledger as a machine of transactions\<close>

datatype ledger_op =
    CreateAccount string account_input
  | ReserveBudget bool string reserve_input
  | CommitUsage settle_input
  | ReleaseUnused settle_input
  | AdjustCeiling adjust_input

fun ledger_step :: "ledger_db \<Rightarrow> ledger_op \<Rightarrow> ledger_error + ledger_db" where
  "ledger_step db (CreateAccount i inp) = bindE (createAccount db i inp) (\<lambda>res. Inr (fst res))"
| "ledger_step db (ReserveBudget owned i inp) = bindE (reserve owned db i inp) (\<lambda>res. Inr (fst res))"
| "ledger_step db (CommitUsage inp) = bindE (commit db inp) (\<lambda>res. Inr (fst res))"
| "ledger_step db (ReleaseUnused inp) = bindE (release db inp) (\<lambda>res. Inr (fst res))"
| "ledger_step db (AdjustCeiling inp) = bindE (adjust db inp) (\<lambda>res. Inr (fst res))"

definition empty_ledger :: ledger_db where
  "empty_ledger = \<lparr>accounts = [], reservations = [], ledger = []\<rparr>"

text \<open>The balance of an account, as the projection computes it.\<close>

definition balance :: "ledger_db \<Rightarrow> account \<Rightarrow> dimension \<Rightarrow> int" where
  "balance db a d = project_loop d (amount_of (a_ceilings a) d) (rows_of db (a_id a))"

definition accounts_wf :: "ledger_db \<Rightarrow> bool" where
  "accounts_wf db \<longleftrightarrow> distinct (map a_id (accounts db)) \<and>
     (\<forall>e \<in> set (ledger db). e_account e \<in> a_id ` set (accounts db)) \<and>
     set (map r_account (reservations db)) \<subseteq> a_id ` set (accounts db)"

definition solvent :: "ledger_db \<Rightarrow> bool" where
  "solvent db \<longleftrightarrow> accounts_wf db \<and> (\<forall>a \<in> set (accounts db). \<forall>d. 0 \<le> balance db a d)"

end
