(* ===== verification/Ledger_Invariants.thy ===== *)
theory Ledger_Invariants
  imports Ledger
begin

text \<open>
  What the ledger keeps: no account's projected availability becomes negative
  (\<open>solvent\<close>), and no reservation is settled beyond its amount (\<open>settled_ok\<close>), whatever
  sequence of transactions runs. The two are interpretations of the locale \<open>tx_machine\<close>.
\<close>

subsection \<open>Lemmas: what each transaction writes\<close>

lemma insert_entry_Inr: "insert_entry db e = Inr db' \<Longrightarrow> db' = db\<lparr>ledger := ledger db @ [e]\<rparr>"
  by (auto simp: insert_entry_def result_simps)

lemma insert_entries_Inr:
  "foldE insert_entry db es = Inr db' \<Longrightarrow> db' = db\<lparr>ledger := ledger db @ es\<rparr>"
proof (induction es arbitrary: db)
  case Nil
  then show ?case by simp
next
  case (Cons e es)
  then obtain db1 where "insert_entry db e = Inr db1" "foldE insert_entry db1 es = Inr db'"
    by (auto simp: bindE_Inr_iff)
  with Cons.IH [of db1] insert_entry_Inr [of db e db1] show ?case by simp
qed

lemma writeChainEntries_Inr:
  "writeChainEntries db chain rid key f ev = Inr db' \<Longrightarrow>
     db' = db\<lparr>ledger := ledger db @ map (chain_entry rid key f ev) chain\<rparr>"
  unfolding writeChainEntries_def by (rule insert_entries_Inr)

lemma find_account_Some:
  "find_account db i = Some a \<Longrightarrow> a \<in> set (accounts db) \<and> a_id a = i"
  by (auto simp: find_account_def find_Some_iff)

lemma walk_chain_Inr:
  assumes "walk_chain db seen chain i = Inr res"
    and "set chain \<subseteq> set (accounts db)" and "distinct (map a_id chain)"
    and "a_id ` set chain = set seen"
  shows "set res \<subseteq> set (accounts db) \<and> distinct (map a_id res) \<and>
    (i \<noteq> [] \<longrightarrow> i \<in> a_id ` set res) \<and> set chain \<subseteq> set res"
  using assms
proof (induction db seen chain i rule: walk_chain.induct)
  case (1 db seen chain i)
  show ?case
  proof (cases "i = []")
    case True
    with "1.prems" show ?thesis by (simp add: walk_chain.simps)
  next
    case False
    with "1.prems"(1) obtain a where a: "i \<notin> set seen" "find_account db i = Some a"
      "length (chain @ [a]) \<le> accountChainMaxDepth"
      and rec: "walk_chain db (i # seen) (chain @ [a]) (case a_parent a of None \<Rightarrow> [] | Some p \<Rightarrow> p) = Inr res"
      by (auto simp: walk_chain.simps [of db seen chain i] split: if_splits option.splits)
    from find_account_Some [OF a(2)] have fa: "a \<in> set (accounts db)" "a_id a = i" by auto
    have "set res \<subseteq> set (accounts db) \<and> distinct (map a_id res) \<and> set (chain @ [a]) \<subseteq> set res"
      using "1.IH" [OF False a(1,2) _ rec] a(3,1) fa "1.prems"(2-4) by auto
    with False fa show ?thesis by auto
  qed
qed

lemma lockChain_Inr:
  assumes "lockChain db i = Inr chain"
  shows "set chain \<subseteq> set (accounts db)" and "distinct (map a_id chain)"
    and "i \<noteq> [] \<Longrightarrow> i \<in> a_id ` set chain"
proof -
  from assms obtain w where w: "walk_chain db [] [] i = Inr w"
    and c: "chain = sort_by (\<lambda>l r. a_id l < a_id r) w"
    by (auto simp: lockChain_def bindE_Inr_iff)
  from walk_chain_Inr [OF w] have *: "set w \<subseteq> set (accounts db)" "distinct (map a_id w)"
    "i \<noteq> [] \<Longrightarrow> i \<in> a_id ` set w" by auto
  have "mset (map a_id chain) = mset (map a_id w)" by (simp add: c)
  from mset_eq_imp_distinct_iff [OF this] *(2) show "distinct (map a_id chain)" by simp
  from * show "set chain \<subseteq> set (accounts db)" "i \<noteq> [] \<Longrightarrow> i \<in> a_id ` set chain"
    by (auto simp: c)
qed

lemma rows_of_append:
  "rows_of (db\<lparr>ledger := ledger db @ es\<rparr>) i = rows_of db i @ map e_fact (filter (\<lambda>e. e_account e = i) es)"
  by (simp add: rows_of_def)

lemma rows_of_frame [simp]:
  "rows_of (db\<lparr>reservations := rs\<rparr>) i = rows_of db i"
  "rows_of (db\<lparr>accounts := as\<rparr>) i = rows_of db i"
  "rows_of (set_status db j st) i = rows_of db i"
  by (simp_all add: rows_of_def set_status_def)

lemma accounts_set_status [simp]:
  "accounts (set_status db j st) = accounts db" "ledger (set_status db j st) = ledger db"
  by (simp_all add: set_status_def)

text \<open>Entries written one per account of a chain: each account of the chain gets its own.\<close>

lemma filter_chain:
  assumes "distinct (map a_id chain)" and "\<And>a. e_account (mk a) = a_id a"
  shows "filter (\<lambda>e. e_account e = i) (map mk chain) =
    (case find (\<lambda>a. a_id a = i) chain of None \<Rightarrow> [] | Some a \<Rightarrow> [mk a])"
  using assms(1)
proof (induction chain)
  case Nil
  then show ?case by simp
next
  case (Cons a chain)
  have none: "a_id a = i \<Longrightarrow> filter (\<lambda>e. e_account e = i) (map mk chain) = []"
    using Cons.prems by (fastforce simp: filter_empty_conv assms(2) image_iff)
  show ?case using Cons none by (simp add: assms(2))
qed

lemma find_in_chain:
  assumes "distinct (map a_id as)" and "set chain \<subseteq> set as" and "a \<in> set as"
  shows "find (\<lambda>x. a_id x = a_id a) chain = (if a \<in> set chain then Some a else None)"
proof -
  have inj: "x \<in> set as \<Longrightarrow> a_id x = a_id a \<Longrightarrow> x = a" for x
    using assms(1,3) by (auto simp: distinct_map dest: inj_onD)
  show ?thesis
  proof (cases "find (\<lambda>x. a_id x = a_id a) chain")
    case None
    then show ?thesis by (auto simp: find_None_iff)
  next
    case (Some y)
    then have "y \<in> set chain" "a_id y = a_id a" by (auto simp: find_Some_iff)
    with inj [of y] assms(2) Some show ?thesis by auto
  qed
qed

lemma accounts_wf_write:
  assumes "accounts_wf db" and "\<forall>e \<in> set es. e_account e \<in> a_id ` set (accounts db)"
  shows "accounts_wf (db\<lparr>ledger := ledger db @ es\<rparr>)"
  using assms by (auto simp: accounts_wf_def)

text \<open>A write of one entry per account of a chain changes the balances of the chain's accounts.\<close>

lemma balance_write:
  assumes "distinct (map a_id (accounts db))" and "set chain \<subseteq> set (accounts db)"
    and "distinct (map a_id chain)" and mk: "\<And>a. e_account (mk a) = a_id a" and "a \<in> set (accounts db)"
  shows "balance (db\<lparr>ledger := ledger db @ map mk chain\<rparr>) a d =
    (if a \<in> set chain then project_loop d (balance db a d) [e_fact (mk a)] else balance db a d)"
  using find_in_chain [OF assms(1,2,5)] filter_chain [OF assms(3) mk, of "a_id a"]
  by (simp add: balance_def rows_of_append project_loop_append)

lemma solvent_write:
  assumes "solvent db" and "set chain \<subseteq> set (accounts db)" and "distinct (map a_id chain)"
    and mk: "\<And>a. e_account (mk a) = a_id a"
    and "\<And>a d. a \<in> set chain \<Longrightarrow> 0 \<le> project_loop d (balance db a d) [e_fact (mk a)]"
  shows "solvent (db\<lparr>ledger := ledger db @ map mk chain\<rparr>)"
proof -
  let ?db = "db\<lparr>ledger := ledger db @ map mk chain\<rparr>"
  have wf: "accounts_wf db" and nn: "\<And>a d. a \<in> set (accounts db) \<Longrightarrow> 0 \<le> balance db a d"
    using assms(1) by (auto simp: solvent_def)
  have "accounts_wf ?db"
    using wf by (rule accounts_wf_write) (use assms(2) mk in auto)
  moreover have "distinct (map a_id (accounts db))" using wf by (simp add: accounts_wf_def)
  then have "0 \<le> balance ?db a d" if "a \<in> set (accounts db)" for a d
    using nn [OF that] assms(5) by (simp add: balance_write [OF _ assms(2,3) mk that])
  ultimately show ?thesis by (simp add: solvent_def)
qed

lemma reservations_set_status:
  "reservations (set_status db j st) =
     map (\<lambda>r. if r_id r = j then r\<lparr>r_status := st\<rparr> else r) (reservations db)"
  by (simp add: set_status_def)

lemma map_set_status [simp]:
  "map r_account (reservations (set_status db j st)) = map r_account (reservations db)"
  "map r_id (reservations (set_status db j st)) = map r_id (reservations db)"
  "map r_key (reservations (set_status db j st)) = map r_key (reservations db)"
  by (simp_all add: reservations_set_status)

lemma solvent_set_status [simp]: "solvent (set_status db j st) = solvent db"
  unfolding solvent_def accounts_wf_def balance_def by (simp only: map_set_status accounts_set_status rows_of_frame)

lemma projectAvailableLocked_Inr:
  "projectAvailableLocked db a d = Inr n \<Longrightarrow> n = balance db a d"
  by (auto simp: projectAvailableLocked_def loadFacts_def balance_def result_simps projectAll_lookup
      split: if_splits)

lemma check_available_Inr:
  "check_available db d n chain = Inr u \<Longrightarrow> a \<in> set chain \<Longrightarrow> n \<le> balance db a d"
  by (fastforce simp: check_available_def result_simps dest: projectAvailableLocked_Inr split: if_splits)

lemma insert_reservation_Inr:
  "insert_reservation db r = Inr db' \<Longrightarrow> db' = db\<lparr>reservations := reservations db @ [r]\<rparr> \<and>
     (\<forall>r' \<in> set (reservations db). r_key r' \<noteq> r_key r \<and> r_id r' \<noteq> r_id r) \<and>
     r_account r \<in> a_id ` set (accounts db)"
  by (auto simp: insert_reservation_def split: if_splits)

subsection \<open>Solvency\<close>

lemma reserve_args_Inr:
  "reserve_args inp = Inr x \<Longrightarrow> 0 < ra_amount x \<and> ra_amount x \<le> BUDGET_AMOUNT_MAX \<and>
     ri_dimension inp = dimension_str (ra_dimension x) \<and> ri_amount inp = jint (ra_amount x) \<and>
     ra_key x = ri_key inp \<and> length (ra_key x) \<le> idempotencyKeyMaxLength"
  by (auto simp: reserve_args_def result_simps boundedString_def split: if_splits)

text \<open>What a successful reservation transaction wrote.\<close>

definition reserved_db :: "ledger_db \<Rightarrow> string \<Rightarrow> string \<Rightarrow> reserve_args \<Rightarrow> account list \<Rightarrow> ledger_db" where
  "reserved_db db newId acc x chain =
     db\<lparr>reservations := reservations db @ [new_reservation newId acc x],
        ledger := ledger db @ map (chain_entry newId (ra_key x) (reserve_fact x) (ra_evidence x)) chain\<rparr>"

lemma reserve_tx_Inr:
  assumes "reserve_tx db newId acc x = Inr (db', r)"
  obtains chain where "lockChain db acc = Inr chain"
    and "check_available db (ra_dimension x) (ra_amount x) chain = Inr ()"
    and "r = new_reservation newId acc x" and "db' = reserved_db db newId acc x chain"
    and "\<forall>r' \<in> set (reservations db). r_key r' \<noteq> ra_key x \<and> r_id r' \<noteq> newId"
    and "acc \<in> a_id ` set (accounts db)"
proof -
  from assms obtain chain db1 where *: "lockChain db acc = Inr chain"
    "check_available db (ra_dimension x) (ra_amount x) chain = Inr ()"
    "insert_reservation db (new_reservation newId acc x) = Inr db1"
    "writeChainEntries db1 chain newId (ra_key x) (reserve_fact x) (ra_evidence x) = Inr db'"
    "r = new_reservation newId acc x"
    by (auto simp: reserve_tx_def result_simps)
  from insert_reservation_Inr [OF *(3)] writeChainEntries_Inr [OF *(4)]
  show ?thesis by (intro that [OF *(1,2,5)]) (auto simp: reserved_db_def new_reservation_def)
qed

lemma solvent_reserve_tx:
  assumes "solvent db" and "reserve_tx db newId acc x = Inr (db', r)"
  shows "solvent db'"
proof -
  let ?e = "chain_entry newId (ra_key x) (reserve_fact x) (ra_evidence x)"
  from assms(2) obtain chain where c: "lockChain db acc = Inr chain"
    and av: "check_available db (ra_dimension x) (ra_amount x) chain = Inr ()"
    and db': "db' = reserved_db db newId acc x chain" and acc: "acc \<in> a_id ` set (accounts db)"
    by (rule reserve_tx_Inr)
  have "solvent (db\<lparr>ledger := ledger db @ map ?e chain\<rparr>)"
  proof (rule solvent_write [OF assms(1) lockChain_Inr(1,2) [OF c]])
    fix a d assume a: "a \<in> set chain"
    with lockChain_Inr(1) [OF c] assms(1) have "0 \<le> balance db a d" by (auto simp: solvent_def)
    with check_available_Inr [OF av a] show "0 \<le> project_loop d (balance db a d) [e_fact (?e a)]"
      by (auto simp: chain_entry_def reserve_fact_def fact_effect.simps intro!: fadd_nonneg)
  qed (simp add: chain_entry_def)
  with acc show ?thesis
    by (simp add: db' reserved_db_def new_reservation_def solvent_def accounts_wf_def balance_def rows_of_def)
qed

lemma reserve_Inr:
  assumes "reserve owned db newId inp = Inr (db', r)"
  obtains x where "reserve_args inp = Inr x"
    and "reserve_tx db newId (ri_account inp) x = Inr (db', r) \<or>
      \<not> owned \<and> db' = db \<and>
      replayReservation db (ra_key x) (ri_account inp) (ra_dimension x) (ra_amount x) = Inr r"
proof -
  from assms obtain x where x: "reserve_args inp = Inr x" by (auto simp: reserve_def result_simps)
  show ?thesis
    by (rule that [OF x], cases "reserve_tx db newId (ri_account inp) x")
       (use assms x in \<open>auto simp: reserve_def result_simps split: if_splits\<close>)
qed

lemma solvent_reserve:
  assumes "solvent db" and "reserve owned db newId inp = Inr (db', r)"
  shows "solvent db'"
  using assms(2) by (rule reserve_Inr) (use assms(1) in \<open>auto intro: solvent_reserve_tx\<close>)

lemma settleReservation_Inr:
  assumes "settleReservation db i target allowed prepare = Inr (db', r')"
  obtains r db1 where "find_reservation db i = Some r" and "r_status r \<in> set allowed"
    and "prepare db r = Inr db1" and "db' = set_status db1 i target" and "r' = r\<lparr>r_status := target\<rparr>"
  using assms by (auto simp: settleReservation_def result_simps split: option.splits if_splits)

definition commit_fact_ok :: "reservation \<Rightarrow> budget_fact \<Rightarrow> bool" where
  "commit_fact_ok r f \<longleftrightarrow> f_operation f = Commit \<and> f_dimension f = r_dimension r \<and>
     0 < f_amount f \<and> f_amount f \<le> r_amount r"

lemma prepare_commit_Inr:
  assumes "prepare_commit inp db r = Inr db1"
  obtains f ev where "commit_fact_ok r f" and "si_amount inp = jint (f_amount f)"
    and "db1 = db\<lparr>ledger := ledger db @ [\<lparr>e_account = r_account r, e_reservation = Some (r_id r),
      e_fact = f, e_key = Some (r_key r @ '':commit''), e_evidence = ev\<rparr>]\<rparr>"
proof -
  from assms obtain n source confidence ev where *: "0 < n" "si_amount inp = jint n" "n \<le> r_amount r"
    "insert_entry db \<lparr>e_account = r_account r, e_reservation = Some (r_id r),
       e_fact = \<lparr>f_operation = Commit, f_dimension = r_dimension r, f_amount = n,
                 f_delta = None, f_source = source, f_confidence = confidence\<rparr>,
       e_key = Some (r_key r @ '':commit''), e_evidence = ev\<rparr> = Inr db1"
    by (auto simp: prepare_commit_def result_simps split: if_splits)
  from insert_entry_Inr [OF *(4)] *(1-3) show ?thesis
    by (intro that) (auto simp: commit_fact_ok_def)
qed

definition release_fact_ok :: "ledger_db \<Rightarrow> reservation \<Rightarrow> budget_fact \<Rightarrow> bool" where
  "release_fact_ok db r f \<longleftrightarrow> f_operation f = Release \<and> f_dimension f = r_dimension r \<and>
     0 < f_amount f \<and> f_amount f \<le> r_amount r - committedAmount db (r_id r)"

lemma prepare_release_Inr:
  assumes "prepare_release inp db r = Inr db1"
  obtains f ev chain where "lockChain db (r_account r) = Inr chain" and "release_fact_ok db r f"
    and "si_amount inp = jint (f_amount f)"
    and "db1 = db\<lparr>ledger := ledger db @
          map (chain_entry (r_id r) (r_key r @ '':release'') f ev) chain\<rparr>"
proof -
  from assms obtain n source confidence ev chain where *: "0 < n" "si_amount inp = jint n"
    "n \<le> r_amount r - committedAmount db (r_id r)" "lockChain db (r_account r) = Inr chain"
    "writeChainEntries db chain (r_id r) (r_key r @ '':release'')
       \<lparr>f_operation = Release, f_dimension = r_dimension r, f_amount = n,
        f_delta = None, f_source = source, f_confidence = confidence\<rparr> ev = Inr db1"
    by (auto simp: prepare_release_def result_simps split: if_splits)
  from writeChainEntries_Inr [OF *(5)] *(1-3) show ?thesis
    by (intro that [OF *(4)]) (auto simp: release_fact_ok_def)
qed

lemma find_reservation_Some:
  "find_reservation db i = Some r \<Longrightarrow> r \<in> set (reservations db) \<and> r_id r = i"
  by (auto simp: find_reservation_def find_Some_iff)

lemma solvent_commit:
  assumes "solvent db" and "commit db inp = Inr (db', r')"
  shows "solvent db'"
proof -
  from assms(2) obtain r db1 where r: "find_reservation db (si_reservation inp) = Some r"
    and p: "prepare_commit inp db r = Inr db1" and db': "db' = set_status db1 (si_reservation inp) COMMITTED"
    unfolding commit_def by (rule settleReservation_Inr)
  from p obtain f ev where f: "commit_fact_ok r f"
    and db1: "db1 = db\<lparr>ledger := ledger db @ [\<lparr>e_account = r_account r, e_reservation = Some (r_id r),
      e_fact = f, e_key = Some (r_key r @ '':commit''), e_evidence = ev\<rparr>]\<rparr>"
    by (rule prepare_commit_Inr)
  from find_reservation_Some [OF r] assms(1) obtain a where a: "a \<in> set (accounts db)" "a_id a = r_account r"
    by (auto simp: solvent_def accounts_wf_def)
  let ?mk = "\<lambda>a. \<lparr>e_account = a_id a, e_reservation = Some (r_id r), e_fact = f,
      e_key = Some (r_key r @ '':commit''), e_evidence = ev\<rparr>"
  have "solvent (db\<lparr>ledger := ledger db @ map ?mk [a]\<rparr>)"
    by (rule solvent_write [OF assms(1)])
       (use a f assms(1) in \<open>auto simp: commit_fact_ok_def solvent_def\<close>)
  with a show ?thesis by (simp add: db' db1)
qed

lemma solvent_release:
  assumes "solvent db" and "release db inp = Inr (db', r')"
  shows "solvent db'"
proof -
  from assms(2) obtain r db1 where r: "find_reservation db (si_reservation inp) = Some r"
    and p: "prepare_release inp db r = Inr db1" and db': "db' = set_status db1 (si_reservation inp) RELEASED"
    unfolding release_def by (rule settleReservation_Inr)
  from p obtain f ev chain where c: "lockChain db (r_account r) = Inr chain" and f: "release_fact_ok db r f"
    and db1: "db1 = db\<lparr>ledger := ledger db @ map (chain_entry (r_id r) (r_key r @ '':release'') f ev) chain\<rparr>"
    by (rule prepare_release_Inr)
  have "solvent db1" unfolding db1
  proof (rule solvent_write [OF assms(1) lockChain_Inr(1,2) [OF c]])
    fix a d assume "a \<in> set chain"
    with lockChain_Inr(1) [OF c] assms(1) have "0 \<le> balance db a d" by (auto simp: solvent_def)
    with f show "0 \<le> project_loop d (balance db a d)
        [e_fact (chain_entry (r_id r) (r_key r @ '':release'') f ev a)]"
      by (auto simp: chain_entry_def release_fact_ok_def fact_effect.simps intro!: fadd_nonneg)
  qed (simp add: chain_entry_def)
  then show ?thesis by (simp add: db')
qed

lemma check_adjust_Inr:
  "check_adjust db i d delta chain = Inr u \<Longrightarrow> a \<in> set chain \<Longrightarrow>
     0 \<le> fadd (balance db a d) (accountDelta i delta a)"
  by (fastforce simp: check_adjust_def result_simps dest: projectAvailableLocked_Inr split: if_splits)

lemma adjust_Inr:
  assumes "adjust db inp = Inr (db', e)"
  obtains d delta reason chain where "ad_dimension inp = dimension_str d" and "ad_delta inp = jint delta"
    and "lockChain db (ad_account inp) = Inr chain"
    and "check_adjust db (ad_account inp) d delta chain = Inr ()"
    and "db' = db\<lparr>ledger := ledger db @ map (adjust_entry (ad_account inp) d delta reason) chain\<rparr>"
    and "e = hd (map (adjust_entry (ad_account inp) d delta reason) chain)"
proof -
  from assms obtain d delta reason chain where *: "ad_dimension inp = dimension_str d" "ad_delta inp = jint delta"
    "lockChain db (ad_account inp) = Inr chain" "check_adjust db (ad_account inp) d delta chain = Inr ()"
    "foldE insert_entry db (map (adjust_entry (ad_account inp) d delta reason) chain) = Inr db'"
    "e = hd (map (adjust_entry (ad_account inp) d delta reason) chain)"
    by (auto simp: adjust_def Let_def result_simps boundedString_def simp del: map_map split: if_splits jsv.splits)
  from that [OF *(1-4) insert_entries_Inr [OF *(5)] *(6)] show ?thesis .
qed

lemma solvent_adjust:
  assumes "solvent db" and "adjust db inp = Inr (db', e)"
  shows "solvent db'"
proof -
  from assms(2) obtain d delta reason chain where c: "lockChain db (ad_account inp) = Inr chain"
    and nn: "check_adjust db (ad_account inp) d delta chain = Inr ()"
    and db': "db' = db\<lparr>ledger := ledger db @
        map (adjust_entry (ad_account inp) d delta reason) chain\<rparr>"
    by (rule adjust_Inr)
  show ?thesis unfolding db'
  proof (rule solvent_write [OF assms(1) lockChain_Inr(1,2) [OF c]])
    fix a x assume a: "a \<in> set chain"
    with lockChain_Inr(1) [OF c] assms(1) have "0 \<le> balance db a x" by (auto simp: solvent_def)
    with check_adjust_Inr [OF nn a] show "0 \<le> project_loop x (balance db a x)
        [e_fact (adjust_entry (ad_account inp) d delta reason a)]"
      by (auto simp: adjust_entry_def fact_effect.simps)
  qed (simp add: adjust_entry_def)
qed

text \<open>A new account starts with its ceilings and no entries.\<close>

lemma solvent_new_account:
  assumes "solvent db" and "valid_amounts (a_ceilings a)" and "a_id a \<notin> a_id ` set (accounts db)"
  shows "solvent (db\<lparr>accounts := accounts db @ [a]\<rparr>)"
proof -
  have "\<forall>e \<in> set (ledger db). e_account e \<in> a_id ` set (accounts db)"
    using assms(1) by (simp add: solvent_def accounts_wf_def)
  with assms(3) have "filter (\<lambda>e. e_account e = a_id a) (ledger db) = []"
    by (metis (mono_tags, lifting) filter_False)
  then have "rows_of db (a_id a) = []" by (simp add: rows_of_def)
  moreover have "0 \<le> amount_of (a_ceilings a) d" for d
    using assms(2) by (fastforce simp: amount_of_def valid_amounts_def split: option.splits
        dest: map_of_SomeD)
  ultimately show ?thesis
    using assms(1,3) by (auto simp: solvent_def accounts_wf_def balance_def)
qed

lemma createAccount_Inr:
  assumes "createAccount db i inp = Inr (db', a)"
  shows "db' = db\<lparr>accounts := accounts db @ [a]\<rparr>" and "a_id a = i" and "a_parent a = ai_parent inp"
    and "i \<notin> a_id ` set (accounts db)" and "valid_amounts (a_ceilings a)"
  using assms
  by (auto simp: createAccount_def Let_def result_simps boundedString_def split: if_splits
      dest: validateCeilings_Inr(2))

lemma solvent_createAccount:
  "solvent db \<Longrightarrow> createAccount db i inp = Inr (db', a) \<Longrightarrow> solvent db'"
  using createAccount_Inr [of db i inp db' a] by (auto intro!: solvent_new_account)

lemma solvent_step: "solvent db \<Longrightarrow> ledger_step db oper = Inr db' \<Longrightarrow> solvent db'"
  by (cases oper) (auto simp: bindE_Inr_iff intro: solvent_createAccount solvent_reserve solvent_commit
      solvent_release solvent_adjust)

interpretation solvency: tx_machine ledger_step solvent
  by unfold_locales (rule solvent_step)

subsection \<open>Settlement\<close>

text \<open>What the entries of an operation on a reservation add up to.\<close>

definition entry_sum :: "ledger_operation \<Rightarrow> string \<Rightarrow> entry list \<Rightarrow> int" where
  "entry_sum oper i es = sum_list (map (\<lambda>e. f_amount (e_fact e))
     (filter (\<lambda>e. e_reservation e = Some i \<and> f_operation (e_fact e) = oper) es))"

definition released :: "ledger_db \<Rightarrow> string \<Rightarrow> string \<Rightarrow> int" where
  "released db acc i = entry_sum Release i (filter (\<lambda>e. e_account e = acc) (ledger db))"

lemma committedAmount_sum: "committedAmount db i = entry_sum Commit i (ledger db)"
  by (simp add: committedAmount_def entry_sum_def)

lemma entry_sum_append [simp]:
  "entry_sum oper i (es @ es') = entry_sum oper i es + entry_sum oper i es'"
  by (simp add: entry_sum_def)

lemma entry_sum_none:
  "(\<And>e. e \<in> set es \<Longrightarrow> e_reservation e = Some i \<Longrightarrow> f_operation (e_fact e) \<noteq> oper) \<Longrightarrow>
     entry_sum oper i es = 0"
  by (auto simp: entry_sum_def filter_empty_conv intro!: arg_cong [where f = sum_list and y = "[]", simplified])

definition settled_one :: "ledger_db \<Rightarrow> reservation \<Rightarrow> bool" where
  "settled_one db r \<longleftrightarrow>
     0 \<le> committedAmount db (r_id r) \<and>
     (r_status r = ACTIVE \<longrightarrow> committedAmount db (r_id r) = 0) \<and>
     (\<forall>acc. 0 \<le> released db acc (r_id r) \<and>
       (r_status r \<noteq> RELEASED \<longrightarrow> released db acc (r_id r) = 0) \<and>
       committedAmount db (r_id r) + released db acc (r_id r) \<le> r_amount r)"

definition settled_ok :: "ledger_db \<Rightarrow> bool" where
  "settled_ok db \<longleftrightarrow> distinct (map r_id (reservations db)) \<and> distinct (map r_key (reservations db)) \<and>
     (\<forall>e \<in> set (ledger db). \<forall>i. e_reservation e = Some i \<longrightarrow> i \<in> r_id ` set (reservations db)) \<and>
     (\<forall>r \<in> set (reservations db). settled_one db r)"

lemma settled_one_frame:
  assumes "\<And>e. e \<in> set es \<Longrightarrow> e_reservation e \<noteq> Some (r_id r)" and "ledger db' = ledger db @ es"
  shows "settled_one db' r = settled_one db r"
proof -
  have "committedAmount db' (r_id r) = committedAmount db (r_id r)"
    using assms(1) entry_sum_none [of es "r_id r" Commit] by (simp add: committedAmount_sum assms(2))
  moreover have "released db' acc (r_id r) = released db acc (r_id r)" for acc
    using assms(1) entry_sum_none [of "filter (\<lambda>e. e_account e = acc) es" "r_id r" Release]
    by (simp add: released_def assms(2))
  ultimately show ?thesis by (simp add: settled_one_def)
qed

lemma settled_reserved_db:
  assumes "settled_ok db" and "\<forall>r' \<in> set (reservations db). r_key r' \<noteq> ra_key x \<and> r_id r' \<noteq> newId"
    and "0 < ra_amount x"
  shows "settled_ok (reserved_db db newId acc x chain)"
proof -
  let ?db = "reserved_db db newId acc x chain"
  let ?es = "map (chain_entry newId (ra_key x) (reserve_fact x) (ra_evidence x)) chain"
  let ?r = "new_reservation newId acc x"
  have led: "ledger ?db = ledger db @ ?es" and res: "reservations ?db = reservations db @ [?r]"
    by (simp_all add: reserved_db_def)
  have old: "settled_one ?db r" if "r \<in> set (reservations db)" for r
  proof -
    have "settled_one ?db r = settled_one db r"
      by (rule settled_one_frame [OF _ led]) (use that assms(2) in \<open>auto simp: chain_entry_def\<close>)
    with that assms(1) show ?thesis by (simp add: settled_ok_def)
  qed
  have "e_reservation e \<noteq> Some newId" if "e \<in> set (ledger db)" for e
    using that assms(1,2) unfolding settled_ok_def by (metis (no_types, lifting) imageE)
  moreover have "f_operation (e_fact e) = Reserve" if "e \<in> set ?es" for e
    using that by (auto simp: chain_entry_def reserve_fact_def)
  ultimately have "entry_sum oper newId (filter P (ledger ?db)) = 0" if "oper \<noteq> Reserve" for oper P
    using that unfolding led by (intro entry_sum_none) auto
  from this [of Commit "\<lambda>_. True"] this [of Release] have "settled_one ?db ?r"
    using assms(3) by (simp add: settled_one_def committedAmount_sum released_def new_reservation_def)
  with old show ?thesis
    using assms(1,2) unfolding settled_ok_def res led
    by (force simp: new_reservation_def chain_entry_def)
qed

lemma settled_reserve:
  assumes "settled_ok db" and "reserve owned db newId inp = Inr (db', r)"
  shows "settled_ok db'"
  using assms(2)
proof (rule reserve_Inr)
  fix x assume x: "reserve_args inp = Inr x"
    and "reserve_tx db newId (ri_account inp) x = Inr (db', r) \<or> \<not> owned \<and> db' = db \<and>
      replayReservation db (ra_key x) (ri_account inp) (ra_dimension x) (ra_amount x) = Inr r"
  then consider "reserve_tx db newId (ri_account inp) x = Inr (db', r)" | "db' = db" by auto
  then show ?thesis
  proof cases
    case 1
    then show ?thesis
      by (rule reserve_tx_Inr) (use assms(1) reserve_args_Inr [OF x] in \<open>auto intro: settled_reserved_db\<close>)
  qed (simp add: assms(1))
qed

text \<open>A settlement changes one reservation and the entries that refer to it.\<close>

lemma settled_settle:
  assumes ok: "settled_ok db" and r: "find_reservation db i = Some r"
    and es: "\<And>e. e \<in> set es \<Longrightarrow> e_reservation e = Some i"
    and "settled_one (db\<lparr>ledger := ledger db @ es\<rparr>) (r\<lparr>r_status := st\<rparr>)"
  shows "settled_ok (set_status (db\<lparr>ledger := ledger db @ es\<rparr>) i st)"
proof -
  let ?db1 = "db\<lparr>ledger := ledger db @ es\<rparr>" and ?db2 = "set_status (db\<lparr>ledger := ledger db @ es\<rparr>) i st"
  from find_reservation_Some [OF r] have rin: "r \<in> set (reservations db)" "r_id r = i" by auto
  have same: "settled_one ?db2 r' = settled_one ?db1 r'" for r'
    by (rule settled_one_frame [where es = "[]"]) simp_all
  have "settled_one ?db2 r'" if "r' \<in> set (reservations ?db2)" for r'
  proof -
    from that obtain r0 where r0: "r0 \<in> set (reservations db)"
      and r': "r' = (if r_id r0 = i then r0\<lparr>r_status := st\<rparr> else r0)"
      by (auto simp: reservations_set_status)
    show ?thesis
    proof (cases "r_id r0 = i")
      case True
      with r0 rin ok have "r0 = r" by (auto simp: settled_ok_def distinct_map dest: inj_onD)
      with True r' assms(4) same show ?thesis by simp
    next
      case False
      have "settled_one ?db1 r0 = settled_one db r0"
        by (rule settled_one_frame) (use es False in auto)
      with ok r0 r' False same show ?thesis by (simp add: settled_ok_def)
    qed
  qed
  moreover have ids: "map r_id (reservations ?db2) = map r_id (reservations db)"
    and keys: "map r_key (reservations ?db2) = map r_key (reservations db)" by simp_all
  moreover have "r_id ` set (reservations ?db2) = r_id ` set (reservations db)"
    using ids by (metis list.set_map)
  moreover have "\<exists>x \<in> set (reservations db). r_id x = i" using rin by blast
  moreover have "ledger ?db2 = ledger db @ es" by simp
  ultimately show ?thesis
    using ok es unfolding settled_ok_def by (simp only: set_append) force
qed

lemma settled_commit:
  assumes "settled_ok db" and "commit db inp = Inr (db', r')"
  shows "settled_ok db'"
proof -
  from assms(2) obtain r db1 where r: "find_reservation db (si_reservation inp) = Some r"
    and act: "r_status r \<in> set [ACTIVE]" and p: "prepare_commit inp db r = Inr db1"
    and db': "db' = set_status db1 (si_reservation inp) COMMITTED"
    unfolding commit_def by (rule settleReservation_Inr)
  from p obtain f ev where f: "commit_fact_ok r f"
    and db1: "db1 = db\<lparr>ledger := ledger db @ [\<lparr>e_account = r_account r, e_reservation = Some (r_id r),
      e_fact = f, e_key = Some (r_key r @ '':commit''), e_evidence = ev\<rparr>]\<rparr>"
    by (rule prepare_commit_Inr)
  from find_reservation_Some [OF r] assms(1) have "r_id r = si_reservation inp" "settled_one db r"
    by (auto simp: settled_ok_def)
  with act f show ?thesis unfolding db' db1
    by (intro settled_settle [OF assms(1) r])
       (auto simp: settled_one_def committedAmount_sum released_def commit_fact_ok_def entry_sum_def)
qed

lemma settled_release:
  assumes "settled_ok db" and "release db inp = Inr (db', r')"
  shows "settled_ok db'"
proof -
  from assms(2) obtain r db1 where r: "find_reservation db (si_reservation inp) = Some r"
    and act: "r_status r \<in> set [ACTIVE, COMMITTED]" and p: "prepare_release inp db r = Inr db1"
    and db': "db' = set_status db1 (si_reservation inp) RELEASED"
    unfolding release_def by (rule settleReservation_Inr)
  from p obtain f ev chain where c: "lockChain db (r_account r) = Inr chain" and f: "release_fact_ok db r f"
    and db1: "db1 = db\<lparr>ledger := ledger db @ map (chain_entry (r_id r) (r_key r @ '':release'') f ev) chain\<rparr>"
    by (rule prepare_release_Inr)
  let ?mk = "chain_entry (r_id r) (r_key r @ '':release'') f ev"
  from find_reservation_Some [OF r] assms(1) have i: "r_id r = si_reservation inp" and one: "settled_one db r"
    by (auto simp: settled_ok_def)
  have "entry_sum Commit (r_id r) (map ?mk chain) = 0"
    by (rule entry_sum_none) (use f in \<open>auto simp: chain_entry_def release_fact_ok_def\<close>)
  moreover have "entry_sum Release (r_id r) (filter (\<lambda>e. e_account e = acc) (map ?mk chain)) =
      (if acc \<in> a_id ` set chain then f_amount f else 0)" for acc
    using f by (subst filter_chain [OF lockChain_Inr(2) [OF c]])
      (auto simp: chain_entry_def release_fact_ok_def entry_sum_def find_None_iff find_Some_iff
        split: option.splits)
  ultimately have "settled_one db1 (r\<lparr>r_status := RELEASED\<rparr>)"
    using one act f
    by (auto simp: db1 settled_one_def committedAmount_sum released_def release_fact_ok_def)
  then show ?thesis unfolding db' db1
    by (intro settled_settle [OF assms(1) r]) (auto simp: chain_entry_def i)
qed

lemma settled_adjust:
  assumes "settled_ok db" and "adjust db inp = Inr (db', e)"
  shows "settled_ok db'"
proof -
  from assms(2) obtain d delta reason chain where db': "db' = db\<lparr>ledger := ledger db @
        map (adjust_entry (ad_account inp) d delta reason) chain\<rparr>"
    by (rule adjust_Inr)
  have "settled_one db' r = settled_one db r" for r
    unfolding db' by (rule settled_one_frame) (auto simp: adjust_entry_def)
  with assms(1) show ?thesis by (auto simp: settled_ok_def db' adjust_entry_def)
qed

lemma settled_createAccount:
  assumes "settled_ok db" and "createAccount db i inp = Inr (db', a)"
  shows "settled_ok db'"
proof -
  have "settled_one db' r = settled_one db r" for r
    by (rule settled_one_frame [where es = "[]"]) (simp_all add: createAccount_Inr(1) [OF assms(2)])
  with assms(1) show ?thesis by (simp add: settled_ok_def createAccount_Inr(1) [OF assms(2)])
qed

lemma settled_step: "settled_ok db \<Longrightarrow> ledger_step db oper = Inr db' \<Longrightarrow> settled_ok db'"
  by (cases oper) (auto simp: bindE_Inr_iff intro: settled_createAccount settled_reserve settled_commit
      settled_release settled_adjust)

interpretation settlement: tx_machine ledger_step settled_ok
  by unfold_locales (rule settled_step)

lemma solvent_empty: "solvent empty_ledger"
  by (simp add: solvent_def accounts_wf_def empty_ledger_def)

lemma settled_empty: "settled_ok empty_ledger"
  by (simp add: settled_ok_def empty_ledger_def)

end
