(* ===== verification/Ledger_Properties.thy ===== *)
theory Ledger_Properties
  imports Ledger_Invariants
begin

text \<open>
  The properties of the budget ledger (theory Ledger): what holds of every run of transactions,
  and what each operation does to the balances of the accounts.
\<close>

subsection \<open>Runs\<close>

text \<open>C17: no account is ever overdrawn. Whatever sequence of transactions runs on an empty ledger
  (failing ones are rolled back), in every account and dimension the projected availability, as the
  program computes it in doubles, stays at least 0.\<close>

theorem ledger_never_overdrawn: "solvent (run_tx ledger_step empty_ledger ops)"
  by (rule solvency.run_inv [OF solvent_empty])

text \<open>C18: no reservation is settled beyond its amount. After any sequence of transactions
  reservation ids and idempotency keys are unique, every entry refers to an existing reservation, and
  of every reservation what is committed plus what is released to any one account is at most what was
  reserved; an active reservation has neither, a committed one has no release.\<close>

theorem ledger_never_oversettled: "settled_ok (run_tx ledger_step empty_ledger ops)"
  by (rule settlement.run_inv [OF settled_empty])

definition extends :: "ledger_db \<Rightarrow> ledger_db \<Rightarrow> bool" where
  "extends db0 db \<longleftrightarrow> (\<exists>es. ledger db = ledger db0 @ es) \<and> (\<exists>as. accounts db = accounts db0 @ as)"

lemma extends_refl [simp]: "extends db db"
  by (simp add: extends_def)

lemma extends_trans: "extends a b \<Longrightarrow> extends b c \<Longrightarrow> extends a c"
  by (auto simp: extends_def)

lemma extends_write: "extends db (db\<lparr>ledger := ledger db @ es\<rparr>)"
  by (simp add: extends_def)

lemma extends_set_status [simp]: "extends a (set_status b i st) = extends a b"
  by (simp add: extends_def)

lemma extends_step:
  assumes "ledger_step db oper = Inr db'"
  shows "extends db db'"
proof (cases oper)
  case (CreateAccount i inp)
  with assms show ?thesis
    using createAccount_Inr(1) by (fastforce simp: bindE_Inr_iff extends_def)
next
  case (ReserveBudget owned i inp)
  with assms obtain r where r: "reserve owned db i inp = Inr (db', r)" by (auto simp: bindE_Inr_iff)
  show ?thesis
    using r by (rule reserve_Inr) (auto simp: extends_def reserved_db_def elim!: reserve_tx_Inr)
next
  case (CommitUsage inp)
  with assms obtain r where "commit db inp = Inr (db', r)" by (auto simp: bindE_Inr_iff)
  then show ?thesis unfolding commit_def
    by (auto elim!: settleReservation_Inr prepare_commit_Inr simp: extends_write)
next
  case (ReleaseUnused inp)
  with assms obtain r where "release db inp = Inr (db', r)" by (auto simp: bindE_Inr_iff)
  then show ?thesis unfolding release_def
    by (auto elim!: settleReservation_Inr prepare_release_Inr simp: extends_write)
next
  case (AdjustCeiling inp)
  with assms obtain e where "adjust db inp = Inr (db', e)" by (auto simp: bindE_Inr_iff)
  then show ?thesis by (auto elim!: adjust_Inr simp: extends_write)
qed

interpretation append_only: tx_machine ledger_step "extends db0" for db0
  by unfold_locales (blast intro: extends_trans extends_step)

text \<open>The ledger is append-only. Any sequence of transactions, from any tables, only appends
  entries and accounts: those already there keep their place and their content.\<close>

theorem ledger_append_only: "extends db (run_tx ledger_step db ops)"
  by (rule append_only.run_inv [OF extends_refl])

subsection \<open>The locked chain\<close>

definition parents_in :: "account list \<Rightarrow> string set \<Rightarrow> bool" where
  "parents_in chain ids \<longleftrightarrow> (\<forall>a \<in> set chain. \<forall>p. a_parent a = Some p \<longrightarrow> p = [] \<or> p \<in> ids)"

lemma walk_chain_parents:
  assumes "walk_chain db seen chain i = Inr res" and "parents_in chain (insert i (a_id ` set chain))"
    and "length chain \<le> accountChainMaxDepth"
  shows "parents_in res (a_id ` set res) \<and> length res \<le> accountChainMaxDepth"
  using assms
proof (induction db seen chain i rule: walk_chain.induct)
  case (1 db seen chain i)
  show ?case
  proof (cases "i = []")
    case True
    with "1.prems" show ?thesis by (simp add: walk_chain.simps parents_in_def)
  next
    case False
    with "1.prems"(1) obtain a where a: "i \<notin> set seen" "find_account db i = Some a"
      "length (chain @ [a]) \<le> accountChainMaxDepth"
      and rec: "walk_chain db (i # seen) (chain @ [a]) (case a_parent a of None \<Rightarrow> [] | Some p \<Rightarrow> p) = Inr res"
      by (auto simp: walk_chain.simps [of db seen chain i] split: if_splits option.splits)
    from find_account_Some [OF a(2)] have "a_id a = i" by simp
    with "1.IH" [OF False a(1,2) _ rec] a(3) "1.prems"(2) show ?thesis
      by (auto simp: parents_in_def split: option.splits)
  qed
qed

lemma sorted_insert_less:
  assumes "sorted (map (f :: 'a \<Rightarrow> string) xs)"
  shows "sorted (map f (insert_by (\<lambda>l r. f l < f r) x xs))"
  using assms by (induction xs) (auto simp: le_less_linear)

lemma sorted_sort_less: "sorted (map (f :: 'a \<Rightarrow> string) (sort_by (\<lambda>l r. f l < f r) xs))"
  by (induction xs) (auto intro: sorted_insert_less)

text \<open>The chain that a reservation, release or adjustment locks is the account with all its
  ancestors: existing accounts, each once, in the order of their ids, at most 16, the account among
  them, and with an account its parent.\<close>

theorem lockChain_chain:
  assumes "lockChain db i = Inr chain" and "i \<noteq> []"
  shows "set chain \<subseteq> set (accounts db) \<and> distinct (map a_id chain) \<and> sorted (map a_id chain) \<and>
    length chain \<le> accountChainMaxDepth \<and> i \<in> a_id ` set chain \<and> parents_in chain (a_id ` set chain)"
proof -
  from assms obtain w where w: "walk_chain db [] [] i = Inr w"
    and c: "chain = sort_by (\<lambda>l r. a_id l < a_id r) w"
    by (auto simp: lockChain_def bindE_Inr_iff)
  from walk_chain_parents [OF w] have "parents_in chain (a_id ` set chain)" "length chain \<le> accountChainMaxDepth"
    by (simp_all add: c parents_in_def)
  with lockChain_Inr [OF assms(1)] assms(2) show ?thesis
    by (auto simp: c sorted_sort_less)
qed

definition ex_accounts :: "account list" where
  "ex_accounts =
     [\<lparr>a_id = ''b'', a_scopeType = ''org'', a_scopeId = ''o'', a_parent = None,
       a_ceilings = [(Tokens, 20)], a_soft = None\<rparr>,
      \<lparr>a_id = ''a'', a_scopeType = ''execution'', a_scopeId = ''x'', a_parent = Some ''b'',
       a_ceilings = [(Tokens, 12)], a_soft = None\<rparr>]"

definition ex_db :: ledger_db where
  "ex_db = \<lparr>accounts = ex_accounts, reservations = [], ledger = []\<rparr>"

lemma ex_lockChain: "lockChain ex_db ''a'' = Inr (rev ex_accounts)"
  by (simp add: lockChain_def walk_chain.simps ex_db_def ex_accounts_def find_account_def
      accountChainMaxDepth_def)

theorem lockChain_chain_witness: "sorted (map a_id (rev ex_accounts))"
  using lockChain_chain [OF ex_lockChain] by simp

subsection \<open>Reservations\<close>

lemma balance_reserved_db:
  assumes "distinct (map a_id (accounts db))" and "lockChain db acc = Inr chain" and "a \<in> set (accounts db)"
  shows "balance (reserved_db db newId acc x chain) a d =
    (if a \<in> set chain \<and> d = ra_dimension x then fadd (balance db a d) (- ra_amount x) else balance db a d)"
  using balance_write [OF assms(1) lockChain_Inr(1,2) [OF assms(2)] _ assms(3),
      of "chain_entry newId (ra_key x) (reserve_fact x) (ra_evidence x)" d]
  by (auto simp: reserved_db_def balance_def rows_of_def chain_entry_def reserve_fact_def fact_effect.simps)

text \<open>C19: a reservation that succeeds was affordable in every account from its own to the root, and
  debits each of them by its amount in its dimension; no other account or dimension changes.\<close>

theorem reserve_debits_chain:
  assumes "accounts_wf db" and "reserve owned db newId inp = Inr (db', r)"
    and "newId \<notin> r_id ` set (reservations db)" and "r_id r = newId"
    and "lockChain db (ri_account inp) = Inr chain" and "a \<in> set (accounts db)"
  shows "(a \<in> set chain \<longrightarrow> r_amount r \<le> balance db a (r_dimension r)) \<and>
    balance db' a d = (if a \<in> set chain \<and> d = r_dimension r
      then fadd (balance db a d) (- r_amount r) else balance db a d)"
  using assms(2)
proof (rule reserve_Inr)
  fix x assume x: "reserve_args inp = Inr x"
    and "reserve_tx db newId (ri_account inp) x = Inr (db', r) \<or> \<not> owned \<and> db' = db \<and>
      replayReservation db (ra_key x) (ri_account inp) (ra_dimension x) (ra_amount x) = Inr r"
  then consider (new) "reserve_tx db newId (ri_account inp) x = Inr (db', r)"
    | (old) "replayReservation db (ra_key x) (ri_account inp) (ra_dimension x) (ra_amount x) = Inr r" by auto
  then show ?thesis
  proof cases
    case new
    then show ?thesis
    proof (rule reserve_tx_Inr)
      fix c assume c: "lockChain db (ri_account inp) = Inr c"
        and av: "check_available db (ra_dimension x) (ra_amount x) c = Inr ()"
        and r: "r = new_reservation newId (ri_account inp) x"
        and db': "db' = reserved_db db newId (ri_account inp) x c"
      have "distinct (map a_id (accounts db))" using assms(1) by (simp add: accounts_wf_def)
      from balance_reserved_db [OF this c assms(6)] check_available_Inr [OF av, of a] c assms(5)
      show ?thesis by (simp add: r db' new_reservation_def)
    qed
  next
    case old
    then have "r \<in> set (reservations db)"
      by (auto simp: replayReservation_def assertReplayMatches_def find_Some_iff
          split: option.splits if_splits)
    with assms(3,4) show ?thesis by blast
  qed
qed

definition ex_reserve :: reserve_input where
  "ex_reserve = \<lparr>ri_account = ''a'', ri_dimension = ''tokens'', ri_amount = jint 6, ri_key = ''k'',
     ri_action = None, ri_source = JUndef, ri_confidence = JUndef, ri_evidence = JUndef\<rparr>"

definition ex_reserved :: reservation where
  "ex_reserved = \<lparr>r_id = ''r1'', r_account = ''a'', r_key = ''k'', r_dimension = Tokens, r_amount = 6,
     r_status = ACTIVE, r_action = None\<rparr>"

definition ex_args :: reserve_args where
  "ex_args = \<lparr>ra_dimension = Tokens, ra_amount = 6, ra_key = ''k'', ra_action = None,
     ra_source = Unknown, ra_confidence = None, ra_evidence = None\<rparr>"

definition ex_db1 :: ledger_db where
  "ex_db1 = reserved_db ex_db ''r1'' ''a'' ex_args (rev ex_accounts)"

lemma ex_reserve_args: "reserve_args ex_reserve = Inr ex_args"
  by (simp add: reserve_args_def ex_reserve_def ex_args_def validateDimension_def BUDGET_DIMENSION_IDS_def
      validateAmount_def boundedString_def optionalBoundedString_def trim_def is_ws_def
      idempotencyKeyMaxLength_def validateSource_def validateConfidence_def validateEvidence_def
      BUDGET_AMOUNT_MAX_def MAX_SAFE_INTEGER_def)

lemmas ex_simps = ex_db_def ex_accounts_def ex_db1_def ex_args_def ex_reserved_def reserved_db_def
  new_reservation_def chain_entry_def reserve_fact_def find_account_def find_reservation_def
  loadFacts_def rows_of_def projectionPageSize_def projectAll_def projectAvailable_def amount_of_def
  uniq_def fact_effect.simps

lemma ex_reserve_run: "reserve owned ex_db ''r1'' ex_reserve = Inr (ex_db1, ex_reserved)"
proof -
  have "check_available ex_db Tokens 6 (rev ex_accounts) = Inr ()"
    by (simp add: check_available_def projectAvailableLocked_def ex_simps)
  moreover have "ri_account ex_reserve = ''a''" by (simp add: ex_reserve_def)
  ultimately show ?thesis
    using ex_lockChain
    by (simp add: reserve_def ex_reserve_args reserve_tx_def ex_args_def)
      (simp add: insert_reservation_def writeChainEntries_def insert_entry_def entry_key_free_def
        entry_references_def ex_simps)
qed

lemma ex_accounts_wf: "accounts_wf ex_db"
  by (simp add: accounts_wf_def ex_db_def ex_accounts_def)

lemma fadd_small: "\<bar>a + b\<bar> \<le> 1000 \<Longrightarrow> fadd a b = a + b"
  by (rule fadd_exact) (simp add: MAX_SAFE_INTEGER_def)

theorem reserve_debits_chain_witness:
  "balance ex_db1 (ex_accounts ! 0) Tokens = 14 \<and> balance ex_db1 (ex_accounts ! 1) Tokens = 6"
proof -
  have c: "lockChain ex_db (ri_account ex_reserve) = Inr (rev ex_accounts)"
    using ex_lockChain by (simp add: ex_reserve_def)
  have "balance ex_db1 a Tokens = fadd (balance ex_db a Tokens) (- 6)" if "a \<in> set ex_accounts" for a
    using reserve_debits_chain [OF ex_accounts_wf ex_reserve_run [of False] _ _ c, of a Tokens] that
    by (simp add: ex_db_def ex_reserved_def)
  from this [of "ex_accounts ! 0"] this [of "ex_accounts ! 1"] show ?thesis
    by (simp add: ex_accounts_def balance_def ex_db_def rows_of_def amount_of_def fadd_small)
qed

text \<open>C20: a standalone reservation that is sent again never reserves twice: when the repeated call
  returns, it returns the reservation of the first call and writes nothing.\<close>

theorem reserve_retry:
  assumes "reserve False db newId inp = Inr (db1, r1)"
    and "reserve False db1 newId' inp = Inr (db2, r2)"
  shows "r2 = r1 \<and> db2 = db1"
proof -
  from assms(1) obtain x where x: "reserve_args inp = Inr x"
    and first: "reserve_tx db newId (ri_account inp) x = Inr (db1, r1) \<or> db1 = db \<and>
      replayReservation db (ra_key x) (ri_account inp) (ra_dimension x) (ra_amount x) = Inr r1"
    by (rule reserve_Inr) auto
  have found: "find (\<lambda>r. r_key r = ra_key x) (reservations db1) = Some r1"
  proof (cases "reserve_tx db newId (ri_account inp) x = Inr (db1, r1)")
    case True
    then show ?thesis
    proof (rule reserve_tx_Inr)
      fix c assume "r1 = new_reservation newId (ri_account inp) x"
        "db1 = reserved_db db newId (ri_account inp) x c"
        "\<forall>r' \<in> set (reservations db). r_key r' \<noteq> ra_key x \<and> r_id r' \<noteq> newId"
      moreover have "find P (rs @ [y]) = Some y" if "\<forall>z \<in> set rs. \<not> P z" "P y"
        for P rs and y :: reservation
        using that by (induction rs) auto
      ultimately show ?thesis by (simp add: reserved_db_def new_reservation_def)
    qed
  next
    case False
    with first show ?thesis
      by (auto simp: replayReservation_def assertReplayMatches_def split: option.splits if_splits)
  qed
  then have "\<exists>r' \<in> set (reservations db1). r_key r' = ra_key x" by (auto simp: find_Some_iff)
  then have "reserve_tx db1 newId' (ri_account inp) x \<noteq> Inr res" for res
    by (cases res) (auto elim!: reserve_tx_Inr)
  with assms(2) x have "db2 = db1"
    "replayReservation db1 (ra_key x) (ri_account inp) (ra_dimension x) (ra_amount x) = Inr r2"
    by (auto simp: reserve_def result_simps split: sum.splits if_splits)
  with found show ?thesis
    by (auto simp: replayReservation_def assertReplayMatches_def split: if_splits)
qed

lemma ex_lockChain1: "lockChain ex_db1 ''a'' = Inr (rev ex_accounts)"
  by (simp add: lockChain_def walk_chain.simps ex_simps accountChainMaxDepth_def)

lemma ex_retry: "reserve False ex_db1 ''r2'' ex_reserve = Inr (ex_db1, ex_reserved)"
proof -
  have "check_available ex_db1 Tokens 6 (rev ex_accounts) = Inr ()"
    by (simp add: check_available_def projectAvailableLocked_def ex_simps fadd_small)
  moreover have "ri_account ex_reserve = ''a''" by (simp add: ex_reserve_def)
  ultimately show ?thesis
    using ex_lockChain1
    by (simp add: reserve_def ex_reserve_args reserve_tx_def ex_args_def)
      (simp add: insert_reservation_def replayReservation_def assertReplayMatches_def ex_simps)
qed

theorem reserve_retry_witness:
  "fst (case reserve False ex_db1 ''r2'' ex_reserve of Inr res \<Rightarrow> res | Inl _ \<Rightarrow> (ex_db, ex_reserved)) = ex_db1"
  using reserve_retry [OF ex_reserve_run ex_retry] by (simp add: ex_retry)

definition ex_big :: reserve_input where
  "ex_big = ex_reserve\<lparr>ri_amount := jint 8\<rparr>"

text \<open>The availability check comes before the key is looked up, so the repetition of a
  reservation that already holds its budget can be refused: the same standalone request, with the
  same key and amount, first succeeds, and then fails with \<open>INSUFFICIENT_BUDGET\<close> because its own
  reservation has used the budget up.\<close>

theorem reserve_retry_refused:
  "\<exists>db1 r. reserve False ex_db ''r1'' ex_big = Inr (db1, r) \<and>
     reserve False db1 ''r2'' ex_big = Inl (Budget INSUFFICIENT_BUDGET)"
proof -
  let ?x = "ex_args\<lparr>ra_amount := 8\<rparr>" and ?db1 = "reserved_db ex_db ''r1'' ''a'' (ex_args\<lparr>ra_amount := 8\<rparr>) (rev ex_accounts)"
  have args: "reserve_args ex_big = Inr ?x"
    using ex_reserve_args
    by (simp add: reserve_args_def ex_reserve_def ex_big_def ex_args_def result_simps validateAmount_def
        validateDimension_def BUDGET_DIMENSION_IDS_def BUDGET_AMOUNT_MAX_def MAX_SAFE_INTEGER_def)
  have acc: "ri_account ex_big = ''a''" by (simp add: ex_big_def ex_reserve_def)
  have "check_available ex_db Tokens 8 (rev ex_accounts) = Inr ()"
    by (simp add: check_available_def projectAvailableLocked_def ex_simps)
  then have "reserve False ex_db ''r1'' ex_big = Inr (?db1, new_reservation ''r1'' ''a'' ?x)"
    using ex_lockChain acc
    by (simp add: reserve_def args reserve_tx_def ex_args_def)
      (simp add: insert_reservation_def writeChainEntries_def insert_entry_def entry_key_free_def
        entry_references_def ex_simps)
  moreover have chain: "lockChain ?db1 ''a'' = Inr (rev ex_accounts)"
    by (simp add: lockChain_def walk_chain.simps ex_simps accountChainMaxDepth_def)
  have "check_available ?db1 Tokens 8 (rev ex_accounts) = Inl (Budget INSUFFICIENT_BUDGET)"
    by (simp add: check_available_def projectAvailableLocked_def ex_simps fadd_small)
  then have "reserve False ?db1 ''r2'' ex_big = Inl (Budget INSUFFICIENT_BUDGET)"
    using acc chain by (simp add: reserve_def args reserve_tx_def ex_args_def)
  ultimately show ?thesis by blast
qed

subsection \<open>Settlements and adjustments\<close>

lemma balance_set_status [simp]: "balance (set_status db i st) a d = balance db a d"
  by (simp add: balance_def)

text \<open>Committing usage takes an active reservation to COMMITTED, for at most the reserved
  amount, once: it adds exactly that amount to what the reservation has committed, and changes the
  availability of no account.\<close>

theorem commit_effect:
  assumes "settled_ok db" and "commit db inp = Inr (db', r')"
  shows "(\<exists>r. find_reservation db (si_reservation inp) = Some r \<and> r_status r = ACTIVE \<and>
      r' = r\<lparr>r_status := COMMITTED\<rparr>) \<and>
    si_amount inp = jint (committedAmount db' (si_reservation inp)) \<and>
    0 < committedAmount db' (si_reservation inp) \<and>
    committedAmount db' (si_reservation inp) \<le> r_amount r' \<and>
    (\<forall>a d. balance db' a d = balance db a d)"
proof -
  from assms(2) obtain r db1 where r: "find_reservation db (si_reservation inp) = Some r"
    and act: "r_status r \<in> set [ACTIVE]" and p: "prepare_commit inp db r = Inr db1"
    and db': "db' = set_status db1 (si_reservation inp) COMMITTED" and r': "r' = r\<lparr>r_status := COMMITTED\<rparr>"
    unfolding commit_def by (rule settleReservation_Inr)
  from p obtain f ev where f: "commit_fact_ok r f" and amt: "si_amount inp = jint (f_amount f)"
    and db1: "db1 = db\<lparr>ledger := ledger db @ [\<lparr>e_account = r_account r, e_reservation = Some (r_id r),
      e_fact = f, e_key = Some (r_key r @ '':commit''), e_evidence = ev\<rparr>]\<rparr>"
    by (rule prepare_commit_Inr)
  from find_reservation_Some [OF r] assms(1) act
  have i: "r_id r = si_reservation inp" and "committedAmount db (r_id r) = 0"
    by (auto simp: settled_ok_def settled_one_def)
  with f have "committedAmount db' (si_reservation inp) = f_amount f"
    by (simp add: db' db1 committedAmount_def commit_fact_ok_def)
  moreover have "balance db' a d = balance db a d" for a d
    using f by (simp add: db' db1 balance_def rows_of_append project_loop_append commit_fact_ok_def)
  ultimately show ?thesis using r act r' f amt by (simp add: commit_fact_ok_def)
qed

definition ex_commit :: settle_input where
  "ex_commit = \<lparr>si_reservation = ''r1'', si_amount = jint 4, si_source = JStr ''actual'',
     si_confidence = JUndef, si_evidence = JUndef, si_reason = None\<rparr>"

lemma ex_settled: "settled_ok ex_db1"
proof -
  have "settled_ok ex_db" by (simp add: settled_ok_def ex_db_def)
  from settled_reserve [OF this ex_reserve_run [of False]] show ?thesis .
qed

lemma ex_commit_run: "\<exists>db' r'. commit ex_db1 ex_commit = Inr (db', r')"
  by (simp add: commit_def settleReservation_def prepare_commit_def ex_commit_def validateAmount_def
      validateDimension_def BUDGET_DIMENSION_IDS_def BUDGET_AMOUNT_MAX_def MAX_SAFE_INTEGER_def
      validateSource_def validateConfidence_def validateEvidence_def insert_entry_def entry_key_free_def
      entry_references_def ex_simps)

theorem commit_effect_witness:
  "\<exists>db' r'. commit ex_db1 ex_commit = Inr (db', r') \<and> committedAmount db' ''r1'' = 4"
  using ex_commit_run commit_effect [OF ex_settled, of ex_commit] by (auto simp: ex_commit_def)

lemma walk_chain_cong:
  assumes "find_account db' = find_account db"
  shows "walk_chain db' seen chain i = walk_chain db seen chain i"
  using assms
proof (induction db seen chain i rule: walk_chain.induct)
  case (1 db seen chain i)
  show ?case
  proof (cases "i \<noteq> [] \<and> i \<notin> set seen")
    case False
    then show ?thesis by (auto simp: walk_chain.simps [of _ seen chain i])
  next
    case True
    have "walk_chain db' (i # seen) (chain @ [a]) (case a_parent a of None \<Rightarrow> [] | Some p \<Rightarrow> p) =
        walk_chain db (i # seen) (chain @ [a]) (case a_parent a of None \<Rightarrow> [] | Some p \<Rightarrow> p)"
      if "find_account db i = Some a" "\<not> accountChainMaxDepth < length (chain @ [a])" for a
      using "1.IH" [OF _ _ that] True "1.prems" by blast
    with True "1.prems" show ?thesis
      by (auto simp: walk_chain.simps [of _ seen chain i] simp del: length_append split: option.split)
  qed
qed

text \<open>C21: releasing an active reservation in full undoes it: in every account and dimension the
  availability is again what it was before the reservation.\<close>

theorem reserve_release_restores:
  assumes "solvent db" and "settled_ok db"
    and "reserve True db newId inp = Inr (db1, r)"
    and "release db1 (release_input r (r_amount r) reason) = Inr (db2, r2)"
    and "a \<in> set (accounts db)" and "balance db a d \<le> MAX_SAFE_INTEGER"
  shows "balance db2 a d = balance db a d \<and> r_status r2 = RELEASED"
proof -
  from assms(3) obtain x c where x: "reserve_args inp = Inr x"
    and c: "lockChain db (ri_account inp) = Inr c"
    and av: "check_available db (ra_dimension x) (ra_amount x) c = Inr ()"
    and r: "r = new_reservation newId (ri_account inp) x"
    and db1: "db1 = reserved_db db newId (ri_account inp) x c"
    and fresh: "\<forall>r' \<in> set (reservations db). r_key r' \<noteq> ra_key x \<and> r_id r' \<noteq> newId"
    by (auto elim!: reserve_Inr elim!: reserve_tx_Inr)
  have acc: "accounts db1 = accounts db" by (simp add: db1 reserved_db_def)
  have dist: "distinct (map a_id (accounts db))" using assms(1) by (simp add: solvent_def accounts_wf_def)
  have same: "find_account db1 = find_account db" by (simp add: find_account_def acc fun_eq_iff)
  have c1: "lockChain db1 (ri_account inp) = Inr c"
    using c walk_chain_cong [OF same] by (simp add: lockChain_def)
  from assms(4) obtain r0 db1' where r0: "find_reservation db1 (r_id r) = Some r0"
    and p: "prepare_release (release_input r (r_amount r) reason) db1 r0 = Inr db1'"
    and db2: "db2 = set_status db1' (r_id r) RELEASED" "r2 = r0\<lparr>r_status := RELEASED\<rparr>"
    unfolding release_def by (auto simp: release_input_def elim!: settleReservation_Inr)
  have "r0 = r"
    using find_reservation_Some [OF r0] fresh by (auto simp: r db1 reserved_db_def new_reservation_def)
  with p obtain f ev chain where ch: "lockChain db1 (r_account r) = Inr chain" and f: "release_fact_ok db1 r f"
    and amt: "si_amount (release_input r (r_amount r) reason) = jint (f_amount f)"
    and db1': "db1' = db1\<lparr>ledger := ledger db1 @ map (chain_entry (r_id r) (r_key r @ '':release'') f ev) chain\<rparr>"
    by (auto elim!: prepare_release_Inr)
  have chain: "chain = c" using ch c1 by (simp add: r new_reservation_def)
  have fa: "f_amount f = r_amount r" "f_dimension f = r_dimension r" "f_operation f = Release"
    using amt f by (auto simp: release_input_def release_fact_ok_def)
  have "balance db2 a d = (if a \<in> set c \<and> d = r_dimension r
      then fadd (balance db1 a d) (r_amount r) else balance db1 a d)"
    using balance_write [of db1 c "chain_entry (r_id r) (r_key r @ '':release'') f ev" a d]
      lockChain_Inr [OF c] assms(5) dist fa
    by (auto simp: db2 db1' chain acc chain_entry_def fact_effect.simps)
  moreover have "balance db1 a d = (if a \<in> set c \<and> d = r_dimension r
      then fadd (balance db a d) (- r_amount r) else balance db a d)"
    using balance_reserved_db [OF dist c assms(5)] by (simp add: db1 r new_reservation_def)
  moreover have "fadd (fadd (balance db a d) (- r_amount r)) (r_amount r) = balance db a d"
    if "a \<in> set c" "d = r_dimension r"
    using check_available_Inr [OF av that(1)] reserve_args_Inr [OF x] assms(6) that
    by (simp add: r new_reservation_def fadd_exact)
  ultimately show ?thesis using db2 by auto
qed

lemma ex_solvent: "solvent ex_db"
  using ex_accounts_wf by (auto simp: solvent_def balance_def ex_db_def ex_accounts_def rows_of_def
      amount_of_def split: option.splits if_splits)

lemma evidence_reason: "validateEvidence (JObj [(''reason'', JStr ''retry'')]) =
    Inr (Some (JObj [(''reason'', JStr ''retry'')]))"
  by code_simp

lemma ex_release_run:
  "\<exists>db' r'. release ex_db1 (release_input ex_reserved (r_amount ex_reserved) ''retry'') = Inr (db', r')"
proof -
  have c: "lockChain ex_db1 ''a'' = Inr (rev ex_accounts)" by (rule ex_lockChain1)
  have f: "find_reservation ex_db1 ''r1'' = Some ex_reserved" by (simp add: ex_simps)
  have "committedAmount ex_db1 ''r1'' = 0" by (simp add: committedAmount_def ex_simps)
  moreover have "\<exists>db'. writeChainEntries ex_db1 (rev ex_accounts) ''r1'' (''k'' @ '':release'') fct ev = Inr db'"
    for fct ev
    by (simp add: writeChainEntries_def insert_entry_def entry_key_free_def entry_references_def ex_simps)
  ultimately show ?thesis
    using c f evidence_reason
    by (simp add: release_def settleReservation_def release_input_def ex_reserved_def prepare_release_def
        validateAmount_def validateDimension_def BUDGET_DIMENSION_IDS_def BUDGET_AMOUNT_MAX_def
        MAX_SAFE_INTEGER_def validateSource_def validateConfidence_def bindE_Inr_iff)
qed

theorem reserve_release_restores_witness:
  "\<exists>db2 r2. release ex_db1 (release_input ex_reserved (r_amount ex_reserved) ''retry'') = Inr (db2, r2) \<and>
     balance db2 (ex_accounts ! 1) Tokens = 12"
proof -
  obtain db2 r2 where run:
    "release ex_db1 (release_input ex_reserved (r_amount ex_reserved) ''retry'') = Inr (db2, r2)"
    using ex_release_run by blast
  have s: "settled_ok ex_db" by (simp add: settled_ok_def ex_db_def)
  have b: "balance ex_db (ex_accounts ! 1) Tokens = 12"
    by (simp add: balance_def ex_db_def ex_accounts_def rows_of_def amount_of_def)
  have "ex_accounts ! 1 \<in> set (accounts ex_db)" by (simp add: ex_db_def ex_accounts_def)
  from reserve_release_restores [OF ex_solvent s ex_reserve_run run this, of Tokens] b run
  show ?thesis by (simp add: MAX_SAFE_INTEGER_def)
qed

text \<open>An adjustment moves budget between an account and its ancestors: it adds the delta to the
  account's availability and subtracts it from that of every ancestor, in one dimension, and fails
  rather than leave one of them negative.\<close>

theorem adjust_effect:
  assumes "accounts_wf db" and "adjust db inp = Inr (db', e)"
    and "lockChain db (ad_account inp) = Inr chain" and "a \<in> set (accounts db)"
  shows "\<exists>x delta. ad_dimension inp = dimension_str x \<and> ad_delta inp = jint delta \<and>
    (let b = fadd (balance db a d) (if a_id a = ad_account inp then delta else - delta)
     in if a \<in> set chain \<and> d = x then balance db' a d = b \<and> 0 \<le> b else balance db' a d = balance db a d)"
proof -
  from assms(2,3) obtain x delta reason where d: "ad_dimension inp = dimension_str x" "ad_delta inp = jint delta"
    and nn: "check_adjust db (ad_account inp) x delta chain = Inr ()"
    and db': "db' = db\<lparr>ledger := ledger db @ map (adjust_entry (ad_account inp) x delta reason) chain\<rparr>"
    by (auto elim!: adjust_Inr)
  have "distinct (map a_id (accounts db))" using assms(1) by (simp add: accounts_wf_def)
  from balance_write [OF this lockChain_Inr(1,2) [OF assms(3)] _ assms(4),
      of "adjust_entry (ad_account inp) x delta reason" d] d check_adjust_Inr [OF nn, of a]
  show ?thesis
    by (intro exI [of _ x] exI [of _ delta])
       (auto simp: db' adjust_entry_def accountDelta_def fact_effect.simps Let_def)
qed

definition ex_adjust :: adjust_input where
  "ex_adjust = \<lparr>ad_account = ''a'', ad_dimension = ''tokens'', ad_delta = jint 5, ad_reason = JStr ''more''\<rparr>"

lemma ex_adjust_run: "\<exists>db' e. adjust ex_db ex_adjust = Inr (db', e)"
proof -
  have "check_adjust ex_db ''a'' Tokens 5 (rev ex_accounts) = Inr ()"
    by (simp add: check_adjust_def projectAvailableLocked_def accountDelta_def ex_simps fadd_small)
  then show ?thesis
    using ex_lockChain
    by (simp add: adjust_def ex_adjust_def validateDelta_def validateDimension_def BUDGET_DIMENSION_IDS_def
        BUDGET_AMOUNT_MAX_def MAX_SAFE_INTEGER_def boundedString_def trim_def is_ws_def actionRefMaxLength_def)
      (simp add: insert_entry_def entry_key_free_def entry_references_def adjust_entry_def ex_simps)
qed

theorem adjust_effect_witness:
  "\<exists>db' e. adjust ex_db ex_adjust = Inr (db', e) \<and> balance db' (ex_accounts ! 1) Tokens = 17 \<and>
     balance db' (ex_accounts ! 0) Tokens = 15"
proof -
  obtain db' e where run: "adjust ex_db ex_adjust = Inr (db', e)" using ex_adjust_run by blast
  have c: "lockChain ex_db (ad_account ex_adjust) = Inr (rev ex_accounts)"
    using ex_lockChain by (simp add: ex_adjust_def)
  have b: "balance ex_db (ex_accounts ! 1) Tokens = 12" "balance ex_db (ex_accounts ! 0) Tokens = 20"
    by (simp_all add: balance_def ex_db_def ex_accounts_def rows_of_def amount_of_def)
  have ids: "a_id (ex_accounts ! 1) = ''a''" "a_id (ex_accounts ! 0) = ''b''"
    "ex_accounts ! 1 \<in> set ex_accounts" "ex_accounts ! 0 \<in> set ex_accounts"
    by (simp_all add: ex_accounts_def)
  have tok: "''tokens'' = dimension_str x \<longleftrightarrow> x = Tokens" for x by (cases x) auto
  have acc: "accounts ex_db = ex_accounts" by (simp add: ex_db_def)
  have "balance db' (ex_accounts ! 1) Tokens = 17"
    using adjust_effect [OF ex_accounts_wf run c, of "ex_accounts ! 1" Tokens] b ids tok
    by (simp add: acc ex_adjust_def fadd_small Let_def)
  moreover have "balance db' (ex_accounts ! 0) Tokens = 15"
    using adjust_effect [OF ex_accounts_wf run c, of "ex_accounts ! 0" Tokens] b ids tok
    by (simp add: acc ex_adjust_def fadd_small Let_def)
  ultimately show ?thesis using run by blast
qed

subsection \<open>Reconciliation\<close>

text \<open>The composite operations are runs of the ledger's own transactions.\<close>

lemma foldE_map: "foldE f s (map g xs) = foldE (\<lambda>s x. f s (g x)) s xs"
  by (induction xs arbitrary: s) (auto simp: bindE_def split: sum.splits)

lemma foldE_cong: "(\<And>s x. x \<in> set xs \<Longrightarrow> f s x = g s x) \<Longrightarrow> foldE f s xs = foldE g s xs"
  by (induction xs arbitrary: s) (auto simp: bindE_def split: sum.splits)

lemma reserveForAttempt_steps:
  "reserveForAttempt db newId inp = foldE ledger_step db
     (map (\<lambda>dn. ReserveBudget True (newId (fst dn)) (attempt_reservation inp dn)) (ab_budget inp))"
  by (simp add: reserveForAttempt_def foldE_map)

lemma releaseForAction_steps:
  "releaseForAction db actionRef reason = foldE ledger_step db
     (map (\<lambda>r. ReleaseUnused (release_input r (r_amount r) reason))
       (filter (\<lambda>r. r_action r = Some actionRef) (reservations db)))"
  by (simp add: releaseForAction_def foldE_map)

lemma reconcile_one_steps:
  "\<exists>ops. reconcile_one actionRef usage db r = foldE ledger_step db ops"
proof (cases "find (\<lambda>u. u_dimension u = r_dimension r) usage")
  case None
  then show ?thesis by (intro exI [of _ "[]"]) (simp add: reconcile_one_def)
next
  case (Some obs)
  let ?c = "min (u_amount obs) (r_amount r)" and ?reason = "''unused reservation after terminal result''"
  show ?thesis
    using Some
    by (intro exI [of _ "(if ?c > 0 then [CommitUsage (commit_input r ?c (u_source obs) actionRef)] else []) @
          (if r_amount r - ?c > 0 then [ReleaseUnused (release_input r (r_amount r - ?c) ?reason)] else [])"])
       (auto simp: reconcile_one_def Let_def bindE_def split: sum.splits)
qed

lemma foldE_steps_inv:
  assumes "foldE f s xs = Inr t" and "I s" and "\<And>s x. \<exists>ops. f s x = foldE g s ops"
    and "\<And>s ops t. I s \<Longrightarrow> foldE g s ops = Inr t \<Longrightarrow> I t"
  shows "I t"
proof (rule foldE_invariant [where f = f and s = s and xs = xs and t = t and I = I])
  show "I s'" if "I s" "f s x = Inr s'" for s x s'
    using assms(3) [of s x] assms(4) [OF that(1)] that(2) by metis
qed (use assms(1,2) in auto)

definition ledger_ok :: "ledger_db \<Rightarrow> bool" where
  "ledger_ok db \<longleftrightarrow> solvent db \<and> settled_ok db"

lemma ledger_ok_steps: "ledger_ok s \<Longrightarrow> foldE ledger_step s ops = Inr t \<Longrightarrow> ledger_ok t"
  by (auto simp: ledger_ok_def intro: solvency.foldE_inv settlement.foldE_inv)

lemma ledger_ok_reserveForAttempt: "ledger_ok db \<Longrightarrow> reserveForAttempt db newId inp = Inr db' \<Longrightarrow> ledger_ok db'"
  by (auto simp: reserveForAttempt_steps intro: ledger_ok_steps)

lemma ledger_ok_releaseForAction: "ledger_ok db \<Longrightarrow> releaseForAction db actionRef reason = Inr db' \<Longrightarrow> ledger_ok db'"
  by (auto simp: releaseForAction_steps intro: ledger_ok_steps)

lemma ledger_ok_reconcileTerminal: "ledger_ok db \<Longrightarrow> reconcileTerminal db actionRef usage = Inr db' \<Longrightarrow> ledger_ok db'"
  unfolding reconcileTerminal_def
  by (rule foldE_steps_inv [of _ _ _ _ ledger_ok ledger_step]) (assumption, assumption, rule reconcile_one_steps, rule ledger_ok_steps)

text \<open>The budget transactions of an attempt keep the ledger sound: reserving for every dimension
  of an attempt's budget, reconciling its reservations with the observed usage, and releasing them for
  a retry keep every account solvent and every reservation within its amount; a transaction that cannot
  do all of its work changes nothing.\<close>

theorem attempt_budget_sound:
  assumes "solvent db" and "settled_ok db"
    and "reserveForAttempt db newId inp = Inr db' \<or> reconcileTerminal db actionRef usage = Inr db' \<or>
      releaseForAction db actionRef reason = Inr db'"
  shows "solvent db' \<and> settled_ok db'"
  using assms ledger_ok_reserveForAttempt [of db] ledger_ok_releaseForAction [of db] ledger_ok_reconcileTerminal [of db]
  unfolding ledger_ok_def by blast

theorem attempt_budget_sound_witness:
  "\<exists>db'. releaseForAction ex_db1 ''none'' ''retry'' = Inr db' \<and> solvent db'"
proof -
  have "releaseForAction ex_db1 ''none'' ''retry'' = Inr ex_db1"
    by (simp add: releaseForAction_def ex_simps)
  with attempt_budget_sound [of ex_db1 "\<lambda>_. []" "\<lparr>ab_executionId = [], ab_logicalStepId = [],
      ab_attemptNumber = 1, ab_invocationId = [], ab_accountId = [], ab_budget = []\<rparr>" ex_db1 "''none''" "[]" "''retry''"]
    solvent_reserve [OF ex_solvent ex_reserve_run [of False]] ex_settled
  show ?thesis by blast
qed

lemma find_set_status:
  assumes "find (\<lambda>r. r_id r = i) rs = Some r"
  shows "\<exists>y. find (\<lambda>r. r_id r = i) (map (\<lambda>r. if r_id r = i then r\<lparr>r_status := st\<rparr> else r) rs) = Some y \<and>
    r_status y = st"
  using assms by (induction rs) (auto split: if_splits)

text \<open>A release is final: once a reservation is released, any further release or commit of it
  fails with \<open>RESERVATION_NOT_ACTIVE\<close>; so a repeated \<open>releaseForAction\<close> throws, it is not a no-op.\<close>

theorem release_final:
  assumes "release db inp = Inr (db', r)" and "si_reservation inp' = si_reservation inp"
  shows "release db' inp' = Inl (Budget RESERVATION_NOT_ACTIVE) \<and>
    commit db' inp' = Inl (Budget RESERVATION_NOT_ACTIVE)"
proof -
  from assms(1) obtain r0 db1 where r0: "find_reservation db (si_reservation inp) = Some r0"
    and p: "prepare_release inp db r0 = Inr db1" and db': "db' = set_status db1 (si_reservation inp) RELEASED"
    unfolding release_def by (rule settleReservation_Inr)
  from p have "reservations db1 = reservations db" by (auto elim!: prepare_release_Inr)
  then have "\<exists>y. find_reservation db' (si_reservation inp) = Some y \<and> r_status y = RELEASED"
    using find_set_status [OF r0 [unfolded find_reservation_def], of RELEASED]
    by (simp add: find_reservation_def db' reservations_set_status)
  with assms(2) show ?thesis by (auto simp: release_def commit_def settleReservation_def)
qed

theorem release_final_witness:
  "\<exists>db'. release db' (release_input ex_reserved 6 ''again'') = Inl (Budget RESERVATION_NOT_ACTIVE)"
  using ex_release_run release_final [of ex_db1 "release_input ex_reserved (r_amount ex_reserved) ''retry''" _ _
    "release_input ex_reserved 6 ''again''"] by (auto simp: release_input_def)

end
