(* ===== verification/Policy.thy ===== *)
theory Policy
  imports Json
begin

text \<open>
  services/orchestrator/src/domain/policy.ts, domain/approval.ts and services/policy.service.ts: action
  proposals, the parser of the trusted policy configuration, first-match evaluation, the frozen
  snapshots with the append-only decisions, and the life of an approval request. Clock readings are
  arguments (\<open>now\<close>), the hash and the collation parameters.
\<close>

subsection \<open>Vocabulary\<close>

datatype policy_effect = ALLOW | DENY | REQUIRE_APPROVAL

fun effect_str :: "policy_effect \<Rightarrow> string" where
  "effect_str ALLOW = ''ALLOW''"
| "effect_str DENY = ''DENY''"
| "effect_str REQUIRE_APPROVAL = ''REQUIRE_APPROVAL''"

definition POLICY_EFFECTS :: "policy_effect list" where
  "POLICY_EFFECTS = [ALLOW, DENY, REQUIRE_APPROVAL]"

datatype action_type = Dispatch | PlanPatch | Delegate | ExecutorAction

fun action_str :: "action_type \<Rightarrow> string" where
  "action_str Dispatch = ''dispatch''"
| "action_str PlanPatch = ''plan_patch''"
| "action_str Delegate = ''delegate''"
| "action_str ExecutorAction = ''executor_action''"

definition POLICY_ACTION_TYPES :: "action_type list" where
  "POLICY_ACTION_TYPES = [Dispatch, PlanPatch, Delegate, ExecutorAction]"

definition proposalIdMaxLength :: nat where "proposalIdMaxLength = 64"
definition policyScopeIdMaxLength :: nat where "policyScopeIdMaxLength = 255"
definition targetMaxLength :: nat where "targetMaxLength = 255"
definition rulesMaxCount :: nat where "rulesMaxCount = 256"
definition ruleIdMaxLength :: nat where "ruleIdMaxLength = 64"
definition agentsMaxCount :: nat where "agentsMaxCount = 64"
definition agentMaxLength :: nat where "agentMaxLength = 255"
definition executorsMaxCount :: nat where "executorsMaxCount = 16"
definition executorMaxLength :: nat where "executorMaxLength = 255"

datatype policy_error =
    POLICY_CONFIG_INVALID | POLICY_VERSION_CONFLICT | PROPOSAL_INVALID | SNAPSHOT_NOT_FOUND

record proposal_scope =
  sc_executionId :: string
  sc_logicalStepId :: "string option"
  sc_attemptNumber :: "int option"

record proposal_target =
  tg_agent :: "string option"
  tg_executor :: "string option"

record action_proposal =
  p_id :: string
  p_actionType :: action_type
  p_scope :: proposal_scope
  p_target :: "proposal_target option"
  p_hash :: string
  p_createdAt :: string

record policy_rule =
  rl_id :: string
  rl_actionType :: action_type
  rl_effect :: policy_effect
  rl_agents :: "string list option"
  rl_executors :: "string list option"

record policy_snapshot =
  ps_version :: int
  ps_hash :: string
  ps_rules :: "policy_rule list"

record policy_decision =
  d_decisionId :: string
  d_proposalHash :: string
  d_policyVersion :: int
  d_policyHash :: string
  d_effect :: policy_effect
  d_reasons :: "string list"
  d_evaluatedAt :: string

subsection \<open>Proposals\<close>

definition optional_js :: "string \<Rightarrow> ('a \<Rightarrow> jsv) \<Rightarrow> 'a option \<Rightarrow> (string \<times> jsv) list" where
  "optional_js k f v = (case v of None \<Rightarrow> [] | Some x \<Rightarrow> [(k, f x)])"

definition scope_js :: "proposal_scope \<Rightarrow> jsv" where
  "scope_js s = JObj ((''executionId'', JStr (sc_executionId s))
     # optional_js ''logicalStepId'' JStr (sc_logicalStepId s)
     @ optional_js ''attemptNumber'' (\<lambda>n. jint n) (sc_attemptNumber s))"

definition target_js :: "proposal_target \<Rightarrow> jsv" where
  "target_js t = JObj (optional_js ''agent'' JStr (tg_agent t) @ optional_js ''executor'' JStr (tg_executor t))"

definition proposalHash ::
  "(string \<Rightarrow> string) \<Rightarrow> (string \<Rightarrow> string \<Rightarrow> bool) \<Rightarrow> action_proposal \<Rightarrow> string" where
  "proposalHash sha coll p = sha256Json sha coll (JObj
     [(''proposalId'', JStr (p_id p)), (''actionType'', JStr (action_str (p_actionType p))),
      (''scope'', scope_js (p_scope p)),
      (''target'', case p_target p of None \<Rightarrow> JUndef | Some t \<Rightarrow> target_js t)])"

definition check_field :: "string \<times> nat \<Rightarrow> policy_error + unit" where
  "check_field f = (if fst f = [] \<or> length (fst f) > snd f then Inl PROPOSAL_INVALID else Inr ())"

record dispatch_facts =
  df_executionId :: string
  df_logicalStepId :: string
  df_attemptNumber :: int
  df_agent :: string
  df_executor :: string

definition with_hash ::
  "(string \<Rightarrow> string) \<Rightarrow> (string \<Rightarrow> string \<Rightarrow> bool) \<Rightarrow> action_proposal \<Rightarrow> action_proposal" where
  "with_hash sha coll p = p\<lparr>p_hash := proposalHash sha coll p\<rparr>"

definition buildDispatchProposal ::
  "(string \<Rightarrow> string) \<Rightarrow> (string \<Rightarrow> string \<Rightarrow> bool) \<Rightarrow> string \<Rightarrow> string \<Rightarrow> dispatch_facts \<Rightarrow>
     policy_error + action_proposal" where
  "buildDispatchProposal sha coll now proposalId facts =
     bindE (check_field (proposalId, proposalIdMaxLength)) (\<lambda>_.
     bindE (forE check_field
        [(df_executionId facts, policyScopeIdMaxLength), (df_logicalStepId facts, policyScopeIdMaxLength),
         (df_agent facts, targetMaxLength), (df_executor facts, executorMaxLength)]) (\<lambda>_.
     Inr (with_hash sha coll
       \<lparr>p_id = proposalId, p_actionType = Dispatch,
        p_scope = \<lparr>sc_executionId = df_executionId facts, sc_logicalStepId = Some (df_logicalStepId facts),
                   sc_attemptNumber = Some (df_attemptNumber facts)\<rparr>,
        p_target = Some \<lparr>tg_agent = Some (df_agent facts), tg_executor = Some (df_executor facts)\<rparr>,
        p_hash = [], p_createdAt = now\<rparr>)))"

definition buildPlanPatchProposal ::
  "(string \<Rightarrow> string) \<Rightarrow> (string \<Rightarrow> string \<Rightarrow> bool) \<Rightarrow> string \<Rightarrow> string \<Rightarrow> string \<Rightarrow>
     policy_error + action_proposal" where
  "buildPlanPatchProposal sha coll now proposalId executionId =
     bindE (check_field (proposalId, proposalIdMaxLength)) (\<lambda>_.
     bindE (check_field (executionId, policyScopeIdMaxLength)) (\<lambda>_.
     Inr (with_hash sha coll
       \<lparr>p_id = proposalId, p_actionType = PlanPatch,
        p_scope = \<lparr>sc_executionId = executionId, sc_logicalStepId = None, sc_attemptNumber = None\<rparr>,
        p_target = None, p_hash = [], p_createdAt = now\<rparr>)))"

definition buildDelegationProposal ::
  "(string \<Rightarrow> string) \<Rightarrow> (string \<Rightarrow> string \<Rightarrow> bool) \<Rightarrow> string \<Rightarrow> string \<Rightarrow> string \<Rightarrow> string \<Rightarrow>
     policy_error + action_proposal" where
  "buildDelegationProposal sha coll now proposalId executionId requestedAgent =
     bindE (forE check_field [(proposalId, proposalIdMaxLength), (executionId, policyScopeIdMaxLength),
        (requestedAgent, targetMaxLength)]) (\<lambda>_.
     Inr (with_hash sha coll
       \<lparr>p_id = proposalId, p_actionType = Delegate,
        p_scope = \<lparr>sc_executionId = executionId, sc_logicalStepId = None, sc_attemptNumber = None\<rparr>,
        p_target = Some \<lparr>tg_agent = Some requestedAgent, tg_executor = None\<rparr>,
        p_hash = [], p_createdAt = now\<rparr>))"

subsection \<open>Parsing the configuration\<close>

definition policyString :: "jsv \<Rightarrow> nat \<Rightarrow> policy_error + string" where
  "policyString v maxLength =
     (case v of
        JStr s \<Rightarrow> if trim s = [] \<or> length s > maxLength then Inl POLICY_CONFIG_INVALID else Inr s
      | _ \<Rightarrow> Inl POLICY_CONFIG_INVALID)"

definition stringArray :: "jsv \<Rightarrow> nat \<Rightarrow> nat \<Rightarrow> policy_error + string list option" where
  "stringArray v maxCount maxLength =
     (if nullish v then Inr None
      else case v of
        JArr vs \<Rightarrow> if length vs > maxCount then Inl POLICY_CONFIG_INVALID
                   else bindE (mapE (\<lambda>x. policyString x maxLength) vs) (\<lambda>ss. Inr (Some ss))
      | _ \<Rightarrow> Inl POLICY_CONFIG_INVALID)"

definition parse_actionType :: "jsv \<Rightarrow> policy_error + action_type" where
  "parse_actionType v = (case find (\<lambda>t. JStr (action_str t) = v) POLICY_ACTION_TYPES of
     None \<Rightarrow> Inl POLICY_CONFIG_INVALID | Some t \<Rightarrow> Inr t)"

definition parse_effect :: "jsv \<Rightarrow> policy_error + policy_effect" where
  "parse_effect v = (case find (\<lambda>t. JStr (effect_str t) = v) POLICY_EFFECTS of
     None \<Rightarrow> Inl POLICY_CONFIG_INVALID | Some t \<Rightarrow> Inr t)"

definition parseRule :: "jsv \<Rightarrow> policy_error + policy_rule" where
  "parseRule v =
     (if \<not> is_record v then Inl POLICY_CONFIG_INVALID
      else bindE (policyString (getp v ''id'') ruleIdMaxLength) (\<lambda>i.
        bindE (parse_actionType (getp v ''actionType'')) (\<lambda>t.
        bindE (parse_effect (getp v ''effect'')) (\<lambda>e.
        bindE (stringArray (getp v ''agents'') agentsMaxCount agentMaxLength) (\<lambda>agents.
        bindE (stringArray (getp v ''executors'') executorsMaxCount executorMaxLength) (\<lambda>executors.
          Inr \<lparr>rl_id = i, rl_actionType = t, rl_effect = e, rl_agents = agents,
               rl_executors = executors\<rparr>))))))"

definition strings_js :: "string list option \<Rightarrow> jsv" where
  "strings_js ss = JArr (map JStr (case ss of None \<Rightarrow> [] | Some ss \<Rightarrow> ss))"

definition rule_js :: "policy_rule \<Rightarrow> jsv" where
  "rule_js r = JObj [(''id'', JStr (rl_id r)), (''actionType'', JStr (action_str (rl_actionType r))),
     (''effect'', JStr (effect_str (rl_effect r))), (''agents'', strings_js (rl_agents r)),
     (''executors'', strings_js (rl_executors r))]"

definition rulesHash ::
  "(string \<Rightarrow> string) \<Rightarrow> (string \<Rightarrow> string \<Rightarrow> bool) \<Rightarrow> int \<Rightarrow> policy_rule list \<Rightarrow> string" where
  "rulesHash sha coll version rules =
     sha256Json sha coll (JObj [(''version'', jint version), (''rules'', JArr (map rule_js rules))])"

definition parsePolicySnapshot ::
  "(string \<Rightarrow> string) \<Rightarrow> (string \<Rightarrow> string \<Rightarrow> bool) \<Rightarrow> jsv \<Rightarrow> policy_error + policy_snapshot" where
  "parsePolicySnapshot sha coll v =
     (if \<not> is_record v then Inl POLICY_CONFIG_INVALID
      else case as_integer (getp v ''version'') of
        None \<Rightarrow> Inl POLICY_CONFIG_INVALID
      | Some version \<Rightarrow>
          if version \<le> 0 then Inl POLICY_CONFIG_INVALID
          else case getp v ''rules'' of
            JArr rules \<Rightarrow>
              if rules = [] \<or> length rules > rulesMaxCount then Inl POLICY_CONFIG_INVALID
              else bindE (mapE parseRule rules) (\<lambda>rules.
                Inr \<lparr>ps_version = version, ps_hash = rulesHash sha coll version rules, ps_rules = rules\<rparr>)
          | _ \<Rightarrow> Inl POLICY_CONFIG_INVALID)"

subsection \<open>Evaluation\<close>

definition target_agent :: "action_proposal \<Rightarrow> string" where
  "target_agent p = (case p_target p of None \<Rightarrow> []
     | Some t \<Rightarrow> (case tg_agent t of None \<Rightarrow> [] | Some a \<Rightarrow> a))"

definition target_executor :: "action_proposal \<Rightarrow> string" where
  "target_executor p = (case p_target p of None \<Rightarrow> []
     | Some t \<Rightarrow> (case tg_executor t of None \<Rightarrow> [] | Some a \<Rightarrow> a))"

definition decision :: "action_proposal \<Rightarrow> policy_snapshot \<Rightarrow> string \<Rightarrow> policy_effect \<Rightarrow> string \<Rightarrow> policy_decision" where
  "decision p snap now effect reason =
     \<lparr>d_decisionId = p_id p, d_proposalHash = p_hash p, d_policyVersion = ps_version snap,
      d_policyHash = ps_hash snap, d_effect = effect, d_reasons = [reason], d_evaluatedAt = now\<rparr>"

text \<open>The loop over the rules, with its \<open>continue\<close>s.\<close>

fun evaluate_rules :: "action_proposal \<Rightarrow> policy_snapshot \<Rightarrow> string \<Rightarrow> policy_rule list \<Rightarrow> policy_decision" where
  "evaluate_rules p snap now [] = decision p snap now ALLOW ''no matching rule; default allow''"
| "evaluate_rules p snap now (r # rs) =
     (if rl_actionType r \<noteq> p_actionType p then evaluate_rules p snap now rs
      else if (case rl_agents r of None \<Rightarrow> False | Some agents \<Rightarrow> target_agent p \<notin> set agents)
      then evaluate_rules p snap now rs
      else if (case rl_executors r of None \<Rightarrow> False | Some es \<Rightarrow> target_executor p \<notin> set es)
      then evaluate_rules p snap now rs
      else decision p snap now (rl_effect r) (''matched rule '' @ rl_id r))"

definition evaluateProposal :: "string \<Rightarrow> action_proposal \<Rightarrow> policy_snapshot \<Rightarrow> policy_decision" where
  "evaluateProposal now p snap = evaluate_rules p snap now (ps_rules snap)"

subsection \<open>The policy service\<close>

text \<open>What reading \<open>TENVYR_POLICY\<close> yields: not set (or blank), not JSON, or a JSON value.\<close>

datatype policy_env = EnvUnset | EnvNotJson | EnvJson jsv

datatype policy_service_error = Policy policy_error | NoSnapshotRow

record decision_row =
  dr_proposalId :: string
  dr_actionType :: action_type
  dr_executionId :: string
  dr_logicalStepId :: "string option"
  dr_attemptNumber :: "int option"
  dr_targetAgent :: "string option"
  dr_targetExecutor :: "string option"
  dr_proposalHash :: string
  dr_policyVersion :: int
  dr_policyHash :: string
  dr_effect :: policy_effect
  dr_reasons :: "string list"

record policy_db =
  snapshots :: "policy_snapshot list"
  decisions :: "decision_row list"

definition configuredSnapshot ::
  "(string \<Rightarrow> string) \<Rightarrow> (string \<Rightarrow> string \<Rightarrow> bool) \<Rightarrow> policy_env \<Rightarrow> policy_error + policy_snapshot" where
  "configuredSnapshot sha coll env =
     (case env of
        EnvUnset \<Rightarrow> Inl SNAPSHOT_NOT_FOUND
      | EnvNotJson \<Rightarrow> Inl POLICY_CONFIG_INVALID
      | EnvJson v \<Rightarrow> parsePolicySnapshot sha coll v)"

definition find_snapshot :: "policy_db \<Rightarrow> int \<Rightarrow> policy_snapshot option" where
  "find_snapshot db version = find (\<lambda>s. ps_version s = version) (snapshots db)"

text \<open>\<open>INSERT ... ON CONFLICT DO NOTHING\<close> on the unique version.\<close>

definition insert_snapshot :: "policy_db \<Rightarrow> policy_snapshot \<Rightarrow> policy_db" where
  "insert_snapshot db s =
     (if find_snapshot db (ps_version s) = None then db\<lparr>snapshots := snapshots db @ [s]\<rparr> else db)"

text \<open>
  \<open>race\<close> is a snapshot that another transaction commits between the first read and the insert.
\<close>

definition loadSnapshot ::
  "(string \<Rightarrow> string) \<Rightarrow> (string \<Rightarrow> string \<Rightarrow> bool) \<Rightarrow> policy_env \<Rightarrow> policy_snapshot option \<Rightarrow> policy_db \<Rightarrow>
     policy_service_error + policy_db \<times> policy_snapshot" where
  "loadSnapshot sha coll env race db =
     (case configuredSnapshot sha coll env of
        Inl e \<Rightarrow> Inl (Policy e)
      | Inr configured \<Rightarrow>
          (case find_snapshot db (ps_version configured) of
             Some existing \<Rightarrow>
               if ps_hash existing \<noteq> ps_hash configured then Inl (Policy POLICY_VERSION_CONFLICT)
               else Inr (db, existing)
           | None \<Rightarrow>
               let db1 = (case race of None \<Rightarrow> db | Some s \<Rightarrow> insert_snapshot db s);
                   db2 = insert_snapshot db1 configured
               in case find_snapshot db2 (ps_version configured) of
                    None \<Rightarrow> Inl NoSnapshotRow
                  | Some winner \<Rightarrow>
                      if ps_hash winner = ps_hash configured then Inr (db2, winner)
                      else Inl (Policy POLICY_VERSION_CONFLICT)))"

definition decision_row :: "action_proposal \<Rightarrow> policy_decision \<Rightarrow> decision_row" where
  "decision_row p d =
     \<lparr>dr_proposalId = p_id p, dr_actionType = p_actionType p,
      dr_executionId = sc_executionId (p_scope p), dr_logicalStepId = sc_logicalStepId (p_scope p),
      dr_attemptNumber = sc_attemptNumber (p_scope p),
      dr_targetAgent = (case p_target p of None \<Rightarrow> None | Some t \<Rightarrow> tg_agent t),
      dr_targetExecutor = (case p_target p of None \<Rightarrow> None | Some t \<Rightarrow> tg_executor t),
      dr_proposalHash = p_hash p, dr_policyVersion = d_policyVersion d, dr_policyHash = d_policyHash d,
      dr_effect = d_effect d, dr_reasons = d_reasons d\<rparr>"

record evaluate_request =
  er_env :: policy_env
  er_race :: "policy_snapshot option"
  er_now :: string
  er_proposal :: action_proposal

definition evaluate ::
  "(string \<Rightarrow> string) \<Rightarrow> (string \<Rightarrow> string \<Rightarrow> bool) \<Rightarrow> policy_db \<Rightarrow> evaluate_request \<Rightarrow>
     policy_service_error + policy_db \<times> policy_decision" where
  "evaluate sha coll db q =
     bindE (loadSnapshot sha coll (er_env q) (er_race q) db) (\<lambda>(db1, snap).
       let d = evaluateProposal (er_now q) (er_proposal q) snap
       in Inr (db1\<lparr>decisions := decisions db1 @ [decision_row (er_proposal q) d]\<rparr>, d))"

subsection \<open>Approval requests\<close>

datatype approval_status = PENDING | APPROVED | DENIED | EXPIRED

definition noteMaxLength :: nat where "noteMaxLength = 255"
definition expiryMsMax :: int where "expiryMsMax = 90 * 24 * 60 * 60 * 1000"

definition assertApprovalTransition ::
  "approval_status \<Rightarrow> approval_status \<Rightarrow> policy_error + approval_status \<times> approval_status" where
  "assertApprovalTransition from_st to_st =
     (if from_st \<noteq> PENDING then Inl POLICY_CONFIG_INVALID
      else if to_st \<notin> {APPROVED, DENIED, EXPIRED} then Inl POLICY_CONFIG_INVALID
      else Inr (PENDING, to_st))"

definition approvalExpiry :: "int \<Rightarrow> jsv \<Rightarrow> policy_error + int" where
  "approvalExpiry now expiresInMs =
     (case as_integer expiresInMs of
        None \<Rightarrow> Inl POLICY_CONFIG_INVALID
      | Some n \<Rightarrow> if n \<le> 0 \<or> n > expiryMsMax then Inl POLICY_CONFIG_INVALID else Inr (now + n))"

definition boundedApprovalNote :: "jsv \<Rightarrow> policy_error + string option" where
  "boundedApprovalNote note =
     (if nullish note then Inr None
      else bindE (policyString note noteMaxLength) (\<lambda>s. Inr (Some s)))"

subsection \<open>Lemmas\<close>

text \<open>What it means that a rule applies to a proposal.\<close>

definition rule_matches :: "action_proposal \<Rightarrow> policy_rule \<Rightarrow> bool" where
  "rule_matches p r \<longleftrightarrow> rl_actionType r = p_actionType p \<and>
     (\<forall>agents. rl_agents r = Some agents \<longrightarrow> target_agent p \<in> set agents) \<and>
     (\<forall>es. rl_executors r = Some es \<longrightarrow> target_executor p \<in> set es)"

lemma evaluate_rules_find:
  "evaluate_rules p snap now rs = (case find (rule_matches p) rs of
     None \<Rightarrow> decision p snap now ALLOW ''no matching rule; default allow''
   | Some r \<Rightarrow> decision p snap now (rl_effect r) (''matched rule '' @ rl_id r))"
  by (induction rs) (auto simp: rule_matches_def split: option.splits)

lemma action_str_inject [simp]: "action_str a = action_str b \<longleftrightarrow> a = b"
  by (cases a; cases b) auto

lemma effect_str_inject [simp]: "effect_str a = effect_str b \<longleftrightarrow> a = b"
  by (cases a; cases b) auto

lemma parse_actionType_Inr [result_simps]: "parse_actionType v = Inr t \<longleftrightarrow> v = JStr (action_str t)"
  by (cases t) (auto simp: parse_actionType_def POLICY_ACTION_TYPES_def split: if_splits)

lemma parse_effect_Inr [result_simps]: "parse_effect v = Inr t \<longleftrightarrow> v = JStr (effect_str t)"
  by (cases t) (auto simp: parse_effect_def POLICY_EFFECTS_def split: if_splits)

lemma policyString_Inr [result_simps]:
  "policyString v n = Inr s \<longleftrightarrow> v = JStr s \<and> trim s \<noteq> [] \<and> length s \<le> n"
  by (auto simp: policyString_def split: jsv.splits if_splits)

lemma find_snapshot_insert:
  "find_snapshot (insert_snapshot db s) v =
     (case find_snapshot db v of Some x \<Rightarrow> Some x | None \<Rightarrow> if ps_version s = v then Some s else None)"
proof -
  have app: "find P (xs @ [s]) = (case find P xs of Some x \<Rightarrow> Some x | None \<Rightarrow> if P s then Some s else None)"
    for P and xs :: "policy_snapshot list"
    by (induction xs) auto
  show ?thesis
    by (auto simp: insert_snapshot_def find_snapshot_def app split: option.splits)
qed

end
