(* ===== verification/Policy_Properties.thy ===== *)
theory Policy_Properties
  imports Policy
begin

text \<open>
  The properties of the policy component (theory Policy): first-match evaluation, the bounds of a
  parsed configuration, frozen versions and decision evidence, and what the rules hash identifies.
\<close>

subsection \<open>Evaluation and parsing\<close>

text \<open>The first rule that applies to a proposal decides it; without one it is allowed. The decision
  names the proposal, its hash, and the version and hash of the snapshot.\<close>

theorem evaluateProposal_first_match:
  "let d = evaluateProposal now p snap in
     d_effect d = (case find (rule_matches p) (ps_rules snap) of None \<Rightarrow> ALLOW | Some r \<Rightarrow> rl_effect r) \<and>
     d_decisionId d = p_id p \<and> d_proposalHash d = p_hash p \<and>
     d_policyVersion d = ps_version snap \<and> d_policyHash d = ps_hash snap"
  by (simp add: evaluateProposal_def evaluate_rules_find decision_def split: option.split)

definition strings_ok :: "nat \<Rightarrow> nat \<Rightarrow> string list option \<Rightarrow> bool" where
  "strings_ok n m ss = (case ss of None \<Rightarrow> True
     | Some ss \<Rightarrow> length ss \<le> n \<and> list_all (\<lambda>s. trim s \<noteq> [] \<and> length s \<le> m) ss)"

definition rule_ok :: "policy_rule \<Rightarrow> bool" where
  "rule_ok r \<longleftrightarrow> trim (rl_id r) \<noteq> [] \<and> length (rl_id r) \<le> ruleIdMaxLength \<and>
     strings_ok agentsMaxCount agentMaxLength (rl_agents r) \<and>
     strings_ok executorsMaxCount executorMaxLength (rl_executors r)"

lemma stringArray_Inr: "stringArray v n m = Inr ss \<Longrightarrow> strings_ok n m ss"
proof -
  have "list_all2 (\<lambda>x s. policyString x m = Inr s) vs ss \<Longrightarrow>
      list_all (\<lambda>s. trim s \<noteq> [] \<and> length s \<le> m) ss \<and> length ss = length vs" for vs ss
    by (induction vs ss rule: list_all2_induct) (auto simp: policyString_Inr)
  then show "stringArray v n m = Inr ss \<Longrightarrow> strings_ok n m ss"
    by (fastforce simp: stringArray_def strings_ok_def bindE_Inr_iff mapE_Inr_iff
        split: if_splits jsv.splits)
qed

lemma parseRule_Inr: "parseRule v = Inr r \<Longrightarrow> rule_ok r"
  by (auto simp: parseRule_def rule_ok_def result_simps dest: stringArray_Inr split: if_splits)

text \<open>An accepted policy configuration has a positive version, between 1 and 256 rules, each with a
  non-blank bounded id and bounded constraint lists; its hash is that of its version and rules.\<close>

theorem parsePolicySnapshot_valid:
  assumes "parsePolicySnapshot sha coll v = Inr s"
  shows "0 < ps_version s \<and> ps_rules s \<noteq> [] \<and> length (ps_rules s) \<le> rulesMaxCount \<and>
    list_all rule_ok (ps_rules s) \<and> ps_hash s = rulesHash sha coll (ps_version s) (ps_rules s)"
proof -
  from assms obtain n rules where s: "0 < n" "mapE parseRule rules = Inr (ps_rules s)" "rules \<noteq> []"
    "length rules \<le> rulesMaxCount" "ps_version s = n" "ps_hash s = rulesHash sha coll n (ps_rules s)"
    by (auto simp: parsePolicySnapshot_def bindE_Inr_iff split: if_splits option.splits jsv.splits)
  from mapE_Inr_length [OF s(2)] s(3) have "ps_rules s \<noteq> []" by auto
  moreover have "list_all rule_ok (ps_rules s)"
    unfolding list_all_iff using mapE_Inr_set [OF s(2)] parseRule_Inr by metis
  ultimately show ?thesis using s mapE_Inr_length [OF s(2)] by simp
qed

definition ex_rule :: "(string \<times> jsv) list \<Rightarrow> jsv" where
  "ex_rule xs = JObj ([(''id'', JStr ''r1''), (''actionType'', JStr ''dispatch''),
     (''effect'', JStr ''DENY'')] @ xs)"

definition ex_config :: "(string \<times> jsv) list \<Rightarrow> jsv" where
  "ex_config xs = JObj [(''version'', jint 1), (''rules'', JArr [ex_rule xs])]"

definition ex_parsed :: "string list option \<Rightarrow> policy_rule" where
  "ex_parsed agents = \<lparr>rl_id = ''r1'', rl_actionType = Dispatch, rl_effect = DENY, rl_agents = agents,
     rl_executors = None\<rparr>"

lemma ex_parse:
  "parsePolicySnapshot sha coll (ex_config []) = Inr
     \<lparr>ps_version = 1, ps_hash = rulesHash sha coll 1 [ex_parsed None], ps_rules = [ex_parsed None]\<rparr>"
  "parsePolicySnapshot sha coll (ex_config [(''agents'', JArr [])]) = Inr
     \<lparr>ps_version = 1, ps_hash = rulesHash sha coll 1 [ex_parsed (Some [])], ps_rules = [ex_parsed (Some [])]\<rparr>"
  by (simp_all add: parsePolicySnapshot_def ex_config_def ex_rule_def ex_parsed_def parseRule_def
      policyString_def parse_actionType_def parse_effect_def stringArray_def POLICY_ACTION_TYPES_def
      POLICY_EFFECTS_def trim_def is_ws_def ruleIdMaxLength_def rulesMaxCount_def floor_one)

theorem parsePolicySnapshot_valid_witness:
  "rule_ok (ex_parsed (Some []))"
  using parsePolicySnapshot_valid [OF ex_parse(2) [of "\<lambda>s. s" "\<lambda>a b. True"]] by simp

subsection \<open>Frozen versions\<close>

definition policy_step ::
  "(string \<Rightarrow> string) \<Rightarrow> (string \<Rightarrow> string \<Rightarrow> bool) \<Rightarrow> policy_db \<Rightarrow> evaluate_request \<Rightarrow>
     policy_service_error + policy_db" where
  "policy_step sha coll db q = bindE (evaluate sha coll db q) (\<lambda>res. Inr (fst res))"

definition row_justified :: "policy_snapshot list \<Rightarrow> decision_row \<Rightarrow> bool" where
  "row_justified snaps row \<longleftrightarrow>
     (\<exists>s \<in> set snaps. \<exists>p now. row = decision_row p (evaluateProposal now p s))"

definition policy_ok :: "policy_db \<Rightarrow> bool" where
  "policy_ok db \<longleftrightarrow> distinct (map ps_version (snapshots db)) \<and>
     list_all (row_justified (snapshots db)) (decisions db)"

definition snapshots_kept :: "policy_db \<Rightarrow> policy_db \<Rightarrow> bool" where
  "snapshots_kept db0 db \<longleftrightarrow> (\<exists>xs. snapshots db = snapshots db0 @ xs) \<and>
     (\<exists>xs. decisions db = decisions db0 @ xs)"

lemma insert_snapshot_ok:
  "policy_ok db \<Longrightarrow> policy_ok (insert_snapshot db s)"
  "snapshots_kept db0 db \<Longrightarrow> snapshots_kept db0 (insert_snapshot db s)"
  by (auto simp: policy_ok_def insert_snapshot_def snapshots_kept_def find_snapshot_def find_None_iff
      list_all_iff row_justified_def)

lemma loadSnapshot_Inr:
  assumes "loadSnapshot sha coll env race db = Inr (db', s)"
  shows "policy_ok db \<Longrightarrow> policy_ok db'" and "snapshots_kept db0 db \<Longrightarrow> snapshots_kept db0 db'"
    and "s \<in> set (snapshots db')" and "configuredSnapshot sha coll env = Inr c \<Longrightarrow> ps_hash s = ps_hash c"
  using assms
  by (auto simp: loadSnapshot_def Let_def find_snapshot_def [of db] find_snapshot_def [of "insert_snapshot _ _"]
      find_Some_iff intro: insert_snapshot_ok split: sum.splits option.splits if_splits)

lemma evaluate_Inr:
  assumes "evaluate sha coll db q = Inr (db', d)"
  obtains db1 s where "loadSnapshot sha coll (er_env q) (er_race q) db = Inr (db1, s)"
    and "d = evaluateProposal (er_now q) (er_proposal q) s"
    and "db' = db1\<lparr>decisions := decisions db1 @ [decision_row (er_proposal q) d]\<rparr>"
  using assms by (auto simp: evaluate_def bindE_Inr_iff Let_def)

lemma policy_step_ok: "policy_ok db \<Longrightarrow> policy_step sha coll db q = Inr db' \<Longrightarrow> policy_ok db'"
  unfolding policy_step_def bindE_Inr_iff
proof clarsimp
  fix db1 d assume ok: "policy_ok db" and "evaluate sha coll db q = Inr (db1, d)"
  from this(2) obtain db2 s where l: "loadSnapshot sha coll (er_env q) (er_race q) db = Inr (db2, s)"
    and d: "d = evaluateProposal (er_now q) (er_proposal q) s"
    and db1: "db1 = db2\<lparr>decisions := decisions db2 @ [decision_row (er_proposal q) d]\<rparr>"
    by (rule evaluate_Inr)
  have "row_justified (snapshots db2) (decision_row (er_proposal q) d)"
    using loadSnapshot_Inr(3) [OF l] d by (auto simp: row_justified_def)
  with loadSnapshot_Inr(1) [OF l ok] show "policy_ok db1" by (simp add: policy_ok_def db1)
qed

lemma snapshots_kept_decision:
  "snapshots_kept db0 db \<Longrightarrow> snapshots_kept db0 (db\<lparr>decisions := decisions db @ [row]\<rparr>)"
  by (auto simp: snapshots_kept_def)

lemma policy_step_kept:
  assumes "snapshots_kept db0 db" and "policy_step sha coll db q = Inr db'"
  shows "snapshots_kept db0 db'"
proof -
  from assms(2) obtain d where "evaluate sha coll db q = Inr (db', d)"
    by (auto simp: policy_step_def bindE_Inr_iff)
  then obtain db1 s where "loadSnapshot sha coll (er_env q) (er_race q) db = Inr (db1, s)"
    and "db' = db1\<lparr>decisions := decisions db1 @ [decision_row (er_proposal q) d]\<rparr>"
    by (rule evaluate_Inr)
  with loadSnapshot_Inr(2) [OF this(1) assms(1)] show ?thesis
    by (simp add: snapshots_kept_decision)
qed

interpretation policy_evidence: tx_machine "policy_step sha coll" policy_ok for sha coll
  by unfold_locales (rule policy_step_ok)

interpretation policy_history: tx_machine "policy_step sha coll" "snapshots_kept db0" for sha coll db0
  by unfold_locales (rule policy_step_kept)

text \<open>C38: policy versions are frozen. Whatever evaluations run, with whatever configurations and with
  concurrent transactions that freeze versions of their own, a version has one snapshot, a stored
  snapshot or decision is never changed or removed, and every stored decision is the one that a
  stored snapshot gives for the facts of its row.\<close>

theorem policy_versions_frozen:
  "let db = run_tx (policy_step sha coll) \<lparr>snapshots = [], decisions = []\<rparr> qs;
       db' = run_tx (policy_step sha coll) db qs'
   in policy_ok db' \<and> snapshots_kept db db'"
proof -
  have "policy_ok \<lparr>snapshots = [], decisions = []\<rparr>" by (simp add: policy_ok_def)
  then have "policy_ok (run_tx (policy_step sha coll) (run_tx (policy_step sha coll)
      \<lparr>snapshots = [], decisions = []\<rparr> qs) qs')"
    by (intro policy_evidence.run_inv)
  moreover have "snapshots_kept db db" for db by (simp add: snapshots_kept_def)
  ultimately show ?thesis by (simp add: Let_def policy_history.run_inv)
qed

text \<open>The rules hash does not tell an empty constraint list from an absent one, although the first
  never matches and the second always does: there are two accepted configurations with the same
  version and hash, whatever the hash function, that decide a dispatch differently. Freezing compares
  hashes, so changing one into the other is not a version conflict: the old rules stay in force.\<close>

theorem rulesHash_blind:
  "\<exists>c1 c2 s1 s2 p. parsePolicySnapshot sha coll c1 = Inr s1 \<and> parsePolicySnapshot sha coll c2 = Inr s2 \<and>
     ps_version s1 = ps_version s2 \<and> ps_hash s1 = ps_hash s2 \<and>
     d_effect (evaluateProposal now p s1) = ALLOW \<and> d_effect (evaluateProposal now p s2) = DENY \<and>
     (\<forall>rows. loadSnapshot sha coll (EnvJson c2) None \<lparr>snapshots = [s1], decisions = rows\<rparr> =
        Inr (\<lparr>snapshots = [s1], decisions = rows\<rparr>, s1))"
proof -
  let ?p = "\<lparr>p_id = ''a'', p_actionType = Dispatch,
      p_scope = \<lparr>sc_executionId = ''e'', sc_logicalStepId = None, sc_attemptNumber = None\<rparr>,
      p_target = None, p_hash = [], p_createdAt = []\<rparr>"
  have "rulesHash sha coll 1 [ex_parsed None] = rulesHash sha coll 1 [ex_parsed (Some [])]"
    by (simp add: rulesHash_def rule_js_def ex_parsed_def strings_js_def)
  then have "parsePolicySnapshot sha coll (ex_config []) = Inr
      \<lparr>ps_version = 1, ps_hash = rulesHash sha coll 1 [ex_parsed (Some [])], ps_rules = [ex_parsed None]\<rparr>"
    using ex_parse(1) [of sha coll] by simp
  moreover note ex_parse(2) [of sha coll]
  moreover have "d_effect (evaluateProposal now ?p \<lparr>ps_version = 1, ps_hash = h, ps_rules = [ex_parsed (Some [])]\<rparr>) = ALLOW"
    "d_effect (evaluateProposal now ?p \<lparr>ps_version = 1, ps_hash = h, ps_rules = [ex_parsed None]\<rparr>) = DENY" for h
    by (simp_all add: evaluateProposal_def ex_parsed_def decision_def)
  moreover from calculation(1) have
    "loadSnapshot sha coll (EnvJson (ex_config [])) None \<lparr>snapshots = [s], decisions = rows\<rparr> =
       Inr (\<lparr>snapshots = [s], decisions = rows\<rparr>, s)"
    if "s = \<lparr>ps_version = 1, ps_hash = rulesHash sha coll 1 [ex_parsed (Some [])],
        ps_rules = [ex_parsed (Some [])]\<rparr>" for rows s
    using that by (simp add: loadSnapshot_def find_snapshot_def configuredSnapshot_def)
  ultimately show ?thesis
    by (intro exI [of _ "ex_config [(''agents'', JArr [])]"] exI [of _ "ex_config []"]
          exI [of _ "\<lparr>ps_version = 1, ps_hash = rulesHash sha coll 1 [ex_parsed (Some [])],
             ps_rules = [ex_parsed (Some [])]\<rparr>"]
          exI [of _ "\<lparr>ps_version = 1, ps_hash = rulesHash sha coll 1 [ex_parsed (Some [])],
             ps_rules = [ex_parsed None]\<rparr>"] exI [of _ ?p] conjI)
       simp_all
qed

text \<open>An approval request is decided once: a transition is allowed exactly from PENDING, to one of
  the three terminal statuses, and from those there is none.\<close>

theorem assertApprovalTransition_once:
  "(\<exists>t. assertApprovalTransition a b = Inr t) \<longleftrightarrow> a = PENDING \<and> b \<noteq> PENDING"
  by (cases b) (auto simp: assertApprovalTransition_def)

end
