(* ===== verification/ExecState.thy ===== *)
theory ExecState
  imports Json
begin

text \<open>
  services/orchestrator/src/domain/execution-state.ts and services/execution-state.service.ts: the
  bounded top-level patches of an execution's state, the explicit-stack walk that sizes a JSON value,
  and the compare-and-set mutation of the locked execution row. Values here are the plain JSON trees
  of theory JSValue: no cycle, no foreign prototype, no own key of an array.
\<close>

definition maxStateKeys :: nat where "maxStateKeys = 128"
definition maxKeyLength :: nat where "maxKeyLength = 128"
definition maxPatchOperations :: nat where "maxPatchOperations = 128"
definition maxPatchBytes :: nat where "maxPatchBytes = 16 * 1024"
definition maxStateBytes :: nat where "maxStateBytes = 64 * 1024"

text \<open>The messages of \<open>ExecutionStateValidationError\<close>, one constructor per throw.\<close>

datatype state_error =
    NotPlainObject | UnknownPatchField | SetNotObject | DeleteNotArray | DeleteNotStrings | DeleteDuplicates
  | TooManyOperations | SetDeleteOverlap | PatchTooLarge | StateTooLarge | TooManyStateKeys
  | UnsafeObjectKey | NonFiniteNumber | NonJsonValue | KeyNotAllowed | KeyTooLong

definition DANGEROUS_KEYS :: "string list" where
  "DANGEROUS_KEYS = [''__proto__'', ''prototype'', ''constructor'']"

subsection \<open>Objects\<close>

text \<open>
  The order in which an object lists its keys: array indices in numeric order, then the other keys
  in the order of insertion. \<open>js_object\<close> is the object built by assigning the pairs one by one to
  distinct keys.
\<close>

definition is_index :: "string \<Rightarrow> bool" where
  "is_index k \<longleftrightarrow> (k = ''0'' \<or> (k \<noteq> [] \<and> hd k \<noteq> CHR ''0'' \<and> list_all is_digit k)) \<and>
     foldl (\<lambda>n c. 10 * n + (of_char c - 48)) (0::nat) k < 4294967295"

definition js_object :: "(string \<times> jsv) list \<Rightarrow> (string \<times> jsv) list" where
  "js_object kvs =
     sort_by (\<lambda>p q. length (fst p) < length (fst q) \<or> length (fst p) = length (fst q) \<and> fst p \<le> fst q)
       (filter (\<lambda>p. is_index (fst p)) kvs)
     @ filter (\<lambda>p. \<not> is_index (fst p)) kvs"

text \<open>Assigning one property: in place where the key exists.\<close>

fun put :: "string \<Rightarrow> 'a \<Rightarrow> (string \<times> 'a) list \<Rightarrow> (string \<times> 'a) list" where
  "put k v [] = [(k, v)]"
| "put k v ((k', v') # kvs) = (if k' = k then (k, v) # kvs else (k', v') # put k v kvs)"

subsection \<open>The size of a JSON value\<close>

fun leafUtf8Size :: "jsv \<Rightarrow> state_error + nat" where
  "leafUtf8Size (JStr s) = Inr (utf8_len (quote s))"
| "leafUtf8Size (JNum (Fin r)) = Inr (utf8_len (num_str r))"
| "leafUtf8Size (JNum _) = Inl NonFiniteNumber"
| "leafUtf8Size (JBool b) = Inr (if b then 4 else 5)"
| "leafUtf8Size JNull = Inr 4"
| "leafUtf8Size _ = Inl NonJsonValue"

text \<open>The frames of the walk: entries, keys (\<open>None\<close> for an array), index and size so far.\<close>

datatype frame = Leaf jsv | Container "jsv list" "string list option" nat nat

text \<open>What a completed value of size \<open>n\<close> does to the frame below it.\<close>

fun add_child :: "nat \<Rightarrow> frame list \<Rightarrow> frame list" where
  "add_child n (Container es None i sz # st) =
     Container es None (i + 1) (sz + n + (if i > 0 then 1 else 0)) # st"
| "add_child n (Container es (Some ks) i sz # st) =
     Container es (Some ks) (i + 1)
       (sz + utf8_len (quote (ks ! i)) + 1 + n + (if i > 0 then 1 else 0)) # st"
| "add_child n st = st"

text \<open>One turn of the loop on a non-empty stack: the stack after it and \<open>completed\<close>.\<close>

fun walk_step :: "frame list \<Rightarrow> nat \<Rightarrow> state_error + frame list \<times> nat" where
  "walk_step (Leaf (JArr vs) # st) completed = Inr (Container vs None 0 2 # st, completed)"
| "walk_step (Leaf (JObj kvs) # st) completed =
     (if \<exists>k \<in> fst ` set kvs. k \<in> set DANGEROUS_KEYS then Inl UnsafeObjectKey
      else Inr (Container (map snd kvs) (Some (map fst kvs)) 0 2 # st, completed))"
| "walk_step (Leaf v # st) completed = bindE (leafUtf8Size v) (\<lambda>n. Inr (add_child n st, n))"
| "walk_step (Container es ks i sz # st) completed =
     (if i < length es then Inr (Leaf (es ! i) # Container es ks i sz # st, completed)
      else Inr (add_child sz st, sz))"
| "walk_step [] completed = Inr ([], completed)"

text \<open>
  The measure of the walk: a frame weighs what is left to do for it; below another frame the entry at
  the index is being done.
\<close>

fun weight :: "jsv \<Rightarrow> nat" where
  "weight (JArr vs) = 2 + sum_list (map (\<lambda>v. Suc (weight v)) vs)"
| "weight (JObj kvs) = 2 + sum_list (map (\<lambda>(k, v). Suc (weight v)) kvs)"
| "weight _ = 1"

fun frame_weight :: "nat \<Rightarrow> frame \<Rightarrow> nat" where
  "frame_weight b (Leaf v) = weight v"
| "frame_weight b (Container es ks i sz) = Suc (sum_list (map (\<lambda>v. Suc (weight v)) (drop (i + b) es)))"

fun stack_weight :: "frame list \<Rightarrow> nat" where
  "stack_weight [] = 0"
| "stack_weight (f # st) = frame_weight 0 f + sum_list (map (frame_weight 1) st)"

lemma weight_pos: "0 < weight v"
  by (cases v) auto

lemma add_child_weight: "stack_weight (add_child n st) \<le> sum_list (map (frame_weight 1) st)"
proof (cases st)
  case (Cons f st')
  then show ?thesis
    by (cases "(n, st)" rule: add_child.cases) (auto simp: weight_pos)
qed simp

lemma walk_step_weight:
  "walk_step st c = Inr (st', c') \<Longrightarrow> st \<noteq> [] \<Longrightarrow> stack_weight st' < stack_weight st"
proof (cases "(st, c)" rule: walk_step.cases)
  case (2 kvs st0 c0)
  then show "walk_step st c = Inr (st', c') \<Longrightarrow> st \<noteq> [] \<Longrightarrow> stack_weight st' < stack_weight st"
    by (auto split: if_splits simp: comp_def split_beta')
next
  case (4 es ks i sz st0 c0)
  have "drop i es = es ! i # drop (Suc i) es" if "i < length es"
    using that by (simp add: Cons_nth_drop_Suc)
  with 4 add_child_weight [of sz st0]
  show "walk_step st c = Inr (st', c') \<Longrightarrow> st \<noteq> [] \<Longrightarrow> stack_weight st' < stack_weight st"
    by (auto split: if_splits)
qed (use add_child_weight in \<open>auto simp: bindE_Inr_iff less_Suc_eq_le\<close>)

function walk :: "frame list \<Rightarrow> nat \<Rightarrow> state_error + nat" where
  "walk st completed =
     (if st = [] then Inr completed
      else case walk_step st completed of
        Inl e \<Rightarrow> Inl e
      | Inr (st', completed') \<Rightarrow> walk st' completed')"
  by pat_completeness auto
termination
  by (relation "measure (\<lambda>(st, c). stack_weight st)") (auto dest: walk_step_weight)

declare walk.simps [simp del]

definition jsonValueUtf8Size :: "jsv \<Rightarrow> state_error + nat" where
  "jsonValueUtf8Size v = walk [Leaf v] 0"

subsection \<open>Patches\<close>

record state_patch =
  pt_set :: "(string \<times> jsv) list"
  pt_delete :: "string list"

definition validateStateKey :: "string \<Rightarrow> state_error + unit" where
  "validateStateKey k =
     (if k \<in> set DANGEROUS_KEYS then Inl KeyNotAllowed
      else if length k > maxKeyLength then Inl KeyTooLong else Inr ())"

definition parse_set :: "jsv \<Rightarrow> state_error + (string \<times> jsv) list" where
  "parse_set v =
     (if v = JUndef then Inr []
      else if \<not> is_record v then Inl SetNotObject
      else bindE (forE (\<lambda>(k, x). bindE (validateStateKey k) (\<lambda>_.
                    bindE (jsonValueUtf8Size x) (\<lambda>_. Inr ()))) (entries v))
        (\<lambda>_. Inr (entries v)))"

definition delete_key :: "jsv \<Rightarrow> state_error + string" where
  "delete_key v = (case v of
       JStr k \<Rightarrow> bindE (validateStateKey k) (\<lambda>_. Inr k)
     | _ \<Rightarrow> Inl DeleteNotStrings)"

definition parse_delete :: "jsv \<Rightarrow> state_error + string list" where
  "parse_delete v =
     (if v = JUndef then Inr []
      else case v of
        JArr ks \<Rightarrow> bindE (mapE delete_key ks) (\<lambda>ks.
          if \<not> distinct ks then Inl DeleteDuplicates else Inr ks)
      | _ \<Rightarrow> Inl DeleteNotArray)"

definition patch_js :: "(string \<times> jsv) list \<Rightarrow> string list \<Rightarrow> jsv" where
  "patch_js sets dels = JObj ((if sets \<noteq> [] then [(''set'', JObj sets)] else [])
     @ (if dels \<noteq> [] then [(''delete'', JArr (map JStr dels))] else []))"

definition validateStatePatch :: "jsv \<Rightarrow> state_error + state_patch" where
  "validateStatePatch v =
     (if \<not> is_record v then Inl NotPlainObject
      else if \<exists>k \<in> fst ` set (entries v). k \<noteq> ''set'' \<and> k \<noteq> ''delete'' then Inl UnknownPatchField
      else bindE (parse_set (getp v ''set'')) (\<lambda>sets.
        bindE (parse_delete (getp v ''delete'')) (\<lambda>dels.
          if length sets + length dels > maxPatchOperations then Inl TooManyOperations
          else if \<exists>k \<in> fst ` set sets. k \<in> set dels then Inl SetDeleteOverlap
          else bindE (jsonValueUtf8Size (patch_js sets dels)) (\<lambda>n.
            if n > maxPatchBytes then Inl PatchTooLarge
            else Inr \<lparr>pt_set = sets, pt_delete = dels\<rparr>))))"

text \<open>
  \<open>jsonValueEqual\<close> compares the canonical texts; the call stack is taken to suffice, so the
  \<open>catch\<close> is not modelled.
\<close>

definition jsonValueEqual :: "(string \<Rightarrow> string \<Rightarrow> bool) \<Rightarrow> jsv \<Rightarrow> jsv \<Rightarrow> bool" where
  "jsonValueEqual coll l r \<longleftrightarrow> canonicalJson coll l = canonicalJson coll r"

text \<open>The two loops that fill \<open>result\<close>, with the flag \<open>changed\<close>.\<close>

definition keep_loop ::
  "string list \<Rightarrow> (string \<times> jsv) list \<Rightarrow> (string \<times> jsv) list \<times> bool" where
  "keep_loop removed state =
     (filter (\<lambda>p. fst p \<notin> set removed) state, \<exists>p \<in> set state. fst p \<in> set removed)"

fun set_loop ::
  "(string \<Rightarrow> string \<Rightarrow> bool) \<Rightarrow> (string \<times> jsv) list \<Rightarrow> (string \<times> jsv) list \<Rightarrow>
     (string \<times> jsv) list \<times> bool \<Rightarrow> (string \<times> jsv) list \<times> bool" where
  "set_loop coll state [] acc = acc"
| "set_loop coll state ((k, v) # kvs) (result, changed) =
     (case map_of state k of
        Some old \<Rightarrow>
          if jsonValueEqual coll old v then set_loop coll state kvs (result, changed)
          else set_loop coll state kvs (put k v result, True)
      | None \<Rightarrow> set_loop coll state kvs (put k v result, True))"

definition applyStatePatch ::
  "(string \<Rightarrow> string \<Rightarrow> bool) \<Rightarrow> (string \<times> jsv) list \<Rightarrow> state_patch \<Rightarrow> (string \<times> jsv) list \<times> bool" where
  "applyStatePatch coll state p =
     (let (result, changed) = set_loop coll state (pt_set p) (keep_loop (pt_delete p) state)
      in if \<not> changed then (state, False)
         else (js_object (sort_by (\<lambda>p q. fst p \<le> fst q) result), True))"

subsection \<open>The service\<close>

datatype execution_status = Pending | Running | Waiting | Completed | Failed | Cancelled

record execution_row =
  x_id :: string
  x_status :: execution_status
  x_state :: "(string \<times> jsv) list option"
  x_version :: int
  x_updatedAt :: "int option"

definition TERMINAL_EXECUTION_STATUSES :: "execution_status list" where
  "TERMINAL_EXECUTION_STATUSES = [Completed, Failed, Cancelled]"

datatype mutation =
    Applied int "(string \<times> jsv) list"
  | Noop int "(string \<times> jsv) list"
  | Conflict int
  | Missing
  | Terminal execution_status

definition find_row :: "execution_row list \<Rightarrow> string \<Rightarrow> execution_row option" where
  "find_row rows i = find (\<lambda>x. x_id x = i) rows"

definition save_row :: "execution_row list \<Rightarrow> execution_row \<Rightarrow> execution_row list" where
  "save_row rows x = map (\<lambda>y. if x_id y = x_id x then x else y) rows"

definition current_state :: "execution_row \<Rightarrow> (string \<times> jsv) list" where
  "current_state x = (case x_state x of None \<Rightarrow> [] | Some s \<Rightarrow> s)"

definition read_state ::
  "execution_row list \<Rightarrow> string \<Rightarrow> ((string \<times> jsv) list \<times> int \<times> int option) option" where
  "read_state rows i =
     map_option (\<lambda>x. (current_state x, x_version x, x_updatedAt x)) (find_row rows i)"

definition mutate ::
  "(string \<Rightarrow> string \<Rightarrow> bool) \<Rightarrow> int \<Rightarrow> execution_row list \<Rightarrow> string \<Rightarrow> int \<Rightarrow> jsv \<Rightarrow>
     state_error + execution_row list \<times> mutation" where
  "mutate coll now rows i expectedVersion patch =
     bindE (validateStatePatch patch) (\<lambda>p.
       case find_row rows i of
         None \<Rightarrow> Inr (rows, Missing)
       | Some x \<Rightarrow>
           if x_status x \<in> set TERMINAL_EXECUTION_STATUSES then Inr (rows, Terminal (x_status x))
           else if x_version x \<noteq> expectedVersion then Inr (rows, Conflict (x_version x))
           else let (state, changed) = applyStatePatch coll (current_state x) p
             in if \<not> changed then Inr (rows, Noop expectedVersion state)
                else bindE (jsonValueUtf8Size (JObj state)) (\<lambda>n.
                  if n > maxStateBytes then Inl StateTooLarge
                  else if length state > maxStateKeys then Inl TooManyStateKeys
                  else Inr (save_row rows (x\<lparr>x_state := Some state, x_version := expectedVersion + 1,
                              x_updatedAt := Some now\<rparr>),
                            Applied (expectedVersion + 1) state)))"

end
