(* ===== verification/ExecState_Properties.thy ===== *)
theory ExecState_Properties
  imports ExecState
begin

text \<open>
  The properties of execution state (theory ExecState): the walk computes the exact size of the
  serialised value, a patch does to every key what it says, and mutations are compare-and-set steps
  that keep the stored states within their bounds.
\<close>

subsection \<open>The walk is the recursive size\<close>

fun arr_size :: "nat \<Rightarrow> nat list \<Rightarrow> nat" where
  "arr_size i [] = 0"
| "arr_size i (n # ns) = n + (if i > 0 then 1 else 0) + arr_size (Suc i) ns"

fun json_size :: "jsv \<Rightarrow> state_error + nat" where
  "json_size (JArr vs) = bindE (sequence (map json_size vs)) (\<lambda>ns. Inr (2 + arr_size 0 ns))"
| "json_size (JObj kvs) =
     (if \<exists>k \<in> fst ` set kvs. k \<in> set DANGEROUS_KEYS then Inl UnsafeObjectKey
      else bindE (sequence (map (\<lambda>(k, v). bindE (json_size v) (\<lambda>n. Inr (utf8_len (quote k) + 1 + n))) kvs))
        (\<lambda>ns. Inr (2 + arr_size 0 ns)))"
| "json_size v = leafUtf8Size v"

definition then_walk :: "frame list \<Rightarrow> state_error + nat \<Rightarrow> state_error + nat" where
  "then_walk st m = bindE m (\<lambda>n. walk (add_child n st) n)"

lemma walk_array:
  assumes "\<And>v st c. v \<in> set es \<Longrightarrow> walk (Leaf v # st) c = then_walk st (json_size v)"
    and "i \<le> length es"
  shows "walk (Container es None i sz # st) c =
    then_walk st (bindE (sequence (map json_size (drop i es))) (\<lambda>ns. Inr (sz + arr_size i ns)))"
  using assms(2)
proof (induction "length es - i" arbitrary: i sz c)
  case 0
  then show ?case by (subst walk.simps) (simp add: then_walk_def)
next
  case (Suc n)
  then have i: "i < length es" and d: "drop i es = es ! i # drop (Suc i) es"
    by (auto simp: Cons_nth_drop_Suc)
  have IH: "walk (Container es None (Suc i) sz' # st) c' =
      then_walk st (bindE (sequence (map json_size (drop (Suc i) es))) (\<lambda>ns. Inr (sz' + arr_size (Suc i) ns)))"
    for sz' c' using Suc by auto
  have "walk (Container es None i sz # st) c = walk (Leaf (es ! i) # Container es None i sz # st) c"
    using i by (subst walk.simps) simp
  also have "\<dots> = then_walk (Container es None i sz # st) (json_size (es ! i))"
    using i by (intro assms(1)) simp
  finally show ?case
    using i by (cases "json_size (es ! i)")
      (auto simp: then_walk_def d IH bindE_def add.assoc split: sum.split)
qed

lemma walk_object:
  assumes "\<And>v st c. v \<in> snd ` set kvs \<Longrightarrow> walk (Leaf v # st) c = then_walk st (json_size v)"
    and "i \<le> length kvs"
  shows "walk (Container (map snd kvs) (Some (map fst kvs)) i sz # st) c =
    then_walk st (bindE (sequence (map (\<lambda>(k, v). bindE (json_size v) (\<lambda>n. Inr (utf8_len (quote k) + 1 + n)))
      (drop i kvs))) (\<lambda>ns. Inr (sz + arr_size i ns)))"
  using assms(2)
proof (induction "length kvs - i" arbitrary: i sz c)
  case 0
  then show ?case by (subst walk.simps) (simp add: then_walk_def)
next
  case (Suc n)
  let ?C = "\<lambda>i sz. Container (map snd kvs) (Some (map fst kvs)) i sz"
  let ?f = "\<lambda>(k, v). bindE (json_size v) (\<lambda>n. Inr (utf8_len (quote k) + 1 + n))"
  from Suc have i: "i < length kvs" and d: "drop i kvs = kvs ! i # drop (Suc i) kvs"
    by (auto simp: Cons_nth_drop_Suc)
  have IH: "walk (?C (Suc i) sz' # st) c' =
      then_walk st (bindE (sequence (map ?f (drop (Suc i) kvs))) (\<lambda>ns. Inr (sz' + arr_size (Suc i) ns)))"
    for sz' c' using Suc by auto
  have "walk (?C i sz # st) c = walk (Leaf (snd (kvs ! i)) # ?C i sz # st) c"
    using i by (subst walk.simps) simp
  also have "\<dots> = then_walk (?C i sz # st) (json_size (snd (kvs ! i)))"
    using i by (intro assms(1)) simp
  finally show ?case
    using i by (cases "json_size (snd (kvs ! i))")
      (auto simp: then_walk_def d IH bindE_def case_prod_beta add.assoc split: sum.split)
qed

lemma walk_json_size: "walk (Leaf v # st) c = then_walk st (json_size v)"
proof (induction v arbitrary: st c)
  case (JArr vs)
  have "walk (Leaf (JArr vs) # st) c = walk (Container vs None 0 2 # st) c"
    by (subst walk.simps) simp
  with walk_array [of vs 0 2 st c] JArr.IH show ?case by simp
next
  case (JObj kvs)
  show ?case
  proof (cases "\<exists>k \<in> fst ` set kvs. k \<in> set DANGEROUS_KEYS")
    case True
    then show ?thesis by (subst walk.simps) (auto simp: then_walk_def)
  next
    case False
    then have "walk (Leaf (JObj kvs) # st) c = walk (Container (map snd kvs) (Some (map fst kvs)) 0 2 # st) c"
      by (subst walk.simps) simp
    moreover have "walk (Leaf v # st') c' = then_walk st' (json_size v)" if "v \<in> snd ` set kvs" for v st' c'
      using that JObj.IH by fastforce
    ultimately show ?thesis using walk_object [of kvs 0 2 st c] False by simp
  qed
qed (subst walk.simps, auto simp: then_walk_def bindE_def split: sum.split)+

lemma jsonValueUtf8Size_rec: "jsonValueUtf8Size v = json_size v"
proof -
  have "walk [] n = Inr n" for n by (subst walk.simps) simp
  then show ?thesis
    by (cases "json_size v") (simp_all add: jsonValueUtf8Size_def walk_json_size then_walk_def)
qed

subsection \<open>The recursive size is the size of the text\<close>

text \<open>What may be stored: no undefined, NaN or infinity, and no prototype key, at any depth.\<close>

fun json_safe :: "jsv \<Rightarrow> bool" where
  "json_safe JUndef = False"
| "json_safe (JNum n) = (case n of Fin _ \<Rightarrow> True | _ \<Rightarrow> False)"
| "json_safe (JArr vs) = list_all json_safe vs"
| "json_safe (JObj kvs) = (list_all (\<lambda>k. k \<notin> set DANGEROUS_KEYS) (map fst kvs) \<and>
     list_all (\<lambda>(k, v). json_safe v) kvs)"
| "json_safe _ = True"

lemma sequence_all2: "sequence ms = Inr xs \<longleftrightarrow> list_all2 (\<lambda>m x. m = Inr x) ms xs"
  by (induction ms arbitrary: xs) (auto simp: bindE_Inr_iff list_all2_Cons1)

lemma arr_size_eq: "arr_size 0 ns = sum_list ns + (length ns - 1)"
proof -
  have "0 < i \<Longrightarrow> arr_size i ns = sum_list ns + length ns" for i ns
    by (induction ns arbitrary: i) auto
  then show ?thesis by (cases ns) auto
qed

lemma utf8_len_join: "utf8_len (join '','' ts) = sum_list (map utf8_len ts) + (length ts - 1)"
  by (induction "'',''" ts rule: join.induct) auto

lemma json_safe_stringify: "json_safe v \<Longrightarrow> \<exists>t. stringify v = Some t"
  by (cases v) auto

definition size_ok :: "jsv \<Rightarrow> bool" where
  "size_ok v \<longleftrightarrow> (\<forall>n. json_size v = Inr n \<longleftrightarrow> json_safe v \<and> json_bytes v = Some n)"

lemma size_ok_leaf: "json_size v = leafUtf8Size v \<Longrightarrow> \<forall>vs. v \<noteq> JArr vs \<Longrightarrow> \<forall>kvs. v \<noteq> JObj kvs \<Longrightarrow> size_ok v"
  by (cases v rule: leafUtf8Size.cases) (auto simp: size_ok_def json_bytes_def)

lemma size_ok_array:
  assumes "\<And>v. v \<in> set vs \<Longrightarrow> size_ok v"
  shows "size_ok (JArr vs)"
proof -
  let ?t = "\<lambda>v. the (stringify v)"
  have str: "map (\<lambda>t. case t of None \<Rightarrow> ''null'' | Some t \<Rightarrow> t) (map stringify vs) = map ?t vs"
    if "list_all json_safe vs"
    using that by (induction vs) (auto simp: stringify_None_iff split: option.split)
  have "sequence (map json_size vs) = Inr ns \<longleftrightarrow>
      list_all json_safe vs \<and> ns = map (\<lambda>v. utf8_len (?t v)) vs" for ns
    using assms
  proof (induction vs arbitrary: ns)
    case (Cons v vs)
    have "json_size v = Inr n \<longleftrightarrow> json_safe v \<and> n = utf8_len (?t v)" for n
      using Cons.prems [of v] by (cases v) (auto simp: size_ok_def json_bytes_def)
    with Cons.IH Cons.prems show ?case by (auto simp: bindE_Inr_iff)
  qed auto
  then have eq: "json_size (JArr vs) = Inr n \<longleftrightarrow>
      list_all json_safe vs \<and> n = 2 + arr_size 0 (map (\<lambda>v. utf8_len (?t v)) vs)" for n
    by (auto simp: bindE_Inr_iff)
  have bytes: "json_bytes (JArr vs) = Some (2 + arr_size 0 (map (\<lambda>v. utf8_len (?t v)) vs))"
    if "list_all json_safe vs"
    unfolding json_bytes_def stringify.simps str [OF that]
    by (simp add: arr_size_eq utf8_len_join comp_def)
  show ?thesis unfolding size_ok_def eq using bytes by (cases "list_all json_safe vs") auto
qed

lemma size_ok_object:
  assumes "\<And>k v. (k, v) \<in> set kvs \<Longrightarrow> size_ok v"
  shows "size_ok (JObj kvs)"
proof -
  let ?t = "\<lambda>(k, v). member (k, the (stringify v))"
  have str: "map (\<lambda>(k, t). member (k, the t)) (filter (\<lambda>(k, t). t \<noteq> None)
      (map (\<lambda>(k, v). (k, stringify v)) kvs)) = map ?t kvs" if "list_all (\<lambda>(k, v). json_safe v) kvs"
    using that by (induction kvs) (auto dest: json_safe_stringify)
  let ?f = "\<lambda>(k, v). bindE (json_size v) (\<lambda>n. Inr (utf8_len (quote k) + 1 + n))"
  have "sequence (map ?f kvs) = Inr ns \<longleftrightarrow>
      list_all (\<lambda>(k, v). json_safe v) kvs \<and> ns = map (\<lambda>p. utf8_len (?t p)) kvs" for ns
    using assms
  proof (induction kvs arbitrary: ns)
    case (Cons p kvs)
    obtain k v where p: "p = (k, v)" by (cases p)
    have "json_size v = Inr n \<longleftrightarrow> json_safe v \<and> n = utf8_len (the (stringify v))" for n
      using Cons.prems [of k v] p by (cases v) (auto simp: size_ok_def json_bytes_def)
    then have "?f p = Inr n \<longleftrightarrow> json_safe v \<and> n = utf8_len (?t p)" for n
      by (auto simp: bindE_Inr_iff p member_def)
    with Cons.IH Cons.prems p show ?case by (auto simp: bindE_Inr_iff)
  qed auto
  then have eq: "json_size (JObj kvs) = Inr n \<longleftrightarrow> json_safe (JObj kvs) \<and>
      n = 2 + arr_size 0 (map (\<lambda>p. utf8_len (?t p)) kvs)" for n
    unfolding json_size.simps bindE_Inr_iff by (auto simp: list_all_iff bindE_Inr_iff)
  have bytes: "json_bytes (JObj kvs) = Some (2 + arr_size 0 (map (\<lambda>p. utf8_len (?t p)) kvs))"
    if "json_safe (JObj kvs)"
  proof -
    from that have "list_all (\<lambda>(k, v). json_safe v) kvs" by simp
    from str [OF this] show ?thesis
      unfolding json_bytes_def stringify.simps by (simp add: arr_size_eq utf8_len_join comp_def)
  qed
  show ?thesis
    unfolding size_ok_def eq using bytes by (cases "json_safe (JObj kvs)") (auto simp del: json_safe.simps)
qed

lemma size_ok: "size_ok v"
proof (induction v)
  case (JArr vs)
  then show ?case by (rule size_ok_array)
next
  case (JObj kvs)
  then show ?case by (intro size_ok_object) auto
qed (rule size_ok_leaf; simp)+

lemma jsonValueUtf8Size_Inr: "jsonValueUtf8Size v = Inr n \<longleftrightarrow> json_safe v \<and> json_bytes v = Some n"
  using size_ok [of v] by (simp add: jsonValueUtf8Size_rec size_ok_def)

text \<open>C37: the explicit-stack walk counts exactly: it returns a size for the values that are valid JSON
  with no prototype key, and the size is the number of UTF-8 bytes of \<open>JSON.stringify\<close>.\<close>

theorem jsonValueUtf8Size_exact:
  "jsonValueUtf8Size v = Inr n \<longleftrightarrow> json_safe v \<and> json_bytes v = Some n"
  by (rule jsonValueUtf8Size_Inr)

subsection \<open>Patches\<close>

lemma map_of_put [simp]: "map_of (put k v kvs) = (map_of kvs)(k \<mapsto> v)"
  by (induction k v kvs rule: put.induct) auto

lemma keys_put [simp]: "fst ` set (put k v kvs) = insert k (fst ` set kvs)"
  by (induction k v kvs rule: put.induct) auto

lemma distinct_put [simp]: "distinct (map fst (put k v kvs)) \<longleftrightarrow> distinct (map fst kvs)"
  by (induction k v kvs rule: put.induct) (auto simp del: keys_put simp: keys_put [simplified] image_iff
      dest: arg_cong [OF keys_put, of "\<lambda>A. _ \<in> A", THEN iffD1])

definition same_as_set :: "(string \<Rightarrow> string \<Rightarrow> bool) \<Rightarrow> (string \<times> jsv) list \<Rightarrow> string \<Rightarrow> jsv \<Rightarrow> bool" where
  "same_as_set coll state k v \<longleftrightarrow> (\<exists>old. map_of state k = Some old \<and> jsonValueEqual coll old v)"

lemma set_loop_map:
  assumes "distinct (map fst kvs)"
  shows "map_of (fst (set_loop coll state kvs (r, c))) k =
    (case map_of kvs k of None \<Rightarrow> map_of r k
     | Some v \<Rightarrow> if same_as_set coll state k v then map_of r k else Some v)"
  using assms
proof (induction kvs arbitrary: r c)
  case (Cons p kvs)
  obtain k' v' where p: "p = (k', v')" by (cases p)
  have "map_of kvs k' = None" using Cons.prems p by (simp add: map_of_eq_None_iff)
  then show ?case
    using Cons p by (auto simp: same_as_set_def split: option.splits)
qed simp

lemma set_loop_changed:
  "snd (set_loop coll state kvs (r, c)) \<longleftrightarrow> c \<or> (\<exists>(k, v) \<in> set kvs. \<not> same_as_set coll state k v)"
proof (induction kvs arbitrary: r c)
  case (Cons p kvs)
  then show ?case by (cases p) (auto simp: same_as_set_def split: option.splits)
qed simp

lemma set_loop_distinct:
  "distinct (map fst (fst (set_loop coll state kvs (r, c)))) \<longleftrightarrow> distinct (map fst r)"
proof (induction kvs arbitrary: r c)
  case (Cons p kvs)
  then show ?case by (cases p) (auto split: option.splits)
qed simp

lemma mset_js_object [simp]: "mset (js_object kvs) = mset kvs"
  by (simp add: js_object_def)

lemma map_of_mset: "distinct (map fst xs) \<Longrightarrow> mset xs = mset ys \<Longrightarrow> map_of xs = map_of ys"
  by (metis map_of_inject_set mset_eq_imp_distinct_iff mset_map set_mset_mset)

lemma keys_mset: "mset xs = mset ys \<Longrightarrow> distinct (map fst xs) = distinct (map fst ys)"
  by (metis mset_eq_imp_distinct_iff mset_map)

definition patch_disjoint :: "state_patch \<Rightarrow> bool" where
  "patch_disjoint p \<longleftrightarrow> distinct (map fst (pt_set p)) \<and> (\<forall>k \<in> set (pt_delete p). k \<notin> fst ` set (pt_set p))"

text \<open>A patch does to every key what it says: a set key gets its value (or keeps one with the same
  canonical text), a deleted key is gone, every other key keeps its value; when the patch reports no
  change the state is the one it got.\<close>

theorem applyStatePatch_effect:
  assumes "distinct (map fst state)" and "patch_disjoint p"
    and "applyStatePatch coll state p = (state', changed)"
  shows "distinct (map fst state') \<and> (changed \<or> state' = state) \<and>
    (case map_of (pt_set p) k of
       Some v \<Rightarrow> \<exists>w. map_of state' k = Some w \<and> jsonValueEqual coll w v
     | None \<Rightarrow> map_of state' k = (if k \<in> set (pt_delete p) then None else map_of state k))"
proof -
  let ?kept = "filter (\<lambda>q. fst q \<notin> set (pt_delete p)) state"
  let ?c = "\<exists>q \<in> set state. fst q \<in> set (pt_delete p)"
  let ?r = "fst (set_loop coll state (pt_set p) (?kept, ?c))"
  have dset: "distinct (map fst (pt_set p))"
    and dis: "k \<in> set (pt_delete p) \<Longrightarrow> map_of (pt_set p) k = None" for k
    using assms(2) by (auto simp: patch_disjoint_def map_of_eq_None_iff)
  have kept: "map_of ?kept k = (if k \<in> set (pt_delete p) then None else map_of state k)" for k
    using map_of_filter_key [of "\<lambda>k. k \<notin> set (pt_delete p)" state k] by simp
  have dist: "distinct (map fst ?r)"
    using assms(1) by (simp add: set_loop_distinct distinct_map_filter)
  have eq: "(state', changed) = (if snd (set_loop coll state (pt_set p) (?kept, ?c))
      then (js_object (sort_by (\<lambda>p q. fst p \<le> fst q) ?r), True) else (state, False))"
    using assms(3) by (auto simp: applyStatePatch_def keep_loop_def case_prod_beta split: if_splits)
  show ?thesis
  proof (cases "snd (set_loop coll state (pt_set p) (?kept, ?c))")
    case True
    with eq have st: "state' = js_object (sort_by (\<lambda>p q. fst p \<le> fst q) ?r)" "changed" by auto
    then have ms: "mset state' = mset ?r" by simp
    from map_of_mset [OF dist ms [symmetric]] have "map_of state' k = map_of ?r k" for k by simp
    moreover have "distinct (map fst state')" using keys_mset [OF ms] dist by simp
    ultimately show ?thesis
      using st(2) dis [of k] by (auto simp: set_loop_map [OF dset] kept same_as_set_def jsonValueEqual_def
          split: option.split)
  next
    case False
    with eq have st: "state' = state" by simp
    from False have none: "\<not> ?c" and same: "\<forall>(k, v) \<in> set (pt_set p). same_as_set coll state k v"
      by (auto simp: set_loop_changed)
    from none have "k \<in> set (pt_delete p) \<Longrightarrow> map_of state k = None"
      by (auto simp: map_of_eq_None_iff)
    with st same assms(1) show ?thesis
      by (auto simp: same_as_set_def split: option.split dest!: map_of_SomeD)
  qed
qed

text \<open>A concrete patch, with code-unit order as the collation.\<close>

definition ex_coll :: "string \<Rightarrow> string \<Rightarrow> bool" where
  "ex_coll a b \<longleftrightarrow> a \<le> b"

definition ex_patch :: state_patch where
  "ex_patch = \<lparr>pt_set = [(''b'', JBool True), (''a'', JStr ''x'')], pt_delete = [''c'']\<rparr>"

lemma ex_apply:
  "applyStatePatch ex_coll [(''a'', JStr ''x''), (''c'', JNull)] ex_patch =
     ([(''a'', JStr ''x''), (''b'', JBool True)], True)"
  by (simp add: applyStatePatch_def keep_loop_def ex_patch_def jsonValueEqual_def js_object_def is_index_def
      is_digit_def)

theorem applyStatePatch_effect_witness:
  "map_of [(''a'', JStr ''x''), (''b'', JBool True)] ''c'' = None"
  using applyStatePatch_effect [OF _ _ ex_apply, of "''c''"] by (simp add: ex_patch_def patch_disjoint_def)

subsection \<open>Mutations\<close>

lemma find_row_save:
  "find_row (save_row rows x) j =
     (if j = x_id x \<and> find_row rows j \<noteq> None then Some x else find_row rows j)"
  by (induction rows) (auto simp: find_row_def save_row_def)

lemma find_row_Some: "find_row rows i = Some x \<Longrightarrow> x \<in> set rows \<and> x_id x = i"
  by (auto simp: find_row_def find_Some_iff)

definition bumped :: "execution_row \<Rightarrow> (string \<times> jsv) list \<Rightarrow> int \<Rightarrow> execution_row" where
  "bumped x state now = x\<lparr>x_state := Some state, x_version := x_version x + 1, x_updatedAt := Some now\<rparr>"

lemma mutate_Applied:
  assumes "mutate coll now rows i v patch = Inr (rows', Applied n state)"
  obtains x p where "validateStatePatch patch = Inr p" and "find_row rows i = Some x"
    and "x_status x \<notin> set TERMINAL_EXECUTION_STATUSES" and "x_version x = v" and "n = v + 1"
    and "applyStatePatch coll (current_state x) p = (state, True)"
    and "\<exists>b. jsonValueUtf8Size (JObj state) = Inr b \<and> b \<le> maxStateBytes" and "length state \<le> maxStateKeys"
    and "rows' = save_row rows (bumped x state now)"
proof -
  from assms obtain p where p: "validateStatePatch patch = Inr p" by (auto simp: mutate_def bindE_Inr_iff)
  with assms obtain x where x: "find_row rows i = Some x" by (auto simp: mutate_def split: option.splits)
  obtain s changed where a: "applyStatePatch coll (current_state x) p = (s, changed)" by fastforce
  with assms p x have "x_status x \<notin> set TERMINAL_EXECUTION_STATUSES" "x_version x = v" "changed"
    by (auto simp: mutate_def split: if_splits)
  moreover from this assms p x a obtain b where "jsonValueUtf8Size (JObj s) = Inr b" "b \<le> maxStateBytes"
    "length s \<le> maxStateKeys" "s = state" "n = v + 1" "rows' = save_row rows (bumped x s now)"
    by (auto simp: mutate_def bindE_Inr_iff bumped_def split: if_splits)
  ultimately show ?thesis using that [OF p x] a by auto
qed

lemma mutate_not_Applied:
  assumes "mutate coll now rows i v patch = Inr (rows', res)" and "\<forall>n s. res \<noteq> Applied n s"
  shows "rows' = rows"
proof -
  from assms(1) obtain p where p: "validateStatePatch patch = Inr p" by (auto simp: mutate_def bindE_Inr_iff)
  show ?thesis
  proof (cases "find_row rows i")
    case None
    with assms(1) p show ?thesis by (simp add: mutate_def)
  next
    case (Some x)
    obtain state changed where "applyStatePatch coll (current_state x) p = (state, changed)" by fastforce
    with assms p Some show ?thesis by (auto simp: mutate_def bindE_Inr_iff split: if_splits)
  qed
qed

text \<open>A mutation writes only when it is applied: the row was there, not terminal, and had the
  expected version; it then has the patched state and the next version, and no other row changes. With
  any other disposition nothing is written.\<close>

theorem mutate_effect:
  assumes "mutate coll now rows i v patch = Inr (rows', res)"
  shows "case res of
      Applied n state \<Rightarrow> n = v + 1 \<and> (\<exists>x. find_row rows i = Some x \<and> x_version x = v \<and>
        x_status x \<notin> set TERMINAL_EXECUTION_STATUSES \<and> find_row rows' i = Some (bumped x state now)) \<and>
        (\<forall>j. j \<noteq> i \<longrightarrow> find_row rows' j = find_row rows j)
    | _ \<Rightarrow> rows' = rows"
proof (cases res)
  case (Applied n state)
  with assms have "mutate coll now rows i v patch = Inr (rows', Applied n state)" by simp
  then obtain x where x: "find_row rows i = Some x"
    "x_status x \<notin> set TERMINAL_EXECUTION_STATUSES" "x_version x = v" "n = v + 1"
    "rows' = save_row rows (bumped x state now)"
    by (rule mutate_Applied)
  moreover have "x_id (bumped x state now) = i" using find_row_Some [OF x(1)] by (simp add: bumped_def)
  ultimately show ?thesis using Applied by (simp add: find_row_save)
qed (use mutate_not_Applied [OF assms] in auto)

text \<open>C35: no update is lost: of two mutations that expect the same version, the second one to get the
  row lock is never applied.\<close>

theorem mutate_cas:
  assumes "mutate coll now rows i v patch = Inr (rows', Applied n state)"
  shows "mutate coll now' rows' i v patch' \<noteq> Inr (rows'', Applied n' state')"
proof
  assume "mutate coll now' rows' i v patch' = Inr (rows'', Applied n' state')"
  then obtain x' where x': "find_row rows' i = Some x'" "x_version x' = v" by (rule mutate_Applied)
  from assms obtain x where x: "find_row rows i = Some x" "x_version x = v" "rows' = save_row rows (bumped x state now)"
    by (rule mutate_Applied)
  then have "x_id (bumped x state now) = i" using find_row_Some [OF x(1)] by (simp add: bumped_def)
  with x have "find_row rows' i = Some (bumped x state now)" by (simp add: find_row_save)
  with x' x(2) show False by (auto simp: bumped_def)
qed

definition ex_rows :: "execution_row list" where
  "ex_rows = [\<lparr>x_id = ''e'', x_status = Running, x_state = None, x_version = 4, x_updatedAt = None\<rparr>]"

definition ex_input :: jsv where
  "ex_input = JObj [(''set'', JObj [(''k'', JBool True)])]"

lemma ex_validate: "validateStatePatch ex_input = Inr \<lparr>pt_set = [(''k'', JBool True)], pt_delete = []\<rparr>"
  by (simp add: validateStatePatch_def ex_input_def parse_set_def parse_delete_def validateStateKey_def
      DANGEROUS_KEYS_def maxKeyLength_def maxPatchOperations_def maxPatchBytes_def patch_js_def
      jsonValueUtf8Size_rec quote_def escape_char_def)

lemma ex_mutate:
  "mutate ex_coll 9 ex_rows ''e'' 4 ex_input =
     Inr ([\<lparr>x_id = ''e'', x_status = Running, x_state = Some [(''k'', JBool True)], x_version = 5,
            x_updatedAt = Some 9\<rparr>], Applied 5 [(''k'', JBool True)])"
  by (simp add: mutate_def ex_validate ex_rows_def find_row_def TERMINAL_EXECUTION_STATUSES_def
      applyStatePatch_def keep_loop_def current_state_def js_object_def is_index_def is_digit_def
      jsonValueUtf8Size_rec DANGEROUS_KEYS_def quote_def escape_char_def maxStateBytes_def maxStateKeys_def
      save_row_def)

theorem mutate_effect_witness:
  "map x_version [\<lparr>x_id = ''e'', x_status = Running, x_state = Some [(''k'', JBool True)], x_version = 5,
     x_updatedAt = Some 9\<rparr>] = [5]"
  using mutate_effect [OF ex_mutate] by (auto simp: find_row_def ex_rows_def bumped_def)

theorem mutate_cas_witness:
  "mutate ex_coll 10 [\<lparr>x_id = ''e'', x_status = Running, x_state = Some [(''k'', JBool True)], x_version = 5,
     x_updatedAt = Some 9\<rparr>] ''e'' 4 ex_input \<noteq> Inr ([], Applied 5 [])"
  by (rule mutate_cas [OF ex_mutate])

text \<open>The machine of mutations and what it keeps.\<close>

record mutate_request =
  mr_now :: int
  mr_id :: string
  mr_version :: int
  mr_patch :: jsv

definition mutate_tx ::
  "(string \<Rightarrow> string \<Rightarrow> bool) \<Rightarrow> execution_row list \<Rightarrow> mutate_request \<Rightarrow> state_error + execution_row list" where
  "mutate_tx coll rows q =
     bindE (mutate coll (mr_now q) rows (mr_id q) (mr_version q) (mr_patch q)) (\<lambda>res. Inr (fst res))"

definition state_ok :: "(string \<times> jsv) list \<Rightarrow> bool" where
  "state_ok s \<longleftrightarrow> distinct (map fst s) \<and> length s \<le> maxStateKeys \<and> json_safe (JObj s) \<and>
     (\<exists>n. json_bytes (JObj s) = Some n \<and> n \<le> maxStateBytes)"

definition rows_ok :: "execution_row list \<Rightarrow> bool" where
  "rows_ok rows \<longleftrightarrow> list_all (\<lambda>x. state_ok (current_state x)) rows"

lemma applyStatePatch_distinct:
  "distinct (map fst state) \<Longrightarrow> applyStatePatch coll state p = (state', c) \<Longrightarrow> distinct (map fst state')"
proof -
  assume "distinct (map fst state)" and a: "applyStatePatch coll state p = (state', c)"
  then have "distinct (map fst (fst (set_loop coll state (pt_set p) (keep_loop (pt_delete p) state))))"
    by (simp add: keep_loop_def set_loop_distinct distinct_map_filter)
  with a \<open>distinct (map fst state)\<close> show "distinct (map fst state')"
    using keys_mset [of "js_object (sort_by (\<lambda>p q. fst p \<le> fst q) r)" r for r]
    by (auto simp: applyStatePatch_def Let_def case_prod_beta split: if_splits)
qed

lemma patched_state_ok:
  assumes "state_ok state" and "applyStatePatch coll state p = (s, c)" and "jsonValueUtf8Size (JObj s) = Inr n"
    and "n \<le> maxStateBytes" and "length s \<le> maxStateKeys"
  shows "state_ok s"
  using assms applyStatePatch_distinct [OF _ assms(2)] by (auto simp: state_ok_def jsonValueUtf8Size_Inr)

lemma rows_ok_step: "rows_ok rows \<Longrightarrow> mutate_tx coll rows q = Inr rows' \<Longrightarrow> rows_ok rows'"
proof -
  assume ok: "rows_ok rows" and "mutate_tx coll rows q = Inr rows'"
  then obtain res where m: "mutate coll (mr_now q) rows (mr_id q) (mr_version q) (mr_patch q) = Inr (rows', res)"
    by (auto simp: mutate_tx_def bindE_Inr_iff)
  show "rows_ok rows'"
  proof (cases "\<exists>n s. res = Applied n s")
    case True
    with m obtain n s where "mutate coll (mr_now q) rows (mr_id q) (mr_version q) (mr_patch q) =
        Inr (rows', Applied n s)" by auto
    then obtain x p b where x: "find_row rows (mr_id q) = Some x"
      "applyStatePatch coll (current_state x) p = (s, True)" "jsonValueUtf8Size (JObj s) = Inr b"
      "b \<le> maxStateBytes" "length s \<le> maxStateKeys" "rows' = save_row rows (bumped x s (mr_now q))"
      by (rule mutate_Applied) blast
    have "state_ok (current_state x)" using ok find_row_Some [OF x(1)] by (auto simp: rows_ok_def list_all_iff)
    from patched_state_ok [OF this x(2-5)] ok x(6) show ?thesis
      by (auto simp: rows_ok_def save_row_def list_all_iff bumped_def current_state_def)
  next
    case False
    with mutate_not_Applied [OF m] ok show ?thesis by auto
  qed
qed

interpretation state_bounds: tx_machine "mutate_tx coll" rows_ok for coll
  by unfold_locales (rule rows_ok_step)

text \<open>C36: stored states stay within their bounds: from rows without a state, whatever mutations run,
  every stored state has distinct safe keys, at most 128 of them, only JSON values, and at most 65536
  bytes of JSON text.\<close>

theorem mutations_bounded:
  assumes "list_all (\<lambda>x. x_state x = None) rows"
  shows "rows_ok (run_tx (mutate_tx coll) rows qs)"
proof -
  have "json_bytes (JObj []) = Some 2" by (simp add: json_bytes_def)
  then have "rows_ok rows"
    using assms by (auto simp: rows_ok_def list_all_iff current_state_def state_ok_def maxStateBytes_def)
  then show ?thesis by (rule state_bounds.run_inv)
qed

theorem mutations_bounded_witness:
  "rows_ok (run_tx (mutate_tx ex_coll) ex_rows [\<lparr>mr_now = 9, mr_id = ''e'', mr_version = 4, mr_patch = ex_input\<rparr>])"
  by (rule mutations_bounded) (simp add: ex_rows_def)

end
