(* ===== verification/StateWrites.thy ===== *)
theory StateWrites
  imports ExecState_Properties
begin

text \<open>
  services/orchestrator/src/domain/state-writes.ts: the state writes that a pipeline step declares, their
  restricted JSON pointers into the result's output, and the patch built from a successful result.
\<close>

definition maxMappings :: nat where "maxMappings = 128"

record state_write =
  sw_key :: string
  sw_fromOutput :: string

datatype writes_error =
    WritesNotArray | WritesEmpty | TooManyMappings | EntryNotObject | UnknownWriteField | WriteKeyEmpty
  | WriteKeyInvalid state_error | DuplicateTargetKey | FromOutputEmpty | PointerNotPlain | PointerAppend
  | PointerEscape | DuplicateMappings | PointerMissing

subsection \<open>Pointers\<close>

text \<open>\<open>s.split(sep)\<close> for a one-character separator.\<close>

fun split_on :: "char \<Rightarrow> string \<Rightarrow> string list" where
  "split_on sep [] = [[]]"
| "split_on sep (c # s) =
     (if c = sep then [] # split_on sep s
      else case split_on sep s of [] \<Rightarrow> [[c]] | t # ts \<Rightarrow> (c # t) # ts)"

fun decode_token :: "string \<Rightarrow> writes_error + string" where
  "decode_token [] = Inr []"
| "decode_token (c # s) =
     (if c \<noteq> CHR ''~'' then bindE (decode_token s) (\<lambda>t. Inr (c # t))
      else case s of
        [] \<Rightarrow> Inl PointerEscape
      | d # s' \<Rightarrow>
          if d = CHR ''0'' then bindE (decode_token s') (\<lambda>t. Inr (CHR ''~'' # t))
          else if d = CHR ''1'' then bindE (decode_token s') (\<lambda>t. Inr (CHR ''/'' # t))
          else Inl PointerEscape)"

definition parseJsonPointer :: "string \<Rightarrow> writes_error + string list" where
  "parseJsonPointer pointer =
     (if pointer = [] \<or> hd pointer = CHR ''#'' then Inl PointerNotPlain
      else if hd pointer \<noteq> CHR ''/'' then Inl PointerNotPlain
      else let raw = split_on (CHR ''/'') (tl pointer)
        in if ''-'' \<in> set raw then Inl PointerAppend else mapE decode_token raw)"

definition canonical_index :: "string \<Rightarrow> bool" where
  "canonical_index t \<longleftrightarrow> t = ''0'' \<or> (t \<noteq> [] \<and> hd t \<noteq> CHR ''0'' \<and> list_all is_digit t)"

definition digits_value :: "string \<Rightarrow> nat" where
  "digits_value t = foldl (\<lambda>n c. 10 * n + (of_char c - 48)) 0 t"

fun resolveJsonPointer :: "jsv \<Rightarrow> string list \<Rightarrow> jsv option" where
  "resolveJsonPointer current [] = Some current"
| "resolveJsonPointer current (token # tokens) =
     (case current of
        JArr vs \<Rightarrow>
          if \<not> canonical_index token then None
          else if digits_value token \<ge> length vs then None
          else resolveJsonPointer (vs ! digits_value token) tokens
      | JObj kvs \<Rightarrow>
          (case map_of kvs token of None \<Rightarrow> None | Some v \<Rightarrow> resolveJsonPointer v tokens)
      | _ \<Rightarrow> None)"

subsection \<open>Mappings\<close>

definition mapping_js :: "state_write \<Rightarrow> jsv" where
  "mapping_js m = JObj [(''key'', JStr (sw_key m)), (''fromOutput'', JStr (sw_fromOutput m))]"

definition parse_mapping :: "string list \<Rightarrow> jsv \<Rightarrow> writes_error + state_write" where
  "parse_mapping targetKeys entry =
     (if \<not> is_record entry then Inl EntryNotObject
      else if \<exists>k \<in> fst ` set (entries entry). k \<noteq> ''key'' \<and> k \<noteq> ''fromOutput'' then Inl UnknownWriteField
      else case getp entry ''key'' of
        JStr key \<Rightarrow>
          if trim key = [] then Inl WriteKeyEmpty
          else (case validateStateKey key of
            Inl e \<Rightarrow> Inl (WriteKeyInvalid e)
          | Inr _ \<Rightarrow>
              if key \<in> set targetKeys then Inl DuplicateTargetKey
              else (case getp entry ''fromOutput'' of
                JStr from_output \<Rightarrow>
                  if trim from_output = [] then Inl FromOutputEmpty
                  else bindE (parseJsonPointer from_output) (\<lambda>_.
                    Inr \<lparr>sw_key = key, sw_fromOutput = from_output\<rparr>)
              | _ \<Rightarrow> Inl FromOutputEmpty))
      | _ \<Rightarrow> Inl WriteKeyEmpty)"

definition validateStateWrites ::
  "(string \<Rightarrow> string \<Rightarrow> bool) \<Rightarrow> jsv \<Rightarrow> writes_error + state_write list" where
  "validateStateWrites coll input =
     (case input of
        JArr vs \<Rightarrow>
          if vs = [] then Inl WritesEmpty
          else if length vs > maxMappings then Inl TooManyMappings
          else bindE (foldE (\<lambda>ms entry. bindE (parse_mapping (map sw_key ms) entry) (\<lambda>m. Inr (ms @ [m]))) [] vs)
            (\<lambda>ms. if \<not> distinct (map (\<lambda>m. canonicalJson coll (mapping_js m)) ms) then Inl DuplicateMappings
                  else Inr ms)
      | _ \<Rightarrow> Inl WritesNotArray)"

text \<open>The loop that fills \<open>set\<close>; the target keys are distinct.\<close>

definition write_step ::
  "jsv \<Rightarrow> (string \<times> jsv) list \<Rightarrow> state_write \<Rightarrow> writes_error + (string \<times> jsv) list" where
  "write_step out acc m = bindE (parseJsonPointer (sw_fromOutput m)) (\<lambda>tokens.
     case resolveJsonPointer out tokens of
       None \<Rightarrow> Inl PointerMissing
     | Some v \<Rightarrow> Inr (put (sw_key m) v acc))"

definition buildStateWritesPatch ::
  "jsv \<Rightarrow> state_write list \<Rightarrow> writes_error + (string \<times> jsv) list" where
  "buildStateWritesPatch out mappings = foldE (write_step out) [] mappings"

subsection \<open>Properties\<close>

text \<open>The reference encoding of RFC 6901.\<close>

definition escape_token :: "string \<Rightarrow> string" where
  "escape_token t = concat (map (\<lambda>c. if c = CHR ''~'' then ''~0'' else if c = CHR ''/'' then ''~1'' else [c]) t)"

definition pointer_of :: "string list \<Rightarrow> string" where
  "pointer_of ts = concat (map (\<lambda>t. CHR ''/'' # escape_token t) ts)"

lemma decode_escape: "decode_token (escape_token t) = Inr t"
  by (induction t) (auto simp: escape_token_def)

lemma split_on_not_Nil [simp]: "split_on c s \<noteq> []"
  by (induction s) (auto split: list.splits)

lemma split_on_no_sep: "c \<notin> set s \<Longrightarrow> split_on c s = [s]"
  by (induction s) auto

lemma split_on_append: "c \<notin> set s \<Longrightarrow> split_on c (s @ c # t) = s # split_on c t"
  by (induction s) auto

lemma escape_no_slash: "CHR ''/'' \<notin> set (escape_token t)"
  by (induction t) (auto simp: escape_token_def)

lemma split_pointer: "split_on (CHR ''/'') (tl (pointer_of (t # ts))) = map escape_token (t # ts)"
proof (induction ts arbitrary: t)
  case Nil
  then show ?case by (simp add: pointer_of_def split_on_no_sep escape_no_slash)
next
  case (Cons u ts)
  then show ?case by (simp add: pointer_of_def split_on_append [OF escape_no_slash])
qed

lemma escape_eq_dash: "escape_token t = ''-'' \<longleftrightarrow> t = ''-''"
proof
  assume "escape_token t = ''-''"
  with decode_escape [of t] show "t = ''-''" by simp
qed (simp add: escape_token_def)

text \<open>C40: every path of reference tokens has a pointer, its RFC 6901 encoding, and the parser decodes it
  back to the path; only the array append token is excluded.\<close>

theorem parseJsonPointer_encode:
  "ts \<noteq> [] \<Longrightarrow> ''-'' \<notin> set ts \<Longrightarrow> parseJsonPointer (pointer_of ts) = Inr ts"
proof (induction ts)
  case (Cons t ts)
  have "mapE decode_token (map escape_token us) = Inr us" for us
    by (induction us) (simp_all add: decode_escape)
  moreover have "''-'' \<notin> escape_token ` set (t # ts)" using Cons.prems(2) escape_eq_dash by (metis imageE)
  moreover have "pointer_of (t # ts) \<noteq> []" "hd (pointer_of (t # ts)) = CHR ''/''"
    by (simp_all add: pointer_of_def)
  ultimately show ?case
    unfolding parseJsonPointer_def Let_def split_pointer by (simp add: decode_escape)
qed simp

theorem parseJsonPointer_encode_witness:
  "parseJsonPointer ''/a~1b/~0/0'' = Inr [''a/b'', ''~'', ''0'']"
proof -
  have "pointer_of [''a/b'', ''~'', ''0''] = ''/a~1b/~0/0''" by (simp add: pointer_of_def escape_token_def)
  with parseJsonPointer_encode [of "[''a/b'', ''~'', ''0'']"] show ?thesis by simp
qed

definition mapping_ok :: "state_write \<Rightarrow> bool" where
  "mapping_ok m \<longleftrightarrow> validateStateKey (sw_key m) = Inr () \<and> (\<exists>ts. parseJsonPointer (sw_fromOutput m) = Inr ts)"

lemma parse_mapping_Inr:
  "parse_mapping keys v = Inr m \<Longrightarrow> mapping_ok m \<and> sw_key m \<notin> set keys"
  by (auto simp: parse_mapping_def mapping_ok_def bindE_Inr_iff split: if_splits jsv.splits sum.splits)

lemma validateStateWrites_Inr:
  assumes "validateStateWrites coll v = Inr ms"
  shows "list_all mapping_ok ms" and "distinct (map sw_key ms)"
proof -
  from assms obtain vs where
    f: "foldE (\<lambda>ms entry. bindE (parse_mapping (map sw_key ms) entry) (\<lambda>m. Inr (ms @ [m]))) [] vs = Inr ms"
    by (auto simp: validateStateWrites_def bindE_Inr_iff split: jsv.splits if_splits)
  have "list_all mapping_ok ms \<and> distinct (map sw_key ms)"
    by (rule foldE_invariant [OF f, where I = "\<lambda>ms. list_all mapping_ok ms \<and> distinct (map sw_key ms)"])
       (auto simp: bindE_Inr_iff dest!: parse_mapping_Inr)
  then show "list_all mapping_ok ms" "distinct (map sw_key ms)" by auto
qed

text \<open>The patch of the mappings, when every pointer resolves.\<close>

definition resolved :: "jsv \<Rightarrow> state_write \<Rightarrow> jsv option" where
  "resolved out m = (case parseJsonPointer (sw_fromOutput m) of Inl _ \<Rightarrow> None
     | Inr ts \<Rightarrow> resolveJsonPointer out ts)"

lemma put_new: "k \<notin> fst ` set kvs \<Longrightarrow> put k v kvs = kvs @ [(k, v)]"
  by (induction k v kvs rule: put.induct) auto

lemma write_step_ok:
  "mapping_ok m \<Longrightarrow> write_step out acc m = (case resolved out m of
     None \<Rightarrow> Inl PointerMissing | Some v \<Rightarrow> Inr (put (sw_key m) v acc))"
  by (auto simp: write_step_def resolved_def mapping_ok_def)

lemma build_step:
  assumes "list_all mapping_ok ms" and "distinct (map sw_key ms)"
    and "\<forall>m \<in> set ms. sw_key m \<notin> fst ` set acc"
  shows "foldE (write_step out) acc ms =
    (if \<exists>m \<in> set ms. resolved out m = None then Inl PointerMissing
     else Inr (acc @ map (\<lambda>m. (sw_key m, the (resolved out m))) ms))"
  using assms
proof (induction ms arbitrary: acc)
  case (Cons m ms)
  show ?case
  proof (cases "resolved out m")
    case None
    then show ?thesis using Cons.prems by (simp add: write_step_ok)
  next
    case (Some v)
    have put: "put (sw_key m) v acc = acc @ [(sw_key m, v)]" using Cons.prems by (intro put_new) simp
    have ok: "mapping_ok m" using Cons.prems(1) by simp
    have "foldE (write_step out) (acc @ [(sw_key m, v)]) ms =
        (if \<exists>m \<in> set ms. resolved out m = None then Inl PointerMissing
         else Inr ((acc @ [(sw_key m, v)]) @ map (\<lambda>m. (sw_key m, the (resolved out m))) ms))"
      by (rule Cons.IH) (use Cons.prems in \<open>auto simp: image_iff\<close>)
    then show ?thesis by (simp add: write_step_ok [OF ok] Some put)
  qed
qed simp

text \<open>C39: state writes that were accepted with the pipeline are all or nothing at run time: either some
  pointer does not resolve in the output and nothing is written, or the patch sets exactly the declared
  keys, each once and each an allowed state key, to the values at their pointers.\<close>

theorem buildStateWritesPatch_all_or_nothing:
  assumes "validateStateWrites coll declared = Inr mappings"
  shows "buildStateWritesPatch out mappings =
      (if \<exists>m \<in> set mappings. resolved out m = None then Inl PointerMissing
       else Inr (map (\<lambda>m. (sw_key m, the (resolved out m))) mappings)) \<and>
    distinct (map sw_key mappings) \<and> (\<forall>m \<in> set mappings. validateStateKey (sw_key m) = Inr ())"
  using build_step [OF validateStateWrites_Inr [OF assms], where acc = "[]" and out = out] validateStateWrites_Inr [OF assms]
  by (auto simp: buildStateWritesPatch_def list_all_iff mapping_ok_def)

definition ex_declared :: jsv where
  "ex_declared = JArr [JObj [(''key'', JStr ''plan''), (''fromOutput'', JStr ''/items/1'')]]"

lemma ex_writes:
  "validateStateWrites ex_coll ex_declared = Inr [\<lparr>sw_key = ''plan'', sw_fromOutput = ''/items/1''\<rparr>]"
  by (simp add: validateStateWrites_def ex_declared_def maxMappings_def parse_mapping_def trim_def is_ws_def
      validateStateKey_def DANGEROUS_KEYS_def maxKeyLength_def parseJsonPointer_def)

theorem buildStateWritesPatch_all_or_nothing_witness:
  "buildStateWritesPatch (JObj [(''items'', JArr [JNull, JBool True])])
     [\<lparr>sw_key = ''plan'', sw_fromOutput = ''/items/1''\<rparr>] = Inr [(''plan'', JBool True)]"
  using buildStateWritesPatch_all_or_nothing [OF ex_writes, of "JObj [(''items'', JArr [JNull, JBool True])]"]
  by (simp add: resolved_def parseJsonPointer_def canonical_index_def is_digit_def digits_value_def)

end
