(* ===== verification/Conditions.thy ===== *)
theory Conditions
  imports StateWrites
begin

text \<open>
  services/orchestrator/src/services/condition-evaluator.service.ts: the declarative conditions of
  pipeline steps, their validation, the one-comparison legacy syntax, and their evaluation against the
  execution's context.
\<close>

definition MAX_CONDITION_DEPTH :: nat where "MAX_CONDITION_DEPTH = 20"

datatype cmp_op = Eq | Ne | Gt | Gte | Lt | Lte

datatype operand = Lit jsv | Ref string

datatype condition =
    Cmp cmp_op operand operand
  | And "condition list"
  | Or "condition list"
  | Not condition
  | Exists operand
  | InList operand "operand list"
  | InRef operand string

text \<open>Every rejection is one thrown \<open>Error\<close>; its message is not modelled.\<close>

datatype condition_error = ConditionError

subsection \<open>References\<close>

definition ident_char :: "char \<Rightarrow> bool" where
  "ident_char c \<longleftrightarrow> (let n = (of_char c :: nat) in
     n \<in> {97..122} \<or> n \<in> {65..90} \<or> n \<in> {48..57} \<or> n = 95 \<or> n = 45)"

definition ident_part :: "string \<Rightarrow> bool" where
  "ident_part s \<longleftrightarrow> s \<noteq> [] \<and> list_all ident_char s"

text \<open>The regular expression REFERENCE, on the dot-separated parts.\<close>

definition is_reference :: "string \<Rightarrow> bool" where
  "is_reference s = (case split_on (CHR ''.'') s of
       a # b # rest \<Rightarrow>
         a = ''pipeline'' \<and> b = ''input'' \<and> list_all ident_part rest
         \<or> a = ''steps'' \<and> ident_part b \<and>
           (case rest of [] \<Rightarrow> False
            | f # tail \<Rightarrow> f \<in> set [''result'', ''output'', ''status'', ''error'', ''attempt''] \<and>
                list_all ident_part tail)
     | _ \<Rightarrow> False)"

subsection \<open>Validation of declarative conditions\<close>

definition validateReference :: "jsv \<Rightarrow> condition_error + string" where
  "validateReference v =
     (if \<not> is_record v then Inl ConditionError
      else case getp v ''ref'' of
        JStr s \<Rightarrow> if is_reference s then Inr s else Inl ConditionError
      | _ \<Rightarrow> Inl ConditionError)"

fun is_literal :: "jsv \<Rightarrow> bool" where
  "is_literal JNull = True"
| "is_literal (JStr _) = True"
| "is_literal (JNum _) = True"
| "is_literal (JBool _) = True"
| "is_literal _ = False"

definition validateOperand :: "jsv \<Rightarrow> condition_error + operand" where
  "validateOperand v =
     (if is_literal v then Inr (Lit v) else bindE (validateReference v) (\<lambda>s. Inr (Ref s)))"

fun cmp_str :: "cmp_op \<Rightarrow> string" where
  "cmp_str Eq = ''eq''" | "cmp_str Ne = ''ne''" | "cmp_str Gt = ''gt''"
| "cmp_str Gte = ''gte''" | "cmp_str Lt = ''lt''" | "cmp_str Lte = ''lte''"

definition find_cmp :: "string \<Rightarrow> cmp_op option" where
  "find_cmp s = find (\<lambda>c. cmp_str c = s) [Eq, Ne, Gt, Gte, Lt, Lte]"

lemma size_getp: "getp (JObj kvs) k = v \<Longrightarrow> v \<noteq> JUndef \<Longrightarrow> size v < size (JObj kvs)"
proof -
  assume "getp (JObj kvs) k = v" "v \<noteq> JUndef"
  then have "(k, v) \<in> set kvs" by (auto simp: getp_def dest: map_of_SomeD split: option.splits)
  then have "size_prod (\<lambda>_. 0) size (k, v) \<le> size_list (size_prod (\<lambda>_. 0) size) kvs"
    by (intro size_list_estimation') auto
  then show ?thesis by simp
qed

lemma size_in_array: "v \<in> set vs \<Longrightarrow> size v < size (JArr vs)"
  by (auto dest!: size_list_estimation' [of v vs "size v" size])

function validateExpression :: "jsv \<Rightarrow> nat \<Rightarrow> condition_error + condition" where
  "validateExpression v depth =
     (if depth > MAX_CONDITION_DEPTH then Inl ConditionError
      else case v of
        JObj kvs \<Rightarrow>
         (case getp v ''op'' of
            JStr oper \<Rightarrow>
              if oper = ''and'' \<or> oper = ''or'' then
                (case getp v ''conditions'' of
                   JArr vs \<Rightarrow>
                     if vs = [] then Inl ConditionError
                     else bindE (sequence (map (\<lambda>x. validateExpression x (depth + 1)) vs)) (\<lambda>cs.
                       Inr (if oper = ''and'' then And cs else Or cs))
                 | _ \<Rightarrow> Inl ConditionError)
              else if oper = ''not'' then
                (if is_record (getp v ''condition'')
                 then bindE (validateExpression (getp v ''condition'') (depth + 1)) (\<lambda>c. Inr (Not c))
                 else Inl ConditionError)
              else if oper = ''exists'' then
                bindE (validateOperand (getp v ''value'')) (\<lambda>x. Inr (Exists x))
              else if oper = ''in'' then
                bindE (validateOperand (getp v ''value'')) (\<lambda>x.
                  case getp v ''values'' of
                    JArr vs \<Rightarrow> if vs = [] then Inl ConditionError
                               else bindE (mapE validateOperand vs) (\<lambda>xs. Inr (InList x xs))
                  | w \<Rightarrow> bindE (validateReference w) (\<lambda>r. Inr (InRef x r)))
              else (case find_cmp oper of
                  None \<Rightarrow> Inl ConditionError
                | Some c \<Rightarrow> bindE (validateOperand (getp v ''left'')) (\<lambda>l.
                    bindE (validateOperand (getp v ''right'')) (\<lambda>r. Inr (Cmp c l r))))
          | _ \<Rightarrow> Inl ConditionError)
      | _ \<Rightarrow> Inl ConditionError)"
  by pat_completeness auto
termination
proof (relation "measure (\<lambda>(v, d). size v)", simp)
  fix v :: jsv and depth kvs oper vs x
  assume "v = JObj kvs" "getp v ''conditions'' = JArr vs" "x \<in> set vs"
  then have "size (JArr vs) < size v" "size x < size (JArr vs)"
    using size_getp [of kvs "''conditions''" "JArr vs"] size_in_array by auto
  then show "((x, depth + 1), v, depth) \<in> measure (\<lambda>(v, d). size v)" by simp
next
  fix v :: jsv and depth kvs oper
  assume "v = JObj kvs" "is_record (getp v ''condition'')"
  moreover from this have "getp v ''condition'' \<noteq> JUndef" by (metis is_record.simps(2))
  ultimately show "((getp v ''condition'', depth + 1), v, depth) \<in> measure (\<lambda>(v, d). size v)"
    using size_getp [of kvs "''condition''"] by simp
qed

declare validateExpression.simps [simp del]

subsection \<open>JSON scalars\<close>

text \<open>
  \<open>JSON.parse\<close> on a text, where it yields null, a boolean, a number or a string; \<open>None\<close> where it
  throws or yields an object or array (the caller rejects both). A decimal is rounded to a double.
\<close>

definition take_digits :: "string \<Rightarrow> string \<times> string" where
  "take_digits s = (takeWhile is_digit s, dropWhile is_digit s)"

definition json_fraction :: "string \<Rightarrow> (string \<times> string) option" where
  "json_fraction s =
     (case s of
        c # s' \<Rightarrow>
          if c = CHR ''.'' then (case take_digits s' of (ds, r) \<Rightarrow> if ds = [] then None else Some (ds, r))
          else Some ([], s)
      | [] \<Rightarrow> Some ([], s))"

definition json_exponent :: "string \<Rightarrow> (int \<times> string) option" where
  "json_exponent s =
     (case s of
        c # s' \<Rightarrow>
          if c = CHR ''e'' \<or> c = CHR ''E'' then
            (let (neg, t) = (case s' of [] \<Rightarrow> (False, [])
                 | d # u \<Rightarrow> if d = CHR ''-'' then (True, u) else if d = CHR ''+'' then (False, u) else (False, s'));
                 (ds, r) = take_digits t
             in if ds = [] then None
                else Some (if neg then - int (digits_value ds) else int (digits_value ds), r))
          else Some (0, s)
      | [] \<Rightarrow> Some (0, s))"

definition to_double :: "rat \<Rightarrow> jnum" where
  "to_double r = (let x = fl r in if x \<ge> 2 ^ 1024 then PosInf else if x \<le> - (2 ^ 1024) then NegInf else Fin x)"

definition json_number :: "string \<Rightarrow> jnum option" where
  "json_number s =
     (let (neg, t) = (case s of [] \<Rightarrow> (False, []) | c # u \<Rightarrow> if c = CHR ''-'' then (True, u) else (False, s));
          (ip, t1) = take_digits t
      in if \<not> canonical_index ip then None
         else case json_fraction t1 of
           None \<Rightarrow> None
         | Some (ds, t2) \<Rightarrow>
             (case json_exponent t2 of
                None \<Rightarrow> None
              | Some (e, rest) \<Rightarrow>
                  if rest \<noteq> [] then None
                  else Some (to_double ((if neg then -1 else 1) * of_nat (digits_value (ip @ ds))
                         * 10 powi (e - int (length ds))))))"

definition hex_value :: "char \<Rightarrow> nat option" where
  "hex_value c = (let n = (of_char c :: nat) in
     if n \<in> {48..57} then Some (n - 48) else if n \<in> {97..102} then Some (n - 87)
     else if n \<in> {65..70} then Some (n - 55) else None)"

fun json_unescape :: "string \<Rightarrow> string option" where
  "json_unescape [] = None"
| "json_unescape (c # s) =
     (let n = (of_char c :: nat) in
      if n = 34 then (if s = [] then Some [] else None)
      else if n < 32 then None
      else if n \<noteq> 92 then map_option (\<lambda>t. c # t) (json_unescape s)
      else case s of
        [] \<Rightarrow> None
      | d # s1 \<Rightarrow>
          if d = CHR 0x22 \<or> d = CHR 0x5C \<or> d = CHR ''/'' then map_option (\<lambda>t. d # t) (json_unescape s1)
          else if d = CHR ''b'' then map_option (\<lambda>t. CHR 0x08 # t) (json_unescape s1)
          else if d = CHR ''f'' then map_option (\<lambda>t. CHR 0x0C # t) (json_unescape s1)
          else if d = CHR ''n'' then map_option (\<lambda>t. CHR 0x0A # t) (json_unescape s1)
          else if d = CHR ''r'' then map_option (\<lambda>t. CHR 0x0D # t) (json_unescape s1)
          else if d = CHR ''t'' then map_option (\<lambda>t. CHR 0x09 # t) (json_unescape s1)
          else if d = CHR ''u'' then
            (case s1 of
               h1 # h2 # h3 # h4 # s2 \<Rightarrow>
                 (case (hex_value h1, hex_value h2, hex_value h3, hex_value h4) of
                    (Some 0, Some 0, Some a, Some b) \<Rightarrow>
                      map_option (\<lambda>t. char_of (16 * a + b) # t) (json_unescape s2)
                  | _ \<Rightarrow> None)
             | _ \<Rightarrow> None)
          else None)"

definition json_scalar :: "string \<Rightarrow> jsv option" where
  "json_scalar s =
     (if s = ''null'' then Some JNull
      else if s = ''true'' then Some (JBool True)
      else if s = ''false'' then Some (JBool False)
      else case s of
        [] \<Rightarrow> None
      | c # t \<Rightarrow> if c = CHR 0x22 then map_option JStr (json_unescape t)
                 else map_option JNum (json_number s))"

subsection \<open>The legacy syntax\<close>

definition is_prefix :: "string \<Rightarrow> string \<Rightarrow> bool" where
  "is_prefix p s \<longleftrightarrow> take (length p) s = p"

text \<open>The content of \<open>{{ ... }}\<close>, or the text itself.\<close>

definition unwrap :: "string \<Rightarrow> string" where
  "unwrap s = (let t = trim s; inner = drop 2 (take (length t - 2) t)
     in if is_prefix ''{{'' t \<and> is_prefix ''}}'' (rev t) \<and> length t > 4
        then (if trim inner = [] then [last inner] else trim inner)
        else s)"

definition legacy_ops :: "(string \<times> cmp_op) list" where
  "legacy_ops = [(''==='', Eq), (''!=='', Ne), (''=='', Eq), (''!='', Ne), (''>='', Gte), (''<='', Lte),
     (''>'', Gt), (''<'', Lt)]"

text \<open>
  The match of the comparison: the first word is greedy, so its longest prefix is tried first that an
  operator and a non-blank rest without a line break follow.
\<close>

definition legacy_rest :: "string \<Rightarrow> (cmp_op \<times> string) option" where
  "legacy_rest r = (let t = dropWhile is_ws r;
       ok = (\<lambda>(s, c). is_prefix s t \<and> trim (drop (length s) t) \<noteq> [] \<and>
              list_all (\<lambda>x. x \<noteq> CHR 0x0A \<and> x \<noteq> CHR 0x0D) (trim (drop (length s) t)))
     in map_option (\<lambda>(s, c). (c, trim (drop (length s) t))) (find ok legacy_ops))"

fun legacy_match :: "nat \<Rightarrow> string \<Rightarrow> (string \<times> cmp_op \<times> string) option" where
  "legacy_match 0 s = None"
| "legacy_match (Suc n) s =
     (case legacy_rest (drop (Suc n) s) of
        Some (c, r) \<Rightarrow> Some (take (Suc n) s, c, r)
      | None \<Rightarrow> legacy_match n s)"

text \<open>A quoted literal: no bare quote or backslash inside, escapes in pairs.\<close>

fun quoted_body :: "string \<Rightarrow> bool" where
  "quoted_body [] = False"
| "quoted_body (c # s) =
     (if c = CHR 0x27 then s = []
      else if c = CHR 0x5C then
        (case s of [] \<Rightarrow> False | d # s' \<Rightarrow> d \<noteq> CHR 0x0A \<and> d \<noteq> CHR 0x0D \<and> quoted_body s')
      else quoted_body s)"

text \<open>\<open>replace\<close> of every occurrence of a two-character text by one character.\<close>

fun replace2 :: "char \<Rightarrow> char \<Rightarrow> char \<Rightarrow> string \<Rightarrow> string" where
  "replace2 a b c (x # y # s) = (if x = a \<and> y = b then c # replace2 a b c s else x # replace2 a b c (y # s))"
| "replace2 a b c s = s"

definition parseLegacyOperand :: "string \<Rightarrow> condition_error + operand" where
  "parseLegacyOperand s =
     (let t = trim s
      in if is_reference t then Inr (Ref t)
         else if t \<noteq> [] \<and> hd t = CHR 0x27 \<and> quoted_body (tl t)
         then Inr (Lit (JStr (replace2 (CHR 0x5C) (CHR 0x5C) (CHR 0x5C)
                (replace2 (CHR 0x5C) (CHR 0x27) (CHR 0x27) (butlast (tl t))))))
         else case json_scalar t of None \<Rightarrow> Inl ConditionError | Some v \<Rightarrow> Inr (Lit v))"

text \<open>
  The parsed operands are valid ones, so the validation of the assembled expression changes nothing.
\<close>

definition compileLegacy :: "string \<Rightarrow> condition_error + condition" where
  "compileLegacy s =
     (let t = dropWhile is_ws (unwrap s)
      in case legacy_match (length (takeWhile (\<lambda>c. \<not> is_ws c) t)) t of
        None \<Rightarrow> Inl ConditionError
      | Some (l, c, r) \<Rightarrow> bindE (parseLegacyOperand l) (\<lambda>left.
          bindE (parseLegacyOperand r) (\<lambda>right. Inr (Cmp c left right))))"

definition compile_condition :: "jsv \<Rightarrow> condition_error + condition" where
  "compile_condition v = (case v of JStr s \<Rightarrow> compileLegacy s | _ \<Rightarrow> validateExpression v 1)"

subsection \<open>Evaluation\<close>

text \<open>
  Reading \<open>current[part]\<close> follows the prototype chain: a plain object inherits the members of
  \<open>Object.prototype\<close>.
\<close>

datatype cval = V jsv | ProtoObject | Inherited string

definition PROTO_MEMBERS :: "string list" where
  "PROTO_MEMBERS = [''constructor'', ''__defineGetter__'', ''__defineSetter__'', ''hasOwnProperty'',
     ''__lookupGetter__'', ''__lookupSetter__'', ''isPrototypeOf'', ''propertyIsEnumerable'', ''toString'',
     ''valueOf'', ''toLocaleString'']"

fun member_of :: "cval \<Rightarrow> string \<Rightarrow> cval" where
  "member_of (V (JObj kvs)) part =
     (case map_of kvs part of
        Some v \<Rightarrow> V v
      | None \<Rightarrow> if part = ''__proto__'' then ProtoObject
                else if part \<in> set PROTO_MEMBERS then Inherited part else V JUndef)"
| "member_of ProtoObject part =
     (if part = ''__proto__'' then V JNull
      else if part \<in> set PROTO_MEMBERS then Inherited part else V JUndef)"
| "member_of _ part = V JUndef"

definition resolve_ref :: "jsv \<Rightarrow> string \<Rightarrow> cval" where
  "resolve_ref ctx r = foldl member_of (V ctx) (split_on (CHR ''.'') r)"

fun resolve :: "jsv \<Rightarrow> operand \<Rightarrow> cval" where
  "resolve ctx (Lit v) = V v"
| "resolve ctx (Ref r) = resolve_ref ctx r"

text \<open>
  Objects are compared by identity: \<open>alias\<close> says which places of the context hold the same object. A
  place is a reference, or an element of the array at a reference.
\<close>

datatype place = At string | Elem string nat | Nowhere

fun place_of :: "operand \<Rightarrow> place" where
  "place_of (Ref r) = At r"
| "place_of (Lit v) = Nowhere"

fun is_object :: "cval \<Rightarrow> bool" where
  "is_object (V (JObj _)) = True"
| "is_object (V (JArr _)) = True"
| "is_object _ = False"

definition strict_eq :: "(place \<Rightarrow> place \<Rightarrow> bool) \<Rightarrow> place \<times> cval \<Rightarrow> place \<times> cval \<Rightarrow> bool" where
  "strict_eq alias l r =
     (if is_object (snd l) \<and> is_object (snd r) then alias (fst l) (fst r)
      else if is_object (snd l) \<or> is_object (snd r) then False
      else snd l = snd r \<and> snd l \<noteq> V (JNum NaN))"

text \<open>\<open>includes\<close> compares like \<open>===\<close>, but finds NaN.\<close>

definition same_value_zero :: "(place \<Rightarrow> place \<Rightarrow> bool) \<Rightarrow> place \<times> cval \<Rightarrow> place \<times> cval \<Rightarrow> bool" where
  "same_value_zero alias l r \<longleftrightarrow>
     strict_eq alias l r \<or> snd l = V (JNum NaN) \<and> snd r = V (JNum NaN)"

fun num_less :: "jnum \<Rightarrow> jnum \<Rightarrow> bool" where
  "num_less NaN b = False"
| "num_less a NaN = False"
| "num_less (Fin a) (Fin b) = (a < b)"
| "num_less NegInf b = (b \<noteq> NegInf)"
| "num_less a NegInf = False"
| "num_less a PosInf = (a \<noteq> PosInf)"
| "num_less PosInf b = False"

fun js_less :: "cval \<Rightarrow> cval \<Rightarrow> bool" where
  "js_less (V (JNum a)) (V (JNum b)) = num_less a b"
| "js_less (V (JStr a)) (V (JStr b)) = (a < b)"
| "js_less _ _ = False"

fun js_leq :: "cval \<Rightarrow> cval \<Rightarrow> bool" where
  "js_leq (V (JNum a)) (V (JNum b)) = (num_less a b \<or> a = b \<and> a \<noteq> NaN)"
| "js_leq (V (JStr a)) (V (JStr b)) = (a \<le> b)"
| "js_leq _ _ = False"

definition located :: "jsv \<Rightarrow> operand \<Rightarrow> place \<times> cval" where
  "located ctx x = (place_of x, resolve ctx x)"

fun compare_values :: "(place \<Rightarrow> place \<Rightarrow> bool) \<Rightarrow> cmp_op \<Rightarrow> place \<times> cval \<Rightarrow> place \<times> cval \<Rightarrow> bool" where
  "compare_values alias Eq l r = strict_eq alias l r"
| "compare_values alias Ne l r = (\<not> strict_eq alias l r)"
| "compare_values alias Gt l r = js_less (snd r) (snd l)"
| "compare_values alias Gte l r = js_leq (snd r) (snd l)"
| "compare_values alias Lt l r = js_less (snd l) (snd r)"
| "compare_values alias Lte l r = js_leq (snd l) (snd r)"

fun evaluate_condition :: "(place \<Rightarrow> place \<Rightarrow> bool) \<Rightarrow> jsv \<Rightarrow> condition \<Rightarrow> bool" where
  "evaluate_condition alias ctx (And cs) = list_all (evaluate_condition alias ctx) cs"
| "evaluate_condition alias ctx (Or cs) = list_ex (evaluate_condition alias ctx) cs"
| "evaluate_condition alias ctx (Not c) = (\<not> evaluate_condition alias ctx c)"
| "evaluate_condition alias ctx (Exists x) = (resolve ctx x \<noteq> V JUndef)"
| "evaluate_condition alias ctx (InList x xs) =
     list_ex (\<lambda>y. same_value_zero alias (located ctx y) (located ctx x)) xs"
| "evaluate_condition alias ctx (InRef x r) =
     (case resolve_ref ctx r of
        V (JArr vs) \<Rightarrow> list_ex (\<lambda>i. same_value_zero alias (Elem r i, V (vs ! i)) (located ctx x)) [0..<length vs]
      | _ \<Rightarrow> False)"
| "evaluate_condition alias ctx (Cmp c l r) = compare_values alias c (located ctx l) (located ctx r)"

end
