(* ===== verification/Conditions_Properties.thy ===== *)
theory Conditions_Properties
  imports Conditions
begin

text \<open>
  The properties of conditions (theory Conditions): what compilation accepts, what evaluation depends
  on, the agreement of the legacy syntax with the declarative one, and an inherited member.
\<close>

fun operand_refs :: "operand \<Rightarrow> string list" where
  "operand_refs (Ref r) = [r]"
| "operand_refs (Lit v) = []"

fun refs :: "condition \<Rightarrow> string list" where
  "refs (And cs) = concat (map refs cs)"
| "refs (Or cs) = concat (map refs cs)"
| "refs (Not c) = refs c"
| "refs (Exists x) = operand_refs x"
| "refs (InList x xs) = operand_refs x @ concat (map operand_refs xs)"
| "refs (InRef x r) = operand_refs x @ [r]"
| "refs (Cmp c l r) = operand_refs l @ operand_refs r"

fun cond_depth :: "condition \<Rightarrow> nat" where
  "cond_depth (And cs) = Suc (fold max (map cond_depth cs) 0)"
| "cond_depth (Or cs) = Suc (fold max (map cond_depth cs) 0)"
| "cond_depth (Not c) = Suc (cond_depth c)"
| "cond_depth _ = 1"

lemma fold_max_le: "fold max ns (a :: nat) \<le> n \<longleftrightarrow> a \<le> n \<and> (\<forall>x \<in> set ns. x \<le> n)"
  by (induction ns arbitrary: a) auto

lemma sequence_map_Inr:
  "sequence (map f xs) = Inr ys \<Longrightarrow> y \<in> set ys \<Longrightarrow> \<exists>x \<in> set xs. f x = Inr y"
  by (induction xs arbitrary: ys) (auto simp: bindE_Inr_iff)

text \<open>Operands are literals or supported references, and no list is empty.\<close>

fun operand_wf :: "operand \<Rightarrow> bool" where
  "operand_wf (Ref r) = is_reference r"
| "operand_wf (Lit v) = is_literal v"

fun cond_wf :: "condition \<Rightarrow> bool" where
  "cond_wf (And cs) = (cs \<noteq> [] \<and> list_all cond_wf cs)"
| "cond_wf (Or cs) = (cs \<noteq> [] \<and> list_all cond_wf cs)"
| "cond_wf (Not c) = cond_wf c"
| "cond_wf (Exists x) = operand_wf x"
| "cond_wf (InList x xs) = (operand_wf x \<and> xs \<noteq> [] \<and> list_all operand_wf xs)"
| "cond_wf (InRef x r) = (operand_wf x \<and> is_reference r)"
| "cond_wf (Cmp c l r) = (operand_wf l \<and> operand_wf r)"

definition condition_ok :: "nat \<Rightarrow> condition \<Rightarrow> bool" where
  "condition_ok d c \<longleftrightarrow> cond_depth c + d \<le> Suc MAX_CONDITION_DEPTH \<and> cond_wf c"

lemma operand_wf_refs: "operand_wf x \<Longrightarrow> r \<in> set (operand_refs x) \<Longrightarrow> is_reference r"
  by (cases x) auto

lemma cond_wf_refs: "cond_wf c \<Longrightarrow> list_all is_reference (refs c)"
  by (induction c) (auto simp: list_all_iff intro: operand_wf_refs)

lemma validateReference_Inr: "validateReference v = Inr s \<Longrightarrow> is_reference s"
  by (auto simp: validateReference_def split: if_splits jsv.splits)

lemma validateOperand_Inr: "validateOperand v = Inr x \<Longrightarrow> operand_wf x"
  by (auto simp: validateOperand_def bindE_Inr_iff dest: validateReference_Inr split: if_splits)

lemma operands_Inr:
  "mapE validateOperand vs = Inr xs \<Longrightarrow> list_all operand_wf xs \<and> (vs \<noteq> [] \<longrightarrow> xs \<noteq> [])"
  by (induction vs arbitrary: xs) (auto simp: bindE_Inr_iff dest!: validateOperand_Inr)

lemma validateExpression_Inr: "validateExpression v d = Inr c \<Longrightarrow> condition_ok d c"
proof (induction v d arbitrary: c rule: validateExpression.induct)
  case (1 v d)
  from "1.prems" obtain kvs oper where v: "v = JObj kvs" and d: "d \<le> MAX_CONDITION_DEPTH"
    and oper: "getp v ''op'' = JStr oper"
    by (subst (asm) validateExpression.simps) (auto split: if_splits jsv.splits)
  note val = "1.prems" [unfolded validateExpression.simps [of v d] oper]
  consider "oper = ''and'' \<or> oper = ''or''" | "oper = ''not''" | "oper = ''exists''" | "oper = ''in''"
    | "oper \<notin> {''and'', ''or'', ''not'', ''exists'', ''in''}" by blast
  then show ?case
  proof cases
    case 1
    with val d v obtain vs cs where vs: "getp v ''conditions'' = JArr vs"
      and cs: "sequence (map (\<lambda>x. validateExpression x (d + 1)) vs) = Inr cs" "c = And cs \<or> c = Or cs"
      and "vs \<noteq> []"
      by (auto simp: bindE_Inr_iff split: jsv.splits if_splits)
    have "condition_ok (d + 1) x" if "x \<in> set cs" for x
    proof -
      from sequence_map_Inr [OF cs(1) that] obtain y where y: "y \<in> set vs"
        "validateExpression y (d + 1) = Inr x" by auto
      then have "vs \<noteq> []" by auto
      with "1.IH"(1) [OF _ v oper 1 vs _ y] d show ?thesis by simp
    qed
    then have le: "cond_depth x + d \<le> MAX_CONDITION_DEPTH" and wf: "cond_wf x"
      if "x \<in> set cs" for x using that by (auto simp: condition_ok_def)
    have "cond_depth x \<le> MAX_CONDITION_DEPTH - d" if "x \<in> set cs" for x
      using le [OF that] by linarith
    then have "fold max (map cond_depth cs) 0 \<le> MAX_CONDITION_DEPTH - d" by (simp add: fold_max_le)
    then have "fold max (map cond_depth cs) 0 + d \<le> MAX_CONDITION_DEPTH" using d by auto
    moreover have "cs \<noteq> []" using cs(1) \<open>vs \<noteq> []\<close> by (cases vs) (auto simp: bindE_Inr_iff)
    moreover have "list_all cond_wf cs" using wf by (simp add: list_all_iff)
    ultimately show ?thesis using cs(2) by (auto simp: condition_ok_def)
  next
    case 2
    with val d v obtain x where x: "is_record (getp v ''condition'')" "c = Not x"
      "validateExpression (getp v ''condition'') (d + 1) = Inr x"
      by (auto simp: bindE_Inr_iff split: if_splits)
    from "1.IH"(2) [OF _ v oper _ 2 x(1,3)] d 2 have "condition_ok (d + 1) x" by auto
    then show ?thesis by (simp add: condition_ok_def x(2))
  next
    case 3
    with val d v show ?thesis by (auto simp: bindE_Inr_iff condition_ok_def dest: validateOperand_Inr)
  next
    case 4
    with val d v obtain x where x: "validateOperand (getp v ''value'') = Inr x"
      and c: "(case getp v ''values'' of
          JArr vs \<Rightarrow> if vs = [] then Inl ConditionError
                     else bindE (mapE validateOperand vs) (\<lambda>xs. Inr (InList x xs))
        | w \<Rightarrow> bindE (validateReference w) (\<lambda>r. Inr (InRef x r))) = Inr c"
      by (auto simp: bindE_Inr_iff)
    show ?thesis
    proof (cases "\<exists>vs. getp v ''values'' = JArr vs")
      case True
      with c obtain vs xs where "mapE validateOperand vs = Inr xs" "c = InList x xs" "vs \<noteq> []"
        by (auto simp: bindE_Inr_iff split: if_splits)
      with operands_Inr validateOperand_Inr [OF x] d show ?thesis by (simp add: condition_ok_def)
    next
      case False
      with c obtain r where "validateReference (getp v ''values'') = Inr r" "c = InRef x r"
        by (cases "getp v ''values''") (auto simp: bindE_Inr_iff)
      with validateReference_Inr validateOperand_Inr [OF x] d show ?thesis by (simp add: condition_ok_def)
    qed
  next
    case 5
    with val d v show ?thesis
      by (auto simp: bindE_Inr_iff condition_ok_def dest!: validateOperand_Inr split: option.splits)
  qed
qed

lemma json_scalar_literal: "json_scalar s = Some v \<Longrightarrow> is_literal v"
  by (auto simp: json_scalar_def Let_def split: if_splits option.splits prod.splits list.splits)

lemma parseLegacyOperand_Inr: "parseLegacyOperand s = Inr x \<Longrightarrow> operand_wf x"
  by (auto simp: parseLegacyOperand_def Let_def json_scalar_literal split: if_splits option.splits)

lemma compileLegacy_Inr: "compileLegacy s = Inr c \<Longrightarrow> condition_ok 1 c"
  by (auto simp: compileLegacy_def Let_def bindE_Inr_iff condition_ok_def MAX_CONDITION_DEPTH_def
      dest!: parseLegacyOperand_Inr split: option.splits)

text \<open>A compiled condition is nested at most 20 deep, and reads the context only through references
  of the supported form.\<close>

theorem compile_condition_ok:
  assumes "compile_condition v = Inr c"
  shows "cond_depth c \<le> MAX_CONDITION_DEPTH \<and> list_all is_reference (refs c)"
proof -
  have "condition_ok 1 c"
    using assms validateExpression_Inr compileLegacy_Inr by (auto simp: compile_condition_def split: jsv.splits)
  then show ?thesis by (simp add: condition_ok_def cond_wf_refs)
qed

definition ex_condition :: jsv where
  "ex_condition = JStr ''{{ steps.a.status != 'done' }}''"

lemma ex_compiled:
  "compile_condition ex_condition = Inr (Cmp Ne (Ref ''steps.a.status'') (Lit (JStr ''done'')))"
  by code_simp

theorem compile_condition_ok_witness: "is_reference ''steps.a.status''"
  using compile_condition_ok [OF ex_compiled] by simp

text \<open>A condition depends on the values of its references only: in two contexts that give them the
  same values it evaluates to the same.\<close>

theorem evaluate_condition_local:
  assumes "\<And>r. r \<in> set (refs c) \<Longrightarrow> resolve_ref ctx r = resolve_ref ctx' r"
  shows "evaluate_condition alias ctx c = evaluate_condition alias ctx' c"
proof -
  have op: "resolve ctx x = resolve ctx' x" if "\<And>r. r \<in> set (operand_refs x) \<Longrightarrow> resolve_ref ctx r = resolve_ref ctx' r" for x
    using that by (cases x) auto
  show ?thesis
    using assms
  proof (induction c)
    case (And cs)
    then show ?case by (auto simp: list_all_iff)
  next
    case (Or cs)
    then show ?case by (auto simp: list_ex_iff)
  next
    case (InList x xs)
    then have "located ctx y = located ctx' y" if "y \<in> set xs \<or> y = x" for y
      using that op [of y] by (auto simp: located_def)
    then show ?case by (auto simp: list_ex_iff)
  next
    case (InRef x r)
    then have "located ctx x = located ctx' x" "resolve_ref ctx r = resolve_ref ctx' r"
      using op [of x] by (auto simp: located_def)
    then show ?case by (simp only: evaluate_condition.simps)
  next
    case (Cmp c l r)
    then have "located ctx l = located ctx' l" "located ctx r = located ctx' r"
      using op [of l] op [of r] by (auto simp: located_def)
    then show ?case by simp
  qed (use op in auto)
qed

theorem evaluate_condition_local_witness:
  "evaluate_condition (=) (JObj [(''pipeline'', JObj [(''input'', JObj [(''n'', jint 2)])]), (''x'', JNull)])
     (Exists (Ref ''pipeline.input.n'')) =
   evaluate_condition (=) (JObj [(''pipeline'', JObj [(''input'', JObj [(''n'', jint 2)])])])
     (Exists (Ref ''pipeline.input.n''))"
  by (rule evaluate_condition_local) (simp add: resolve_ref_def)

text \<open>The condition \<open>exists\<close> also sees what an object inherits: for a step whose output is an empty object, the
  condition that its \<open>constructor\<close> exists is accepted and true.\<close>

theorem exists_sees_inherited:
  "compile_condition (JObj [(''op'', JStr ''exists''),
     (''value'', JObj [(''ref'', JStr ''steps.a.output.constructor'')])]) =
       Inr (Exists (Ref ''steps.a.output.constructor'')) \<and>
   evaluate_condition alias (JObj [(''steps'', JObj [(''a'', JObj [(''output'', JObj [])])])])
     (Exists (Ref ''steps.a.output.constructor''))"
  by (simp add: compile_condition_def validateExpression.simps MAX_CONDITION_DEPTH_def validateOperand_def
      validateReference_def is_reference_def ident_part_def ident_char_def resolve_ref_def PROTO_MEMBERS_def)

subsection \<open>The legacy syntax\<close>

lemma split_on_chars: "c \<in> set s \<Longrightarrow> c = sep \<or> (\<exists>p \<in> set (split_on sep s). c \<in> set p)"
  by (induction s) (auto split: list.splits)

lemma split_on_hd: "split_on sep s = a # ts \<Longrightarrow> a \<noteq> [] \<Longrightarrow> hd s = hd a"
  by (cases s) (auto split: if_splits list.splits)

lemma is_reference_word:
  assumes "is_reference s"
  shows "s \<noteq> []" and "c \<in> set s \<Longrightarrow> \<not> is_ws c" and "hd s \<noteq> CHR ''{''"
proof -
  have idc: "ident_char c \<Longrightarrow> \<not> is_ws c" for c by (auto simp: ident_char_def Let_def is_ws_def)
  have parts: "\<not> is_ws c" if "p \<in> set (split_on (CHR ''.'') s)" "c \<in> set p" for p c
  proof -
    have words: "list_all (\<lambda>c. \<not> is_ws c) w"
      if "w \<in> {''pipeline'', ''input'', ''steps'', ''result'', ''output'', ''status'', ''error'', ''attempt''}" for w
      using that by (auto simp: is_ws_def)
    have "p \<in> {''pipeline'', ''input'', ''steps'', ''result'', ''output'', ''status'', ''error'', ''attempt''} \<or>
        ident_part p"
      using assms that(1) by (auto simp: is_reference_def list_all_iff split: list.splits)
    then show ?thesis
    proof (elim disjE)
      assume "ident_part p"
      with that(2) show ?thesis by (auto simp: ident_part_def list_all_iff dest: idc)
    qed (drule words, use that(2) in \<open>simp add: list_all_iff\<close>)
  qed
  from assms show ne: "s \<noteq> []" by (auto simp: is_reference_def)
  show "\<not> is_ws c" if "c \<in> set s"
    using split_on_chars [OF that, of "CHR ''.''"] parts by (auto simp: is_ws_def)
  from assms obtain a ts where "split_on (CHR ''.'') s = a # ts" "a = ''pipeline'' \<or> a = ''steps''"
    by (auto simp: is_reference_def split: list.splits)
  then have "a \<noteq> [] \<and> hd a \<noteq> CHR ''{''" by (elim disjE; simp)
  with split_on_hd [OF \<open>split_on (CHR ''.'') s = a # ts\<close>] show "hd s \<noteq> CHR ''{''" by simp
qed

lemma dropWhile_word: "s \<noteq> [] \<Longrightarrow> (\<And>c. c \<in> set s \<Longrightarrow> \<not> is_ws c) \<Longrightarrow> dropWhile is_ws (s @ t) = s @ t"
  by (cases s) auto

lemma trim_word: "(\<And>c. c \<in> set s \<Longrightarrow> \<not> is_ws c) \<Longrightarrow> trim s = s"
proof -
  assume w: "\<And>c. c \<in> set s \<Longrightarrow> \<not> is_ws c"
  then have "dropWhile is_ws s = s" by (cases s) auto
  moreover have "dropWhile is_ws (rev s) = rev s" using w by (cases "rev s") (auto dest: arg_cong [where f = set])
  ultimately show ?thesis by (simp add: trim_def)
qed

lemma trim_space_word: "(\<And>c. c \<in> set s \<Longrightarrow> \<not> is_ws c) \<Longrightarrow> trim (CHR '' '' # s) = s"
  using trim_word [of s] by (simp add: trim_def is_ws_def)

lemma legacy_rest_op:
  assumes "(s, c) \<in> set legacy_ops" and "is_reference r"
  shows "legacy_rest (CHR '' '' # s @ CHR '' '' # r) = Some (c, r)"
proof -
  note w = is_reference_word [OF assms(2)]
  have tr: "trim (CHR '' '' # r) = r" by (rule trim_space_word) (rule w(2))
  have nl: "list_all (\<lambda>x. x \<noteq> CHR 0x0A \<and> x \<noteq> CHR 0x0D) r"
    using w(2) [of "CHR 0x0A"] w(2) [of "CHR 0x0D"] by (auto simp: list_all_iff is_ws_def)
  from assms(1) show ?thesis
    unfolding legacy_ops_def set_simps
    by (elim insertE emptyE Pair_inject; hypsubst; simp add: legacy_rest_def Let_def legacy_ops_def
        is_prefix_def is_ws_def tr nl w(1))
qed

text \<open>The legacy syntax is another way to write a declarative comparison: for every two references
  and every comparison operator, the text with single spaces compiles to the same condition as the
  object.\<close>

theorem legacy_agrees:
  assumes "is_reference l" and "is_reference r" and "(s, c) \<in> set legacy_ops"
  shows "compile_condition (JStr (l @ '' '' @ s @ '' '' @ r)) =
    compile_condition (JObj [(''op'', JStr (cmp_str c)), (''left'', JObj [(''ref'', JStr l)]),
      (''right'', JObj [(''ref'', JStr r)])])"
proof -
  let ?t = "l @ '' '' @ s @ '' '' @ r"
  note wl = is_reference_word [OF assms(1)] and wr = is_reference_word [OF assms(2)]
  have ref: "parseLegacyOperand x = Inr (Ref x)" if "is_reference x" for x
    using that trim_word [of x] is_reference_word(2) [OF that] by (simp add: parseLegacyOperand_def)
  have ws: "dropWhile is_ws ?t = ?t" by (rule dropWhile_word [OF wl(1,2)])
  have "hd (trim ?t) = hd l"
  proof -
    have "set ?t \<inter> {c. \<not> is_ws c} \<noteq> {}" using wl(1,2) by (cases l) auto
    moreover have "trim ?t = rev (dropWhile is_ws (rev r @ rev (l @ '' '' @ s @ '' '')))"
      unfolding trim_def ws by simp
    moreover have "dropWhile is_ws (rev r @ u) = rev r @ u" for u
      by (rule dropWhile_word) (use wr(1,2) in auto)
    ultimately show ?thesis using wl(1) by simp
  qed
  then have "\<not> is_prefix ''{{'' (trim ?t)"
    using wl(3) by (cases "trim ?t") (auto simp: is_prefix_def)
  then have un: "unwrap ?t = ?t" by (simp add: unwrap_def Let_def)
  have tw: "takeWhile (\<lambda>c. \<not> is_ws c) ?t = l"
    using wl(2) by (subst takeWhile_append2) (auto simp: is_ws_def)
  have "legacy_match (length l) ?t = Some (l, c, r)"
    using wl(1) legacy_rest_op [OF assms(3,2)] by (cases "length l") auto
  then have "compileLegacy ?t = Inr (Cmp c (Ref l) (Ref r))"
    by (simp only: compileLegacy_def Let_def un ws tw) (simp add: ref assms)
  moreover have "validateExpression (JObj [(''op'', JStr (cmp_str c)), (''left'', JObj [(''ref'', JStr l)]),
      (''right'', JObj [(''ref'', JStr r)])]) 1 = Inr (Cmp c (Ref l) (Ref r))"
    using assms by (cases c) (simp_all add: validateExpression.simps MAX_CONDITION_DEPTH_def find_cmp_def
        validateOperand_def validateReference_def)
  ultimately show ?thesis by (simp add: compile_condition_def)
qed

theorem legacy_agrees_witness:
  "compile_condition (JStr ''steps.a.status == pipeline.input.s'') =
     compile_condition (JObj [(''op'', JStr ''eq''), (''left'', JObj [(''ref'', JStr ''steps.a.status'')]),
       (''right'', JObj [(''ref'', JStr ''pipeline.input.s'')])])"
  using legacy_agrees [of "''steps.a.status''" "''pipeline.input.s''" "''==''" Eq]
  by (simp add: is_reference_def ident_part_def ident_char_def legacy_ops_def)

end
