(* ===== verification/ContextSnapshot.thy ===== *)
theory ContextSnapshot
  imports ExecState_Properties
begin

text \<open>
  services/orchestrator/src/domain/context-snapshot.ts: the declared projection of execution state and
  artifacts into the context of one attempt, and the bounded envelope made of it.
\<close>

definition maxProjectionKeys :: nat where "maxProjectionKeys = 128"
definition maxArtifactSelectors :: nat where "maxArtifactSelectors = 128"
definition maxEnvelopeBytes :: nat where "maxEnvelopeBytes = 65536"

record artifact_selector =
  as_fromStep :: string
  as_name :: "string option"
  as_ordinal :: "int option"
  as_includeMetadata :: "bool option"

record context_projection =
  cp_stateKeys :: "string list"
  cp_artifacts :: "artifact_selector list option"

record artifact_reference =
  ar_artifactId :: string
  ar_producerStepId :: string
  ar_producerAttemptId :: string
  ar_descriptorOrdinal :: int
  ar_name :: "string option"
  ar_mediaType :: "string option"
  ar_uri :: "string option"
  ar_metadata :: "(string \<times> jsv) list option"

datatype projection_error =
    ProjectionNotObject | UnknownProjectionField | StateKeysMissing | StateKeysNotArray | TooManyKeys
  | StateKeyNotString | StateKeyInvalid state_error | StateKeyDuplicate | ArtifactsNotArray | ArtifactsEmpty
  | TooManySelectors | SelectorNotObject | UnknownSelectorField | FromStepEmpty | NameNotString
  | OrdinalInvalid | NameAndOrdinal | MetadataNotBool | DuplicateSelectors | NothingSelected

datatype context_error = CTX_INVALID_PROJECTION | CTX_MISSING_STATE_KEY | CTX_UNSAFE_VALUE
  | CTX_ENVELOPE_TOO_LARGE

subsection \<open>Validation\<close>

definition opt_member :: "string \<Rightarrow> ('a \<Rightarrow> jsv) \<Rightarrow> 'a option \<Rightarrow> (string \<times> jsv) list" where
  "opt_member k f v = (case v of None \<Rightarrow> [] | Some x \<Rightarrow> [(k, f x)])"

definition selector_js :: "artifact_selector \<Rightarrow> jsv" where
  "selector_js s = JObj ((''fromStep'', JStr (as_fromStep s)) # opt_member ''name'' JStr (as_name s)
     @ opt_member ''ordinal'' (\<lambda>n. jint n) (as_ordinal s)
     @ opt_member ''includeMetadata'' JBool (as_includeMetadata s))"

definition selector_name :: "jsv \<Rightarrow> projection_error + string option" where
  "selector_name v = (case v of JUndef \<Rightarrow> Inr None | JStr s \<Rightarrow> Inr (Some s) | _ \<Rightarrow> Inl NameNotString)"

definition selector_ordinal :: "jsv \<Rightarrow> projection_error + int option" where
  "selector_ordinal v =
     (if v = JUndef then Inr None
      else case as_integer v of None \<Rightarrow> Inl OrdinalInvalid
        | Some n \<Rightarrow> if n < 0 then Inl OrdinalInvalid else Inr (Some n))"

definition selector_metadata :: "jsv \<Rightarrow> projection_error + bool option" where
  "selector_metadata v =
     (case v of JUndef \<Rightarrow> Inr None | JBool b \<Rightarrow> Inr (Some b) | _ \<Rightarrow> Inl MetadataNotBool)"

definition parse_selector :: "jsv \<Rightarrow> projection_error + artifact_selector" where
  "parse_selector v =
     (if \<not> is_record v then Inl SelectorNotObject
      else if \<exists>k \<in> fst ` set (entries v).
          k \<notin> set [''fromStep'', ''name'', ''ordinal'', ''includeMetadata''] then Inl UnknownSelectorField
      else case getp v ''fromStep'' of
        JStr step \<Rightarrow>
          if trim step = [] then Inl FromStepEmpty
          else bindE (selector_name (getp v ''name'')) (\<lambda>name.
            bindE (selector_ordinal (getp v ''ordinal'')) (\<lambda>ordinal.
            if name \<noteq> None \<and> ordinal \<noteq> None then Inl NameAndOrdinal
            else bindE (selector_metadata (getp v ''includeMetadata'')) (\<lambda>meta.
              Inr \<lparr>as_fromStep = step, as_name = name, as_ordinal = ordinal,
                   as_includeMetadata = meta\<rparr>)))
      | _ \<Rightarrow> Inl FromStepEmpty)"

definition validateArtifactSelectors ::
  "(string \<Rightarrow> string \<Rightarrow> bool) \<Rightarrow> jsv \<Rightarrow> projection_error + artifact_selector list" where
  "validateArtifactSelectors coll v =
     (case v of
        JArr vs \<Rightarrow>
          if vs = [] then Inl ArtifactsEmpty
          else if length vs > maxArtifactSelectors then Inl TooManySelectors
          else bindE (mapE parse_selector vs) (\<lambda>ss.
            if \<not> distinct (map (\<lambda>s. canonicalJson coll (selector_js s)) ss) then Inl DuplicateSelectors
            else Inr ss)
      | _ \<Rightarrow> Inl ArtifactsNotArray)"

definition add_state_key :: "string list \<Rightarrow> jsv \<Rightarrow> projection_error + string list" where
  "add_state_key seen v =
     (case v of
        JStr k \<Rightarrow> (case validateStateKey k of
            Inl e \<Rightarrow> Inl (StateKeyInvalid e)
          | Inr _ \<Rightarrow> if k \<in> set seen then Inl StateKeyDuplicate else Inr (seen @ [k]))
      | _ \<Rightarrow> Inl StateKeyNotString)"

definition validateContextProjection ::
  "(string \<Rightarrow> string \<Rightarrow> bool) \<Rightarrow> jsv \<Rightarrow> projection_error + context_projection" where
  "validateContextProjection coll v =
     (if \<not> is_record v then Inl ProjectionNotObject
      else if \<exists>k \<in> fst ` set (entries v). k \<noteq> ''stateKeys'' \<and> k \<noteq> ''artifacts''
      then Inl UnknownProjectionField
      else case getp v ''stateKeys'' of
        JUndef \<Rightarrow> Inl StateKeysMissing
      | JArr ks \<Rightarrow>
          if length ks > maxProjectionKeys then Inl TooManyKeys
          else bindE (foldE add_state_key [] ks) (\<lambda>keys.
            bindE (if getp v ''artifacts'' = JUndef then Inr None
                   else bindE (validateArtifactSelectors coll (getp v ''artifacts'')) (\<lambda>ss. Inr (Some ss)))
              (\<lambda>artifacts.
                if ks = [] \<and> (artifacts = None \<or> artifacts = Some []) then Inl NothingSelected
                else Inr \<lparr>cp_stateKeys = keys, cp_artifacts = artifacts\<rparr>))
      | _ \<Rightarrow> Inl StateKeysNotArray)"

subsection \<open>The envelope\<close>

definition select_key ::
  "(string \<times> jsv) list \<Rightarrow> (string \<times> jsv) list \<Rightarrow> string \<Rightarrow> context_error + (string \<times> jsv) list" where
  "select_key state values k =
     (case map_of state k of None \<Rightarrow> Inl CTX_MISSING_STATE_KEY | Some v \<Rightarrow> Inr (put k v values))"

definition selectProjectedValues ::
  "(string \<Rightarrow> string \<Rightarrow> bool) \<Rightarrow> jsv \<Rightarrow> (string \<times> jsv) list \<Rightarrow> context_error + (string \<times> jsv) list" where
  "selectProjectedValues coll projection state =
     (case validateContextProjection coll projection of
        Inl _ \<Rightarrow> Inl CTX_INVALID_PROJECTION
      | Inr p \<Rightarrow> bindE (foldE (select_key state) [] (cp_stateKeys p)) (\<lambda>values.
          Inr (js_object (sort_by (\<lambda>p q. fst p \<le> fst q) values))))"

definition reference_js :: "artifact_reference \<Rightarrow> jsv" where
  "reference_js r = JObj ([(''artifactId'', JStr (ar_artifactId r)),
       (''producerStepId'', JStr (ar_producerStepId r)), (''producerAttemptId'', JStr (ar_producerAttemptId r)),
       (''descriptorOrdinal'', jint (ar_descriptorOrdinal r))]
     @ opt_member ''name'' JStr (ar_name r) @ opt_member ''mediaType'' JStr (ar_mediaType r)
     @ opt_member ''uri'' JStr (ar_uri r) @ opt_member ''metadata'' JObj (ar_metadata r))"

definition envelope :: "(string \<times> jsv) list \<Rightarrow> int \<Rightarrow> artifact_reference list \<Rightarrow> jsv" where
  "envelope values version refs = JObj [(''tenvyr'', JObj
     [(''schemaVersion'', jint 1),
      (''executionState'', JObj [(''version'', jint version), (''values'', JObj values)]),
      (''artifacts'', JArr (map reference_js refs))])]"

definition materializeContextSnapshot ::
  "(string \<Rightarrow> string \<Rightarrow> bool) \<Rightarrow> jsv \<Rightarrow> (string \<times> jsv) list \<Rightarrow> int \<Rightarrow> artifact_reference list \<Rightarrow>
     context_error + jsv" where
  "materializeContextSnapshot coll projection state version refs =
     bindE (selectProjectedValues coll projection state) (\<lambda>ordered.
       case jsonValueUtf8Size (envelope ordered version refs) of
         Inl _ \<Rightarrow> Inl CTX_UNSAFE_VALUE
       | Inr n \<Rightarrow> if n > maxEnvelopeBytes then Inl CTX_ENVELOPE_TOO_LARGE
                  else Inr (envelope ordered version refs))"

subsection \<open>Properties\<close>

lemma add_state_key_Inr:
  "add_state_key seen v = Inr ks \<Longrightarrow> \<exists>k. v = JStr k \<and> k \<notin> set seen \<and> ks = seen @ [k] \<and> validateStateKey k = Inr ()"
  by (auto simp: add_state_key_def split: jsv.splits sum.splits if_splits)

lemma add_state_keys_Inr:
  "foldE add_state_key seen vs = Inr ks \<Longrightarrow> distinct seen \<Longrightarrow> distinct ks \<and> (\<exists>xs. vs = map JStr xs \<and> ks = seen @ xs)"
proof (induction vs arbitrary: seen)
  case (Cons v vs)
  then obtain s where s: "add_state_key seen v = Inr s" "foldE add_state_key s vs = Inr ks"
    by (auto simp: bindE_Inr_iff)
  from add_state_key_Inr [OF s(1)] obtain k where k: "v = JStr k" "s = seen @ [k]" "k \<notin> set seen" by auto
  from Cons.IH [OF s(2)] k Cons.prems(2) obtain xs where "distinct ks" "vs = map JStr xs" "ks = s @ xs" by auto
  with k show ?case by (intro conjI exI [of _ "k # xs"]) auto
qed simp

lemma validateContextProjection_Inr:
  assumes "validateContextProjection coll v = Inr p"
  shows "getp v ''stateKeys'' = JArr (map JStr (cp_stateKeys p))" and "distinct (cp_stateKeys p)"
    and "length (cp_stateKeys p) \<le> maxProjectionKeys"
proof -
  from assms obtain ks where "getp v ''stateKeys'' = JArr ks" "length ks \<le> maxProjectionKeys"
    and f: "foldE add_state_key [] ks = Inr (cp_stateKeys p)"
    by (auto simp: validateContextProjection_def bindE_Inr_iff split: if_splits jsv.splits)
  with add_state_keys_Inr [OF f] show "getp v ''stateKeys'' = JArr (map JStr (cp_stateKeys p))"
    "distinct (cp_stateKeys p)" "length (cp_stateKeys p) \<le> maxProjectionKeys" by auto
qed

lemma select_keys:
  "foldE (select_key state) acc ks = Inr r \<Longrightarrow> distinct ks \<Longrightarrow> \<forall>k \<in> set ks. k \<notin> fst ` set acc \<Longrightarrow>
     r = acc @ map (\<lambda>k. (k, the (map_of state k))) ks \<and> (\<forall>k \<in> set ks. map_of state k \<noteq> None)"
proof (induction ks arbitrary: acc)
  case (Cons k ks)
  from Cons.prems(1) obtain acc' where acc': "select_key state acc k = Inr acc'"
    "foldE (select_key state) acc' ks = Inr r" by (auto simp: bindE_Inr_iff)
  from acc' obtain v where v: "map_of state k = Some v" "foldE (select_key state) (put k v acc) ks = Inr r"
    by (auto simp: select_key_def split: option.splits)
  have new: "put k v acc = acc @ [(k, v)]"
    using Cons.prems(3) by (induction k v acc rule: put.induct) auto
  have "r = put k v acc @ map (\<lambda>k. (k, the (map_of state k))) ks \<and> (\<forall>k \<in> set ks. map_of state k \<noteq> None)"
    by (rule Cons.IH [OF v(2)]) (use Cons.prems in \<open>auto simp: new\<close>)
  with v(1) new show ?case by simp
qed simp

text \<open>An attempt's context holds the selected state and nothing else: an envelope that is built has,
  as values, exactly the declared keys with their values of the execution state, and takes at most
  65536 bytes of JSON.\<close>

theorem materialize_exact:
  assumes "materializeContextSnapshot coll projection state version refs = Inr env"
  shows "\<exists>keys vals. getp projection ''stateKeys'' = JArr (map JStr keys) \<and>
    env = envelope vals version refs \<and> distinct (map fst vals) \<and> set (map fst vals) = set keys \<and>
    (\<forall>k \<in> set keys. map_of state k \<noteq> None \<and> map_of vals k = map_of state k) \<and>
    (\<exists>n. json_bytes env = Some n \<and> n \<le> maxEnvelopeBytes)"
proof -
  from assms obtain vals where v: "selectProjectedValues coll projection state = Inr vals"
    and m: "(case jsonValueUtf8Size (envelope vals version refs) of Inl _ \<Rightarrow> Inl CTX_UNSAFE_VALUE
       | Inr n \<Rightarrow> if n > maxEnvelopeBytes then Inl CTX_ENVELOPE_TOO_LARGE
                  else Inr (envelope vals version refs)) = Inr env"
    by (auto simp: materializeContextSnapshot_def bindE_Inr_iff)
  from m obtain n where n: "jsonValueUtf8Size (envelope vals version refs) = Inr n" "n \<le> maxEnvelopeBytes"
    and env: "env = envelope vals version refs"
    by (auto split: sum.splits if_splits)
  from v obtain p raw where p: "validateContextProjection coll projection = Inr p"
    and raw: "foldE (select_key state) [] (cp_stateKeys p) = Inr raw"
    and vals: "vals = js_object (sort_by (\<lambda>p q. fst p \<le> fst q) raw)"
    by (auto simp: selectProjectedValues_def bindE_Inr_iff split: sum.splits)
  note key = validateContextProjection_Inr [OF p]
  from select_keys [OF raw key(2)] have r: "raw = map (\<lambda>k. (k, the (map_of state k))) (cp_stateKeys p)"
    and some: "\<forall>k \<in> set (cp_stateKeys p). map_of state k \<noteq> None" by auto
  have ms: "mset vals = mset raw" by (simp add: vals)
  have d: "distinct (map fst raw)" by (simp add: r key(2) comp_def)
  have "distinct (map fst vals)" "map_of vals = map_of raw" "set (map fst vals) = set (map fst raw)"
    using keys_mset [OF ms] map_of_mset [OF d ms [symmetric]] d ms
    by (simp_all, metis set_mset_mset)
  moreover have "map_of raw k = map_of state k" if "k \<in> set (cp_stateKeys p)" for k
    using that some by (auto simp: r map_of_graph)
  ultimately show ?thesis
    using key(1) some n env
    by (intro exI [of _ "cp_stateKeys p"] exI [of _ vals])
       (auto simp: r jsonValueUtf8Size_Inr image_image)
qed

definition ex_projection :: jsv where
  "ex_projection = JObj [(''stateKeys'', JArr [JStr ''b'', JStr ''a''])]"

lemma ex_projection_valid:
  "validateContextProjection coll ex_projection = Inr \<lparr>cp_stateKeys = [''b'', ''a''], cp_artifacts = None\<rparr>"
  by (simp add: validateContextProjection_def ex_projection_def maxProjectionKeys_def add_state_key_def
      validateStateKey_def DANGEROUS_KEYS_def maxKeyLength_def)

lemma ex_materialize:
  "\<exists>env. materializeContextSnapshot ex_coll ex_projection
     [(''a'', JNull), (''secret'', JBool True), (''b'', JStr ''x'')] 3 [] = Inr env"
proof -
  have "selectProjectedValues ex_coll ex_projection [(''a'', JNull), (''secret'', JBool True), (''b'', JStr ''x'')] =
      Inr [(''a'', JNull), (''b'', JStr ''x'')]"
    by (simp add: selectProjectedValues_def ex_projection_valid select_key_def js_object_def is_index_def
        is_digit_def)
  moreover have "jsonValueUtf8Size (envelope [(''a'', JNull), (''b'', JStr ''x'')] 3 []) = Inr 104"
    by code_simp
  ultimately show ?thesis by (simp add: materializeContextSnapshot_def maxEnvelopeBytes_def)
qed

theorem materialize_exact_witness:
  "\<exists>env vals. materializeContextSnapshot ex_coll ex_projection
     [(''a'', JNull), (''secret'', JBool True), (''b'', JStr ''x'')] 3 [] = Inr env \<and>
     env = envelope vals 3 [] \<and> set (map fst vals) = {''a'', ''b''}"
proof -
  obtain env where env: "materializeContextSnapshot ex_coll ex_projection
     [(''a'', JNull), (''secret'', JBool True), (''b'', JStr ''x'')] 3 [] = Inr env" using ex_materialize by blast
  from materialize_exact [OF env] obtain keys vals where
    "getp ex_projection ''stateKeys'' = JArr (map JStr keys)" "env = envelope vals 3 []"
    "set (map fst vals) = set keys" by auto
  moreover from this(1) have "keys = [''b'', ''a'']"
    by (simp add: ex_projection_def Cons_eq_map_conv)
  ultimately show ?thesis using env by (auto simp: insert_commute)
qed

text \<open>State that a projection does not select has no influence: on two states that agree on the
  selected keys the result is the same, errors included.\<close>

theorem materialize_noninterference:
  assumes "\<And>keys k. getp projection ''stateKeys'' = JArr (map JStr keys) \<Longrightarrow> k \<in> set keys \<Longrightarrow>
    map_of s1 k = map_of s2 k"
  shows "materializeContextSnapshot coll projection s1 version refs =
    materializeContextSnapshot coll projection s2 version refs"
proof (cases "validateContextProjection coll projection")
  case (Inr p)
  have "foldE (select_key s1) acc ks = foldE (select_key s2) acc ks" if "set ks \<subseteq> set (cp_stateKeys p)" for acc ks
    using that assms [OF validateContextProjection_Inr(1) [OF Inr]]
    by (induction ks arbitrary: acc) (auto simp: select_key_def bindE_def split: sum.split option.split)
  then show ?thesis by (simp add: materializeContextSnapshot_def selectProjectedValues_def Inr)
qed (simp add: materializeContextSnapshot_def selectProjectedValues_def)

theorem materialize_noninterference_witness:
  "materializeContextSnapshot ex_coll ex_projection [(''a'', JNull), (''secret'', JBool True), (''b'', JNull)] 3 [] =
   materializeContextSnapshot ex_coll ex_projection [(''b'', JNull), (''a'', JNull)] 3 []"
  by (rule materialize_noninterference) (auto simp: ex_projection_def Cons_eq_map_conv)

end
