(* ===== verification/Pipeline.thy ===== *)
theory Pipeline
  imports Conditions ContextSnapshot Budget
begin

text \<open>
  services/orchestrator/src/services/pipeline-validation.service.ts with domain/pipeline-definition.ts: the
  validation of an untrusted pipeline, of each step and of the graph of their dependencies.
\<close>

definition MAX_STEPS :: nat where "MAX_STEPS = 100"
definition MAX_DEPTH :: nat where "MAX_DEPTH = 20"
definition MAX_FANOUT :: nat where "MAX_FANOUT = 20"

datatype pipeline_error =
    PipelineNotObject | StringInvalid | NoSteps | TooManySteps | StepNotObject | IdentifierInvalid
  | DependsOnInvalid | RetriesInvalid | OnFailureInvalid | TimeoutInvalid | InputNotObject
  | MetadataNotObject | PlannerInvalid | DelegationInvalid | ProjectionInvalid projection_error
  | WritesInvalid writes_error | StepBudgetInvalid budget_error | ConditionInvalid
  | BudgetInvalid budget_error | DuplicateStep | DuplicateDependency | MissingDependency | FanoutExceeded
  | ArtifactFromSelf | ArtifactNotDependency | WriteConflict | CycleFound | DepthExceeded

subsection \<open>Coercions\<close>

text \<open>\<open>String(v)\<close>; an object without a \<open>toString\<close> of its own.\<close>

fun js_String :: "jsv \<Rightarrow> string" where
  "js_String JUndef = ''undefined''"
| "js_String JNull = ''null''"
| "js_String (JBool b) = (if b then ''true'' else ''false'')"
| "js_String (JNum NaN) = ''NaN''"
| "js_String (JNum PosInf) = ''Infinity''"
| "js_String (JNum NegInf) = ''-Infinity''"
| "js_String (JNum (Fin r)) = num_str r"
| "js_String (JStr s) = s"
| "js_String (JArr vs) = join '','' (map (\<lambda>v. case v of JUndef \<Rightarrow> [] | JNull \<Rightarrow> [] | _ \<Rightarrow> js_String v) vs)"
| "js_String (JObj _) = ''[object Object]''"

definition radix_digit :: "nat \<Rightarrow> char \<Rightarrow> nat option" where
  "radix_digit b c = (case hex_value c of None \<Rightarrow> None | Some d \<Rightarrow> if d < b then Some d else None)"

definition radix_number :: "nat \<Rightarrow> string \<Rightarrow> jnum" where
  "radix_number b s =
     (if s = [] \<or> (\<exists>c \<in> set s. radix_digit b c = None) then NaN
      else to_double (of_nat (foldl (\<lambda>n c. b * n + the (radix_digit b c)) 0 s)))"

text \<open>An unsigned decimal literal: digits, a fraction, an exponent.\<close>

definition decimal_number :: "string \<Rightarrow> rat option" where
  "decimal_number s =
     (let (ip, t1) = take_digits s;
          (fp, t2) = (case t1 of [] \<Rightarrow> ([], []) | c # u \<Rightarrow> if c = CHR ''.'' then take_digits u else ([], t1))
      in if ip = [] \<and> fp = [] then None
         else case json_exponent t2 of
           None \<Rightarrow> None
         | Some (e, rest) \<Rightarrow> if rest \<noteq> [] then None
             else Some (of_nat (digits_value (ip @ fp)) * 10 powi (e - int (length fp))))"

definition string_to_number :: "string \<Rightarrow> jnum" where
  "string_to_number str =
     (let s = trim str in
      if s = [] then Fin 0
      else if is_prefix ''0x'' s \<or> is_prefix ''0X'' s then radix_number 16 (drop 2 s)
      else if is_prefix ''0o'' s \<or> is_prefix ''0O'' s then radix_number 8 (drop 2 s)
      else if is_prefix ''0b'' s \<or> is_prefix ''0B'' s then radix_number 2 (drop 2 s)
      else let neg = (hd s = CHR ''-''); t = (if hd s = CHR ''-'' \<or> hd s = CHR ''+'' then tl s else s)
        in if t = ''Infinity'' then (if neg then NegInf else PosInf)
           else case decimal_number t of None \<Rightarrow> NaN
             | Some r \<Rightarrow> to_double (if neg then - r else r))"

definition js_Number :: "jsv \<Rightarrow> jnum" where
  "js_Number v =
     (case v of
        JUndef \<Rightarrow> NaN
      | JNull \<Rightarrow> Fin 0
      | JBool b \<Rightarrow> Fin (if b then 1 else 0)
      | JNum n \<Rightarrow> n
      | JStr s \<Rightarrow> string_to_number s
      | JArr _ \<Rightarrow> string_to_number (js_String v)
      | JObj _ \<Rightarrow> NaN)"

subsection \<open>Steps\<close>

record step =
  st_id :: string
  st_agent :: string
  st_input :: "jsv option"
  st_dependsOn :: "string list option"
  st_condition :: "condition option"
  st_timeout :: "jsv option"
  st_retries :: "int option"
  st_onFailure :: "jsv option"
  st_metadata :: "jsv option"
  st_projection :: "context_projection option"
  st_stateWrites :: "state_write list option"
  st_budget :: "amounts option"
  st_planner :: bool
  st_delegation :: "string option"

definition is_identifier :: "string \<Rightarrow> bool" where
  "is_identifier s \<longleftrightarrow> s \<noteq> [] \<and> length s \<le> 100 \<and> list_all ident_char s \<and>
     hd s \<noteq> CHR ''_'' \<and> hd s \<noteq> CHR ''-''"

definition nonEmptyString :: "jsv \<Rightarrow> nat \<Rightarrow> bool \<Rightarrow> pipeline_error + string" where
  "nonEmptyString v maxLen allowEmpty =
     (case v of
        JStr s \<Rightarrow> if \<not> allowEmpty \<and> trim s = [] \<or> length s > maxLen then Inl StringInvalid else Inr s
      | _ \<Rightarrow> Inl StringInvalid)"

definition identifier_of :: "jsv \<Rightarrow> pipeline_error + string" where
  "identifier_of v = (case v of JStr s \<Rightarrow> if is_identifier s then Inr s else Inl DependsOnInvalid
     | _ \<Rightarrow> Inl DependsOnInvalid)"

definition identifierArray :: "jsv \<Rightarrow> pipeline_error + string list" where
  "identifierArray v = (case v of JArr vs \<Rightarrow> mapE identifier_of vs | _ \<Rightarrow> Inl DependsOnInvalid)"

definition optional_field :: "jsv \<Rightarrow> (jsv \<Rightarrow> 'e + 'a) \<Rightarrow> 'e + 'a option" where
  "optional_field v f = (if v = JUndef then Inr None else bindE (f v) (\<lambda>x. Inr (Some x)))"

definition parse_retries :: "jsv \<Rightarrow> pipeline_error + int" where
  "parse_retries v =
     (case as_integer (JNum (js_Number v)) of
        None \<Rightarrow> Inl RetriesInvalid
      | Some n \<Rightarrow> if n < 0 then Inl RetriesInvalid else Inr n)"

definition lower :: "char \<Rightarrow> char" where
  "lower c = (let n = (of_char c :: nat) in if 65 \<le> n \<and> n \<le> 90 then char_of (n + 32) else c)"

text \<open>\<open>^\d+(\.\d+)?\<close>: the number and what follows it.\<close>

definition leading_number :: "string \<Rightarrow> (rat \<times> string) option" where
  "leading_number s =
     (let (ip, t) = take_digits s
      in if ip = [] then None
         else case t of
           [] \<Rightarrow> Some (of_nat (digits_value ip), [])
         | c # u \<Rightarrow>
             (let (fp, r) = take_digits u
              in if c = CHR ''.'' \<and> fp \<noteq> []
                 then Some (of_nat (digits_value (ip @ fp)) / 10 ^ length fp, r)
                 else Some (of_nat (digits_value ip), t)))"

text \<open>
  The unit is matched on the trimmed text, the number on the text itself: with leading white space the
  second match is null and its use throws.
\<close>

definition validDuration :: "jsv \<Rightarrow> bool" where
  "validDuration v =
     (case v of
        JNum (Fin r) \<Rightarrow> 0 < r
      | JStr s \<Rightarrow>
          (case leading_number (trim s) of
             None \<Rightarrow> False
           | Some (r, u) \<Rightarrow> map lower u \<in> {[], ''ms'', ''s'', ''m'', ''h''} \<and>
               (case leading_number s of None \<Rightarrow> False | Some (r, _) \<Rightarrow>
                  (case to_double r of Fin x \<Rightarrow> 0 < x | _ \<Rightarrow> True)))
      | _ \<Rightarrow> False)"

definition record_field :: "pipeline_error \<Rightarrow> jsv \<Rightarrow> pipeline_error + jsv" where
  "record_field e v = (if is_record v then Inr v else Inl e)"

definition mapL :: "('e \<Rightarrow> 'f) \<Rightarrow> 'e + 'a \<Rightarrow> 'f + 'a" where
  "mapL f m = (case m of Inl e \<Rightarrow> Inl (f e) | Inr x \<Rightarrow> Inr x)"

definition validateStep :: "(string \<Rightarrow> string \<Rightarrow> bool) \<Rightarrow> jsv \<Rightarrow> pipeline_error + step" where
  "validateStep coll v =
     (if \<not> is_record v then Inl StepNotObject
      else bindE (nonEmptyString (getp v ''id'') 100 False) (\<lambda>i.
      if \<not> is_identifier i then Inl IdentifierInvalid
      else bindE (nonEmptyString (getp v ''agent'') 100 False) (\<lambda>agent.
      bindE (optional_field (getp v ''dependsOn'') identifierArray) (\<lambda>dependsOn.
      bindE (optional_field (getp v ''retries'') parse_retries) (\<lambda>retries.
      bindE (optional_field (getp v ''onFailure'') (\<lambda>x.
          if js_String x \<in> {''continue'', ''stop'', ''retry''} then Inr x else Inl OnFailureInvalid)) (\<lambda>onFailure.
      bindE (optional_field (getp v ''timeout'') (\<lambda>x.
          if validDuration x then Inr x else Inl TimeoutInvalid)) (\<lambda>timeout.
      bindE (optional_field (getp v ''input'') (record_field InputNotObject)) (\<lambda>inp.
      bindE (optional_field (getp v ''metadata'') (record_field MetadataNotObject)) (\<lambda>metadata.
      bindE (optional_field (getp v ''planner'') (\<lambda>x.
          if x = JBool True then Inr () else Inl PlannerInvalid)) (\<lambda>planner.
      bindE (optional_field (getp v ''delegation'') (\<lambda>x.
          if x = JStr ''opaque'' then Inr ''opaque'' else if x = JStr ''observed'' then Inr ''observed''
          else Inl DelegationInvalid)) (\<lambda>delegation.
      bindE (optional_field (getp v ''contextProjection'') (\<lambda>x.
          mapL ProjectionInvalid (validateContextProjection coll x))) (\<lambda>projection.
      bindE (optional_field (getp v ''stateWrites'') (\<lambda>x.
          mapL WritesInvalid (validateStateWrites coll x))) (\<lambda>writes.
      bindE (mapL StepBudgetInvalid (parseStepBudget (getp v ''budget''))) (\<lambda>budget.
      bindE (optional_field (getp v ''condition'') (\<lambda>x.
          mapL (\<lambda>_. ConditionInvalid) (compile_condition x))) (\<lambda>cond.
        Inr \<lparr>st_id = i, st_agent = agent, st_input = inp, st_dependsOn = dependsOn, st_condition = cond,
             st_timeout = timeout, st_retries = retries, st_onFailure = onFailure, st_metadata = metadata,
             st_projection = projection, st_stateWrites = writes, st_budget = budget,
             st_planner = (planner \<noteq> None), st_delegation = delegation\<rparr>)))))))))))))))"

subsection \<open>The graph\<close>

definition deps :: "step \<Rightarrow> string list" where
  "deps s = (case st_dependsOn s of None \<Rightarrow> [] | Some ds \<Rightarrow> ds)"

definition deps_of :: "step list \<Rightarrow> string \<Rightarrow> string list option" where
  "deps_of steps i = map_option deps (find (\<lambda>s. st_id s = i) steps)"

fun register_steps :: "string list \<Rightarrow> step list \<Rightarrow> pipeline_error + unit" where
  "register_steps ids [] = Inr ()"
| "register_steps ids (s # ss) =
     (if st_id s \<in> set ids then Inl DuplicateStep
      else if \<not> distinct (deps s) then Inl DuplicateDependency
      else register_steps (st_id s # ids) ss)"

definition count_dependency ::
  "step list \<Rightarrow> (string \<Rightarrow> nat) \<Rightarrow> string \<Rightarrow> pipeline_error + (string \<Rightarrow> nat)" where
  "count_dependency steps fanout d =
     (if deps_of steps d = None then Inl MissingDependency
      else if fanout d + 1 > MAX_FANOUT then Inl FanoutExceeded
      else Inr (fanout(d := fanout d + 1)))"

definition check_fanout :: "step list \<Rightarrow> pipeline_error + (string \<Rightarrow> nat)" where
  "check_fanout steps = foldE (count_dependency steps) (\<lambda>_. 0) (concat (map deps steps))"

lemma deps_of_known: "deps_of steps d = Some es \<Longrightarrow> d \<in> set (map st_id steps)"
  by (auto simp: deps_of_def find_Some_iff)

text \<open>
  The depth-first search of \<open>isTransitiveDependency\<close>, with its call stack as the rest of the work list:
  entering a step puts its dependencies before what is left of the step it was entered from.
\<close>

function search :: "step list \<Rightarrow> string \<Rightarrow> string list \<Rightarrow> string list \<Rightarrow> bool" where
  "search steps candidate seen [] = False"
| "search steps candidate seen (d # ds) =
     (if d = candidate then True
      else if d \<in> set seen then search steps candidate seen ds
      else search steps candidate (d # seen) ((case deps_of steps d of None \<Rightarrow> [] | Some es \<Rightarrow> es) @ ds))"
  by pat_completeness auto

termination
proof (relation "measures [\<lambda>(steps, c, seen, ds). card (set (map st_id steps) - set seen),
    \<lambda>(steps, c, seen, ds). length ds]", goal_cases)
  case (3 steps candidate seen d ds)
  show ?case
  proof (cases "deps_of steps d")
    case None
    have "card (set (map st_id steps) - set (d # seen)) \<le> card (set (map st_id steps) - set seen)"
      by (intro card_mono) auto
    with None show ?thesis by auto
  next
    case (Some es)
    from deps_of_known [OF this] 3
    have "card (set (map st_id steps) - set (d # seen)) < card (set (map st_id steps) - set seen)"
      by (intro psubset_card_mono) auto
    then show ?thesis by simp
  qed
qed auto

definition isTransitiveDependency :: "step list \<Rightarrow> step \<Rightarrow> string \<Rightarrow> bool" where
  "isTransitiveDependency steps s candidate = search steps candidate [st_id s] (deps s)"

definition check_artifacts :: "step list \<Rightarrow> step \<Rightarrow> pipeline_error + unit" where
  "check_artifacts steps s =
     forE (\<lambda>sel. if as_fromStep sel = st_id s then Inl ArtifactFromSelf
        else if \<not> isTransitiveDependency steps s (as_fromStep sel) then Inl ArtifactNotDependency
        else Inr ())
       (case st_projection s of None \<Rightarrow> [] | Some p \<Rightarrow>
          (case cp_artifacts p of None \<Rightarrow> [] | Some sels \<Rightarrow> sels))"

definition writes_of :: "step \<Rightarrow> state_write list" where
  "writes_of s = (case st_stateWrites s of None \<Rightarrow> [] | Some ws \<Rightarrow> ws)"

text \<open>The steps that write a key, in order, for the keys in the order of their first writer.\<close>

definition writers :: "step list \<Rightarrow> string \<Rightarrow> step list" where
  "writers steps key = concat (map (\<lambda>s. replicate (length (filter (\<lambda>w. sw_key w = key) (writes_of s))) s) steps)"

fun check_pairs :: "step list \<Rightarrow> step list \<Rightarrow> pipeline_error + unit" where
  "check_pairs steps [] = Inr ()"
| "check_pairs steps (a # rest) =
     bindE (forE (\<lambda>b. if isTransitiveDependency steps a (st_id b) \<or> isTransitiveDependency steps b (st_id a)
                     then Inr () else Inl WriteConflict) rest)
       (\<lambda>_. check_pairs steps rest)"

definition check_writers :: "step list \<Rightarrow> pipeline_error + unit" where
  "check_writers steps =
     forE (\<lambda>key. check_pairs steps (writers steps key))
       (uniq (concat (map (\<lambda>s. map sw_key (writes_of s)) steps)))"

text \<open>The memoised depth; \<open>visiting\<close> holds the steps whose computation is in progress.\<close>

function depth_of :: "step list \<Rightarrow> string list \<Rightarrow> (string \<rightharpoonup> nat) \<Rightarrow> string \<Rightarrow>
    pipeline_error + (string \<rightharpoonup> nat) \<times> nat"
  and depth_list :: "step list \<Rightarrow> string list \<Rightarrow> (string \<rightharpoonup> nat) \<Rightarrow> string list \<Rightarrow>
    pipeline_error + (string \<rightharpoonup> nat) \<times> nat" where
  "depth_of steps visiting depths i =
     (case depths i of
        Some n \<Rightarrow> Inr (depths, n)
      | None \<Rightarrow>
          if i \<in> set visiting then Inl CycleFound
          else case deps_of steps i of
            None \<Rightarrow> Inl MissingDependency
          | Some ds \<Rightarrow> bindE (depth_list steps (i # visiting) depths ds) (\<lambda>(depths', n).
              if 1 + n > MAX_DEPTH then Inl DepthExceeded else Inr (depths'(i \<mapsto> 1 + n), 1 + n)))"
| "depth_list steps visiting depths [] = Inr (depths, 0)"
| "depth_list steps visiting depths (d # ds) =
     bindE (depth_of steps visiting depths d) (\<lambda>(depths1, n).
       bindE (depth_list steps visiting depths1 ds) (\<lambda>(depths2, m). Inr (depths2, max n m)))"
  by pat_completeness auto
termination
proof (relation "measures [\<lambda>x. case x of
      Inl (steps, visiting, depths, i) \<Rightarrow> card (set (map st_id steps) - set visiting)
    | Inr (steps, visiting, depths, ds) \<Rightarrow> card (set (map st_id steps) - set visiting),
    \<lambda>x. case x of Inl _ \<Rightarrow> 0 | Inr (steps, visiting, depths, ds) \<Rightarrow> Suc (length ds)]", goal_cases)
  case (2 steps visiting depths i ds)
  from deps_of_known [OF 2(3)] 2(2)
  have "card (set (map st_id steps) - set (i # visiting)) < card (set (map st_id steps) - set visiting)"
    by (intro psubset_card_mono) auto
  then show ?case by simp
qed auto

declare depth_of.simps [simp del] depth_list.simps [simp del]

definition check_depth :: "step list \<Rightarrow> pipeline_error + (string \<rightharpoonup> nat)" where
  "check_depth steps = foldE (\<lambda>depths s. bindE (depth_of steps [] depths (st_id s)) (\<lambda>r. Inr (fst r)))
     Map.empty steps"

definition validateGraph :: "step list \<Rightarrow> pipeline_error + unit" where
  "validateGraph steps =
     bindE (register_steps [] steps) (\<lambda>_.
     bindE (check_fanout steps) (\<lambda>_.
     bindE (forE (check_artifacts steps) steps) (\<lambda>_.
     bindE (check_writers steps) (\<lambda>_.
     bindE (check_depth steps) (\<lambda>_. Inr ())))))"

definition validateSteps :: "(string \<Rightarrow> string \<Rightarrow> bool) \<Rightarrow> jsv \<Rightarrow> pipeline_error + step list" where
  "validateSteps coll v =
     (case v of
        JArr vs \<Rightarrow>
          if vs = [] then Inl NoSteps
          else if length vs > MAX_STEPS then Inl TooManySteps
          else bindE (mapE (validateStep coll) vs) (\<lambda>steps.
            bindE (validateGraph steps) (\<lambda>_. Inr steps))
      | _ \<Rightarrow> Inl NoSteps)"

record pipeline =
  pl_name :: string
  pl_version :: string
  pl_description :: "string option"
  pl_budget :: "pipeline_budget option"
  pl_steps :: "step list"

definition validatePipeline :: "(string \<Rightarrow> string \<Rightarrow> bool) \<Rightarrow> jsv \<Rightarrow> pipeline_error + pipeline" where
  "validatePipeline coll v =
     (if \<not> is_record v then Inl PipelineNotObject
      else bindE (nonEmptyString (getp v ''name'') 255 False) (\<lambda>name.
        bindE (nonEmptyString (getp v ''version'') 50 False) (\<lambda>version.
        bindE (validateSteps coll (getp v ''steps'')) (\<lambda>steps.
        bindE (mapL BudgetInvalid (parsePipelineBudget (getp v ''budget''))) (\<lambda>budget.
        bindE (if nullish (getp v ''description'') then Inr None
               else bindE (nonEmptyString (getp v ''description'') 10000 True) (\<lambda>s. Inr (Some s))) (\<lambda>description.
          Inr \<lparr>pl_name = name, pl_version = version, pl_description = description, pl_budget = budget,
               pl_steps = steps\<rparr>))))))"

end
