(* ===== verification/Pipeline_Properties.thy ===== *)
theory Pipeline_Properties
  imports Pipeline
begin

text \<open>
  The properties of pipeline validation (theory Pipeline): the graph search decides reachability, and the
  graph checks accept exactly the dependency graphs of the specification \<open>graph_ok\<close>.
\<close>

subsection \<open>Reachability\<close>

definition dep_rel :: "step list \<Rightarrow> (string \<times> string) set" where
  "dep_rel steps = {(i, j). \<exists>ds. deps_of steps i = Some ds \<and> j \<in> set ds}"

abbreviation succs :: "step list \<Rightarrow> string \<Rightarrow> string list" where
  "succs steps d \<equiv> (case deps_of steps d of None \<Rightarrow> [] | Some es \<Rightarrow> es)"

lemma succs_rel: "j \<in> set (succs steps i) \<longleftrightarrow> (i, j) \<in> dep_rel steps"
  by (cases "deps_of steps i") (auto simp: dep_rel_def)

lemma search_sound: "search steps c seen ws \<Longrightarrow> \<exists>d \<in> set ws. d = c \<or> (d, c) \<in> (dep_rel steps)\<^sup>+"
proof (induction steps c seen ws rule: search.induct)
  case (2 steps c seen d ds)
  consider "d = c" | "d \<noteq> c" "d \<in> set seen" | "d \<noteq> c" "d \<notin> set seen" by blast
  then show ?case
  proof cases
    case 3
    with 2 obtain e where e: "e \<in> set (succs steps d @ ds)" "e = c \<or> (e, c) \<in> (dep_rel steps)\<^sup>+" by auto
    show ?thesis
    proof (cases "e \<in> set ds")
      case False
      with e(1) have "(d, e) \<in> dep_rel steps" by (auto simp: succs_rel [symmetric])
      with e(2) have "(d, c) \<in> (dep_rel steps)\<^sup>+" by (auto intro: trancl_into_trancl2)
      then show ?thesis by auto
    qed (use e in auto)
  qed (use 2 in auto)
qed simp

lemma search_complete:
  "\<not> search steps c seen ws \<Longrightarrow> \<exists>S. set seen \<subseteq> S \<and> set ws \<subseteq> S \<and> c \<notin> set ws \<and>
     (\<forall>x \<in> S - set seen. set (succs steps x) \<subseteq> S \<and> c \<notin> set (succs steps x))"
proof (induction steps c seen ws rule: search.induct)
  case (2 steps c seen d ds)
  show ?case
  proof (cases "d \<in> set seen")
    case True
    with 2 obtain S where "set seen \<subseteq> S" "set ds \<subseteq> S" "c \<notin> set ds" "d \<noteq> c"
      "\<forall>x \<in> S - set seen. set (succs steps x) \<subseteq> S \<and> c \<notin> set (succs steps x)"
      by (auto split: if_splits)
    with True show ?thesis by (intro exI [of _ S]) auto
  next
    case False
    with 2 obtain S where "set (d # seen) \<subseteq> S" "set (succs steps d @ ds) \<subseteq> S" "d \<noteq> c"
      "c \<notin> set (succs steps d @ ds)"
      "\<forall>x \<in> S - set (d # seen). set (succs steps x) \<subseteq> S \<and> c \<notin> set (succs steps x)"
      by (auto split: if_splits)
    then show ?thesis by (intro exI [of _ S]) auto
  qed
qed (intro exI [of _ "set seen" for seen], auto)

lemma isTransitiveDependency_correct':
  assumes "deps_of steps (st_id s) = Some (deps s)"
  shows "isTransitiveDependency steps s c \<longleftrightarrow> (st_id s, c) \<in> (dep_rel steps)\<^sup>+"
proof
  assume "isTransitiveDependency steps s c"
  with search_sound obtain d where "d \<in> set (deps s)" "d = c \<or> (d, c) \<in> (dep_rel steps)\<^sup>+"
    unfolding isTransitiveDependency_def by blast
  moreover from this(1) assms have "(st_id s, d) \<in> dep_rel steps" by (simp add: dep_rel_def)
  ultimately show "(st_id s, c) \<in> (dep_rel steps)\<^sup>+" by (auto intro: trancl_into_trancl2)
next
  assume reach: "(st_id s, c) \<in> (dep_rel steps)\<^sup>+"
  show "isTransitiveDependency steps s c"
  proof (rule ccontr)
    assume "\<not> isTransitiveDependency steps s c"
    then obtain S where S: "st_id s \<in> S" "set (deps s) \<subseteq> S" "c \<notin> set (deps s)"
      "\<forall>x \<in> S - {st_id s}. set (succs steps x) \<subseteq> S \<and> c \<notin> set (succs steps x)"
      using search_complete [of steps c "[st_id s]" "deps s"] by (auto simp: isTransitiveDependency_def)
    have closed: "set (succs steps x) \<subseteq> S \<and> c \<notin> set (succs steps x)" if "x \<in> S" for x
      using that S assms by (cases "x = st_id s") auto
    from reach obtain y where y: "(st_id s, y) \<in> (dep_rel steps)\<^sup>*" "(y, c) \<in> dep_rel steps"
      by (meson tranclD2)
    from y(1) have "y \<in> S"
      by (induction rule: rtrancl_induct) (use S(1) closed in \<open>auto simp: succs_rel [symmetric]\<close>)
    with closed [of y] y(2) show False by (auto simp: succs_rel [symmetric])
  qed
qed

text \<open>The recursive search with its shared set of seen steps decides transitive dependency: it finds
  a candidate exactly when the declared dependencies lead from the step to it.\<close>

theorem isTransitiveDependency_correct:
  assumes "deps_of steps (st_id s) = Some (deps s)"
  shows "isTransitiveDependency steps s c \<longleftrightarrow> (st_id s, c) \<in> (dep_rel steps)\<^sup>+"
  by (rule isTransitiveDependency_correct' [OF assms])

definition ex_step :: "string \<Rightarrow> string list \<Rightarrow> state_write list \<Rightarrow> step" where
  "ex_step i ds ws = \<lparr>st_id = i, st_agent = ''x'', st_input = None, st_dependsOn = Some ds, st_condition = None,
     st_timeout = None, st_retries = None, st_onFailure = None, st_metadata = None, st_projection = None,
     st_stateWrites = Some ws, st_budget = None, st_planner = False, st_delegation = None\<rparr>"

definition ex_steps :: "step list" where
  "ex_steps = [ex_step ''c'' [''b''] [\<lparr>sw_key = ''k'', sw_fromOutput = ''/a''\<rparr>], ex_step ''b'' [''a''] [],
     ex_step ''a'' [] [\<lparr>sw_key = ''k'', sw_fromOutput = ''/a''\<rparr>]]"

lemma ex_deps: "deps (ex_step i ds ws) = ds" "st_id (ex_step i ds ws) = i"
  "st_projection (ex_step i ds ws) = None" "writes_of (ex_step i ds ws) = ws"
  by (simp_all add: deps_def ex_step_def writes_of_def)

theorem isTransitiveDependency_correct_witness: "(''c'', ''a'') \<in> (dep_rel ex_steps)\<^sup>+"
proof -
  have "isTransitiveDependency ex_steps (ex_steps ! 0) ''a''"
    by (simp add: isTransitiveDependency_def ex_steps_def ex_deps deps_of_def)
  with isTransitiveDependency_correct [of ex_steps "ex_steps ! 0" "''a''"] show ?thesis
    by (simp add: ex_steps_def ex_deps deps_of_def)
qed

subsection \<open>The depth search\<close>

definition depths_ok :: "step list \<Rightarrow> (string \<rightharpoonup> nat) \<Rightarrow> bool" where
  "depths_ok steps dp \<longleftrightarrow> (\<forall>i n. dp i = Some n \<longrightarrow> 0 < n \<and> n \<le> MAX_DEPTH \<and>
     (\<exists>ds. deps_of steps i = Some ds \<and> (\<forall>j \<in> set ds. \<exists>m < n. dp j = Some m)))"

definition grows :: "string list \<Rightarrow> (string \<rightharpoonup> nat) \<Rightarrow> (string \<rightharpoonup> nat) \<Rightarrow> bool" where
  "grows visiting dp dp' \<longleftrightarrow> dp \<subseteq>\<^sub>m dp' \<and> (\<forall>v \<in> set visiting. dp v = None \<longrightarrow> dp' v = None)"

lemma grows_refl [simp]: "grows vis dp dp"
  by (simp add: grows_def)

lemma grows_trans: "grows vis a b \<Longrightarrow> grows vis b c \<Longrightarrow> grows vis a c"
  by (auto simp: grows_def intro: map_le_trans)

lemma map_le_Some: "a \<subseteq>\<^sub>m b \<Longrightarrow> a k = Some v \<Longrightarrow> b k = Some v"
  by (metis domI map_le_def)

lemma depth_sound:
  "depth_of steps vis dp i = Inr (dp', n) \<Longrightarrow> depths_ok steps dp \<Longrightarrow>
     depths_ok steps dp' \<and> grows vis dp dp' \<and> dp' i = Some n"
  "depth_list steps vis dp ds = Inr (dp', m) \<Longrightarrow> depths_ok steps dp \<Longrightarrow>
     depths_ok steps dp' \<and> grows vis dp dp' \<and> (\<forall>d \<in> set ds. \<exists>k \<le> m. dp' d = Some k)"
proof (induction steps vis dp i and steps vis dp ds arbitrary: dp' n and dp' m
    rule: depth_of_depth_list.induct)
  case (1 steps vis dp i)
  show ?case
  proof (cases "dp i")
    case (Some k)
    with "1.prems" show ?thesis by (auto simp: depth_of.simps)
  next
    case None
    with "1.prems"(1) obtain ds dp1 k where i: "i \<notin> set vis" and ds: "deps_of steps i = Some ds"
      and k: "depth_list steps (i # vis) dp ds = Inr (dp1, k)" "1 + k \<le> MAX_DEPTH" "dp' = dp1(i \<mapsto> 1 + k)" "n = 1 + k"
      by (auto simp: depth_of.simps bindE_Inr_iff split: if_splits option.splits)
    from "1.IH" [OF None i ds k(1) "1.prems"(2)]
    have ok: "depths_ok steps dp1" "grows (i # vis) dp dp1" "\<forall>d \<in> set ds. \<exists>j \<le> k. dp1 d = Some j" by auto
    have fresh: "dp1 i = None" using ok(2) None by (simp add: grows_def)
    have le: "dp1 \<subseteq>\<^sub>m dp'" using fresh by (auto simp: k(3) map_le_def)
    have "depths_ok steps dp'"
      unfolding depths_ok_def
    proof (intro allI impI)
      fix j m assume j: "dp' j = Some m"
      show "0 < m \<and> m \<le> MAX_DEPTH \<and> (\<exists>ds. deps_of steps j = Some ds \<and> (\<forall>d \<in> set ds. \<exists>x < m. dp' d = Some x))"
      proof (cases "j = i")
        case True
        with j k(3) have m: "m = 1 + k" by simp
        have "\<exists>x < m. dp' d = Some x" if "d \<in> set ds" for d
          using ok(3) that map_le_Some [OF le] m by (metis le_imp_less_Suc plus_1_eq_Suc)
        with m k(2) ds True show ?thesis by simp
      next
        case False
        with j k(3) have "dp1 j = Some m" by simp
        with ok(1) obtain es where "0 < m" "m \<le> MAX_DEPTH" "deps_of steps j = Some es"
          "\<forall>d \<in> set es. \<exists>x < m. dp1 d = Some x" unfolding depths_ok_def by meson
        with map_le_Some [OF le] show ?thesis by metis
      qed
    qed
    moreover have "grows vis dp dp'"
      using ok(2) le i by (auto simp: grows_def k(3) intro: map_le_trans)
    moreover have "dp' i = Some n" by (simp add: k)
    ultimately show ?thesis by blast
  qed
next
  case (2 steps vis dp)
  then show ?case by (simp add: depth_list.simps)
next
  case (3 steps vis dp d ds)
  from "3.prems"(1) obtain dp1 n1 n2 where d: "depth_of steps vis dp d = Inr (dp1, n1)"
    and l: "depth_list steps vis dp1 ds = Inr (dp', n2)" "m = max n1 n2"
    by (auto simp: depth_list.simps bindE_Inr_iff)
  from "3.IH"(1) [OF d "3.prems"(2)] have o1: "depths_ok steps dp1" "grows vis dp dp1" "dp1 d = Some n1" by auto
  from "3.IH"(2) [OF l(1) o1(1)] have o2: "depths_ok steps dp'" "grows vis dp1 dp'"
    "\<forall>d \<in> set ds. \<exists>k \<le> n2. dp' d = Some k" by auto
  have "dp' d = Some n1" using o2(2) o1(3) by (auto simp: grows_def intro: map_le_Some)
  with o2 l(2) grows_trans [OF o1(2) o2(2)] show ?case by (auto simp: le_max_iff_disj)
qed

text \<open>A rank of the steps: at most 20, larger than that of every dependency.\<close>

definition ranked :: "step list \<Rightarrow> (string \<Rightarrow> nat) \<Rightarrow> bool" where
  "ranked steps r \<longleftrightarrow> (\<forall>i ds. deps_of steps i = Some ds \<longrightarrow> 0 < r i \<and> r i \<le> MAX_DEPTH \<and>
     (\<forall>j \<in> set ds. deps_of steps j \<noteq> None \<and> r j < r i))"

definition below :: "(string \<rightharpoonup> nat) \<Rightarrow> (string \<Rightarrow> nat) \<Rightarrow> bool" where
  "below dp r \<longleftrightarrow> (\<forall>i n. dp i = Some n \<longrightarrow> n \<le> r i)"

lemma depth_complete:
  "ranked steps r \<Longrightarrow> deps_of steps i \<noteq> None \<Longrightarrow> \<forall>v \<in> set vis. r i < r v \<Longrightarrow> below dp r \<Longrightarrow>
     \<exists>dp' n. depth_of steps vis dp i = Inr (dp', n) \<and> n \<le> r i \<and> below dp' r"
  "ranked steps r \<Longrightarrow> \<forall>d \<in> set ds. deps_of steps d \<noteq> None \<and> (\<forall>v \<in> set vis. r d < r v) \<Longrightarrow> below dp r \<Longrightarrow>
     \<exists>dp' m. depth_list steps vis dp ds = Inr (dp', m) \<and> (\<forall>b. (\<forall>d \<in> set ds. r d \<le> b) \<longrightarrow> m \<le> b) \<and> below dp' r"
proof (induction steps vis dp i and steps vis dp ds rule: depth_of_depth_list.induct)
  case (1 steps vis dp i)
  show ?case
  proof (cases "dp i")
    case (Some k)
    with "1.prems" show ?thesis by (auto simp: depth_of.simps below_def)
  next
    case None
    from "1.prems"(3) have i: "i \<notin> set vis" by auto
    from "1.prems"(2) obtain ds where ds: "deps_of steps i = Some ds" by auto
    with "1.prems"(1) have r: "0 < r i" "r i \<le> MAX_DEPTH" "\<forall>j \<in> set ds. deps_of steps j \<noteq> None \<and> r j < r i"
      by (auto simp: ranked_def)
    with "1.prems"(3) have "\<forall>d \<in> set ds. deps_of steps d \<noteq> None \<and> (\<forall>v \<in> set (i # vis). r d < r v)" by force
    from "1.IH" [OF None i ds "1.prems"(1) this "1.prems"(4)] obtain dp1 m where
      m: "depth_list steps (i # vis) dp ds = Inr (dp1, m)" "\<forall>b. (\<forall>d \<in> set ds. r d \<le> b) \<longrightarrow> m \<le> b" "below dp1 r"
      by blast
    have "\<forall>d \<in> set ds. r d \<le> r i - 1" using r(3) by auto
    with m(2) r(1) have "1 + m \<le> r i" by (metis Suc_diff_1 Suc_le_mono plus_1_eq_Suc)
    with m r(2) show ?thesis by (auto simp: depth_of.simps None i ds below_def)
  qed
next
  case (2 steps vis dp)
  then show ?case by (intro exI [of _ dp] exI [of _ 0]) (simp add: depth_list.simps)
next
  case (3 steps vis dp d ds)
  from "3.IH"(1) "3.prems" obtain dp1 n where n: "depth_of steps vis dp d = Inr (dp1, n)" "n \<le> r d" "below dp1 r"
    by auto
  from "3.IH"(2) [OF "3.prems"(1) _ n(3)] "3.prems"(2) obtain dp2 m where
    m: "depth_list steps vis dp1 ds = Inr (dp2, m)" "\<forall>b. (\<forall>d \<in> set ds. r d \<le> b) \<longrightarrow> m \<le> b" "below dp2 r" by auto
  with n show ?case by (auto simp: depth_list.simps intro: order_trans)
qed

lemma check_depth_iff:
  assumes "distinct (map st_id steps)"
    and "\<forall>s \<in> set steps. \<forall>d \<in> set (deps s). deps_of steps d \<noteq> None"
  shows "(\<exists>dp. check_depth steps = Inr dp) \<longleftrightarrow> (\<exists>r. ranked steps r)"
proof
  let ?f = "\<lambda>depths s. bindE (depth_of steps [] depths (st_id s)) (\<lambda>r. Inr (fst r))"
  assume "\<exists>dp. check_depth steps = Inr dp"
  then obtain dp where dp: "foldE ?f Map.empty steps = Inr dp" by (auto simp: check_depth_def)
  have gen: "depths_ok steps t \<and> s \<subseteq>\<^sub>m t \<and> (\<forall>x \<in> set xs. t (st_id x) \<noteq> None)"
    if "foldE ?f s xs = Inr t" "depths_ok steps s" for xs s t
    using that
  proof (induction xs arbitrary: s)
    case (Cons x xs)
    then obtain s1 n where s1: "depth_of steps [] s (st_id x) = Inr (s1, n)" "foldE ?f s1 xs = Inr t"
      by (auto simp: bindE_Inr_iff)
    from depth_sound(1) [OF s1(1) Cons.prems(2)] have "depths_ok steps s1" "s \<subseteq>\<^sub>m s1" "s1 (st_id x) = Some n"
      by (auto simp: grows_def)
    with Cons.IH [OF s1(2)] show ?case by (auto intro: map_le_trans dest: map_le_Some)
  qed simp
  have "depths_ok steps Map.empty" by (simp add: depths_ok_def)
  from gen [OF dp this] have ok: "depths_ok steps dp" and all: "\<forall>x \<in> set steps. dp (st_id x) \<noteq> None" by auto
  have known: "\<exists>x \<in> set steps. st_id x = i \<and> deps x = ds" if "deps_of steps i = Some ds" for i ds
    using that by (auto simp: deps_of_def find_Some_iff)
  have "ranked steps (\<lambda>i. the (dp i))"
    unfolding ranked_def
  proof (intro allI impI)
    fix i ds assume ds: "deps_of steps i = Some ds"
    from known [OF this] obtain x where x: "x \<in> set steps" "st_id x = i" "deps x = ds" by auto
    with all obtain n where n: "dp i = Some n" by auto
    from ok n ds have "0 < n" "n \<le> MAX_DEPTH" "\<forall>j \<in> set ds. \<exists>m < n. dp j = Some m"
      unfolding depths_ok_def by fastforce+
    with n x assms(2) show "0 < the (dp i) \<and> the (dp i) \<le> MAX_DEPTH \<and>
        (\<forall>j \<in> set ds. deps_of steps j \<noteq> None \<and> the (dp j) < the (dp i))" by fastforce
  qed
  then show "\<exists>r. ranked steps r" by blast
next
  let ?f = "\<lambda>depths s. bindE (depth_of steps [] depths (st_id s)) (\<lambda>r. Inr (fst r))"
  assume "\<exists>r. ranked steps r"
  then obtain r where r: "ranked steps r" by blast
  have "\<exists>t. foldE ?f s xs = Inr t" if "set xs \<subseteq> set steps" "below s r" for xs s
    using that
  proof (induction xs arbitrary: s)
    case (Cons x xs)
    then have "deps_of steps (st_id x) \<noteq> None" by (auto simp: deps_of_def find_None_iff)
    from depth_complete(1) [OF r this, of "[]" s] Cons.prems obtain s1 n where
      "depth_of steps [] s (st_id x) = Inr (s1, n)" "below s1 r" by auto
    with Cons show ?case by simp
  qed simp
  then show "\<exists>dp. check_depth steps = Inr dp" by (auto simp: check_depth_def below_def)
qed

subsection \<open>What the graph checks accept\<close>

lemma register_steps_iff:
  "register_steps ids steps = Inr u \<longleftrightarrow> distinct (map st_id steps) \<and> set ids \<inter> st_id ` set steps = {} \<and>
     (\<forall>s \<in> set steps. distinct (deps s))"
  by (induction ids steps rule: register_steps.induct) auto

lemma check_fanout_iff:
  "(\<exists>f. foldE (count_dependency steps) g ds = Inr f) \<longleftrightarrow>
     (\<forall>d \<in> set ds. deps_of steps d \<noteq> None \<and> g d + count_list ds d \<le> MAX_FANOUT)"
proof (induction ds arbitrary: g)
  case (Cons d ds)
  show ?case
  proof (cases "deps_of steps d = None \<or> g d + 1 > MAX_FANOUT")
    case True
    then show ?thesis by (auto simp: count_dependency_def)
  next
    case False
    then obtain es where es: "deps_of steps d = Some es" "g d + 1 \<le> MAX_FANOUT" by auto
    then have "(\<exists>f. foldE (count_dependency steps) g (d # ds) = Inr f) \<longleftrightarrow>
        (\<forall>x \<in> set ds. deps_of steps x \<noteq> None \<and> (g(d := g d + 1)) x + count_list ds x \<le> MAX_FANOUT)"
      by (simp add: count_dependency_def Cons.IH)
    also have "\<dots> \<longleftrightarrow> (\<forall>x \<in> set (d # ds). deps_of steps x \<noteq> None \<and> g x + count_list (d # ds) x \<le> MAX_FANOUT)"
      using es by (cases "d \<in> set ds") (auto simp: count_notin)
    finally show ?thesis .
  qed
qed simp

definition selectors :: "step \<Rightarrow> artifact_selector list" where
  "selectors s = (case st_projection s of None \<Rightarrow> [] | Some p \<Rightarrow>
     (case cp_artifacts p of None \<Rightarrow> [] | Some sels \<Rightarrow> sels))"

text \<open>
  The specification: unique ids and dependencies, every dependency a step with a bounded fanout, a rank
  that bounds the depth, artifacts only from transitive dependencies, and any two steps that write the
  same state key ordered by the dependencies.
\<close>

definition ordered_steps :: "step list \<Rightarrow> step \<Rightarrow> step \<Rightarrow> bool" where
  "ordered_steps steps a b \<longleftrightarrow> (st_id a, st_id b) \<in> (dep_rel steps)\<^sup>+ \<or> (st_id b, st_id a) \<in> (dep_rel steps)\<^sup>+"

definition graph_ok :: "step list \<Rightarrow> bool" where
  "graph_ok steps \<longleftrightarrow>
     distinct (map st_id steps) \<and> (\<forall>s \<in> set steps. distinct (deps s)) \<and>
     (\<forall>d \<in> set (concat (map deps steps)). deps_of steps d \<noteq> None \<and>
        count_list (concat (map deps steps)) d \<le> MAX_FANOUT) \<and>
     (\<forall>s \<in> set steps. \<forall>sel \<in> set (selectors s). as_fromStep sel \<noteq> st_id s \<and>
        (st_id s, as_fromStep sel) \<in> (dep_rel steps)\<^sup>+) \<and>
     (\<forall>key. sorted_wrt (ordered_steps steps) (writers steps key)) \<and>
     (\<exists>r. ranked steps r)"

lemma deps_of_step: "distinct (map st_id steps) \<Longrightarrow> s \<in> set steps \<Longrightarrow> deps_of steps (st_id s) = Some (deps s)"
  by (induction steps) (auto simp: deps_of_def image_iff)

lemma check_artifacts_iff:
  assumes "distinct (map st_id steps)" and "s \<in> set steps"
  shows "check_artifacts steps s = Inr () \<longleftrightarrow> (\<forall>sel \<in> set (selectors s). as_fromStep sel \<noteq> st_id s \<and>
    (st_id s, as_fromStep sel) \<in> (dep_rel steps)\<^sup>+)"
  using isTransitiveDependency_correct' [OF deps_of_step [OF assms]]
  by (auto simp: check_artifacts_def selectors_def [symmetric] forE_Inr_iff split: if_splits)

lemma check_pairs_iff:
  assumes "distinct (map st_id steps)" and "set ss \<subseteq> set steps"
  shows "check_pairs steps ss = Inr () \<longleftrightarrow> sorted_wrt (ordered_steps steps) ss"
  using assms(2)
proof (induction ss)
  case (Cons a ss)
  have "isTransitiveDependency steps x y \<longleftrightarrow> (st_id x, y) \<in> (dep_rel steps)\<^sup>+" if "x \<in> set (a # ss)" for x y
    using that Cons.prems by (intro isTransitiveDependency_correct' deps_of_step [OF assms(1)]) auto
  with Cons show ?case by (auto simp: bindE_Inr_iff forE_Inr_iff ordered_steps_def split: if_splits)
qed simp

lemma writers_subset: "set (writers steps key) \<subseteq> set steps"
  by (auto simp: writers_def)

lemma writers_none: "key \<notin> set (concat (map (\<lambda>s. map sw_key (writes_of s)) steps)) \<Longrightarrow> writers steps key = []"
  by (fastforce simp: writers_def filter_empty_conv)

lemma check_writers_iff:
  assumes "distinct (map st_id steps)"
  shows "check_writers steps = Inr () \<longleftrightarrow> (\<forall>key. sorted_wrt (ordered_steps steps) (writers steps key))"
proof -
  have "check_writers steps = Inr () \<longleftrightarrow>
      (\<forall>key \<in> set (concat (map (\<lambda>s. map sw_key (writes_of s)) steps)).
        sorted_wrt (ordered_steps steps) (writers steps key))"
    unfolding check_writers_def forE_Inr_iff set_uniq
    using check_pairs_iff [OF assms writers_subset] by simp
  moreover have "sorted_wrt (ordered_steps steps) (writers steps key)"
    if "key \<notin> set (concat (map (\<lambda>s. map sw_key (writes_of s)) steps))" for key
    using writers_none [OF that] by simp
  ultimately show ?thesis by blast
qed

lemma validateGraph_iff': "validateGraph steps = Inr () \<longleftrightarrow> graph_ok steps"
proof (cases "distinct (map st_id steps) \<and> (\<forall>s \<in> set steps. distinct (deps s)) \<and>
    (\<forall>d \<in> set (concat (map deps steps)). deps_of steps d \<noteq> None)")
  case True
  then have d: "distinct (map st_id steps)"
    and k: "\<forall>s \<in> set steps. \<forall>d \<in> set (deps s). deps_of steps d \<noteq> None" by auto
  have "validateGraph steps = Inr () \<longleftrightarrow> register_steps [] steps = Inr () \<and> (\<exists>f. check_fanout steps = Inr f) \<and>
      (\<forall>s \<in> set steps. check_artifacts steps s = Inr ()) \<and> check_writers steps = Inr () \<and>
      (\<exists>dp. check_depth steps = Inr dp)"
    by (auto simp: validateGraph_def bindE_Inr_iff forE_Inr_iff)
  also have "\<dots> \<longleftrightarrow> graph_ok steps"
    using True check_fanout_iff [of steps "\<lambda>_. 0" "concat (map deps steps)"]
    by (simp add: graph_ok_def register_steps_iff check_fanout_def check_artifacts_iff [OF d]
        check_writers_iff [OF d] check_depth_iff [OF d k])
  finally show ?thesis .
next
  case False
  then have "\<not> graph_ok steps" by (auto simp: graph_ok_def)
  moreover from False have "validateGraph steps \<noteq> Inr ()"
    using check_fanout_iff [of steps "\<lambda>_. 0" "concat (map deps steps)"]
    by (auto simp: validateGraph_def bindE_Inr_iff register_steps_iff check_fanout_def)
  ultimately show ?thesis by simp
qed

text \<open>C34: the graph checks accept a list of steps exactly when it meets the specification \<open>graph_ok\<close>: the
  dependencies are acyclic, at most 20 deep and wide, and prove the order of conflicting state writes.\<close>

theorem validateGraph_iff: "validateGraph steps = Inr () \<longleftrightarrow> graph_ok steps"
  by (rule validateGraph_iff')

lemma ranked_trancl:
  assumes "ranked steps r" and "(i, j) \<in> (dep_rel steps)\<^sup>+"
  shows "r j < r i"
  using assms(2) by (induction rule: trancl_induct) (use assms(1) in \<open>force simp: ranked_def dep_rel_def\<close>)+

lemma validateStep_id: "validateStep coll v = Inr s \<Longrightarrow> is_identifier (st_id s)"
  by (auto simp: validateStep_def bindE_Inr_iff split: if_splits)

text \<open>An accepted pipeline can run to its end: it has 1 to 100 steps with valid identifiers, and no
  step depends on itself, directly or through others.\<close>

theorem validatePipeline_acyclic:
  assumes "validatePipeline coll v = Inr p"
  shows "pl_steps p \<noteq> [] \<and> length (pl_steps p) \<le> MAX_STEPS \<and> list_all (\<lambda>s. is_identifier (st_id s)) (pl_steps p) \<and>
    (i, i) \<notin> (dep_rel (pl_steps p))\<^sup>+"
proof -
  from assms have "validateSteps coll (getp v ''steps'') = Inr (pl_steps p)"
    by (auto simp: validatePipeline_def bindE_Inr_iff split: if_splits)
  then obtain vs where vs: "vs \<noteq> []" "length vs \<le> MAX_STEPS" "mapE (validateStep coll) vs = Inr (pl_steps p)"
    and "validateGraph (pl_steps p) = Inr ()"
    by (auto simp: validateSteps_def bindE_Inr_iff split: jsv.splits if_splits)
  then have "graph_ok (pl_steps p)" by (simp add: validateGraph_iff')
  then obtain r where "ranked (pl_steps p) r" by (auto simp: graph_ok_def)
  from ranked_trancl [OF this, of i i] have "(i, i) \<notin> (dep_rel (pl_steps p))\<^sup>+" by blast
  moreover have "list_all (\<lambda>s. is_identifier (st_id s)) (pl_steps p)"
    unfolding list_all_iff using mapE_Inr_set [OF vs(3)] validateStep_id by metis
  ultimately show ?thesis using vs mapE_Inr_length [OF vs(3)] by auto
qed

definition ex_pipeline :: jsv where
  "ex_pipeline = JObj [(''name'', JStr ''p''), (''version'', JStr ''1''), (''steps'', JArr
     [JObj [(''id'', JStr ''b''), (''agent'', JStr ''x''), (''dependsOn'', JArr [JStr ''a''])],
      JObj [(''id'', JStr ''a''), (''agent'', JStr ''x''), (''retries'', jint 2)]])]"

lemma ex_pipeline_run:
  "(case validatePipeline ex_coll ex_pipeline of Inl _ \<Rightarrow> False | Inr p \<Rightarrow> map st_id (pl_steps p) = [''b'', ''a''])"
  by code_simp

lemma ex_pipeline_ok: "\<exists>p. validatePipeline ex_coll ex_pipeline = Inr p"
  using ex_pipeline_run by (auto split: sum.splits)

theorem validatePipeline_acyclic_witness:
  "\<exists>p. validatePipeline ex_coll ex_pipeline = Inr p \<and> (''a'', ''a'') \<notin> (dep_rel (pl_steps p))\<^sup>+"
  using ex_pipeline_ok validatePipeline_acyclic by blast

end
