(* ===== verification/JSDate.thy ===== *)
theory JSDate
  imports Json
begin

text \<open>
  Dates of the runtime: a date is its time value in milliseconds; \<open>Date.prototype.toISOString\<close> is written out.
\<close>

text \<open>The proleptic Gregorian date of a day number (day 0 is 1970-01-01), as year, month and day.\<close>

definition civil :: "int \<Rightarrow> int \<times> int \<times> int" where
  "civil days =
     (let z = days + 719468; era = z div 146097; doe = z mod 146097;
          yoe = (doe - doe div 1460 + doe div 36524 - doe div 146096) div 365;
          doy = doe - (365 * yoe + yoe div 4 - yoe div 100);
          mp = (5 * doy + 2) div 153;
          m = (if mp < 10 then mp + 3 else mp - 9)
      in (yoe + 400 * era + (if m \<le> 2 then 1 else 0), m, doy - (153 * mp + 2) div 5 + 1))"

definition pad :: "nat \<Rightarrow> int \<Rightarrow> string" where
  "pad k n = (let s = int_str n in replicate (k - length s) (CHR ''0'') @ s)"

definition toISOString :: "int \<Rightarrow> string" where
  "toISOString ms =
     (let (y, m, d) = civil (ms div 86400000); t = ms mod 86400000
      in (if 0 \<le> y \<and> y \<le> 9999 then pad 4 y else if 0 \<le> y then ''+'' @ pad 6 y else ''-'' @ pad 6 (- y))
         @ ''-'' @ pad 2 m @ ''-'' @ pad 2 d @ ''T'' @ pad 2 (t div 3600000) @ '':''
         @ pad 2 (t div 60000 mod 60) @ '':'' @ pad 2 (t div 1000 mod 60) @ ''.'' @ pad 3 (t mod 1000) @ ''Z'')"

text \<open>The epoch, a leap day, the last millisecond before the epoch.\<close>

lemma toISOString_examples:
  "toISOString 0 = ''1970-01-01T00:00:00.000Z''"
  "toISOString 1709164800123 = ''2024-02-29T00:00:00.123Z''"
  "toISOString (- 1) = ''1969-12-31T23:59:59.999Z''"
  by code_simp+

text \<open>The text of a date (its time value is at most 8.64e15 in magnitude) is short.\<close>

lemma length_nat_str: "n < 10 ^ k \<Longrightarrow> 0 < k \<Longrightarrow> length (nat_str n) \<le> k"
proof (induction n arbitrary: k rule: nat_str.induct)
  case (1 n)
  show ?case
  proof (cases "n < 10")
    case False
    then obtain j where k: "k = Suc j" "0 < j" using 1(2,3) by (cases k; cases "k - 1") auto
    then have "n div 10 < 10 ^ j" using 1(2) by auto
    with 1(1) [OF False this k(2)] False k show ?thesis by (simp add: nat_str.simps [of n])
  qed (use 1 in \<open>simp add: nat_str.simps [of n]\<close>)
qed

lemma length_int_str: "\<bar>n\<bar> < 10 ^ k \<Longrightarrow> 0 < k \<Longrightarrow> length (int_str n) \<le> Suc k"
  using length_nat_str [of "nat \<bar>n\<bar>" k]
  by (auto simp: int_str_def nat_less_iff split: if_splits)

lemma length_pad: "\<bar>n\<bar> < 10 ^ j \<Longrightarrow> 0 < j \<Longrightarrow> length (pad k n) \<le> max k (Suc j)"
  using length_int_str [of n j] by (simp add: pad_def Let_def)

lemma div_bounds: "0 < c \<Longrightarrow> x div c * c \<le> (x::int) \<and> x < x div c * c + c"
  using div_mult_mod_eq [of x c] pos_mod_bound [of c x] pos_mod_sign [of c x] by linarith

lemma civil_bounds:
  assumes "civil days = (y, m, d)" and "\<bar>days\<bar> \<le> 100000000"
  shows "\<bar>y\<bar> < 10 ^ 6 \<and> \<bar>m\<bar> < 10 ^ 6 \<and> \<bar>d\<bar> < 10 ^ 8"
proof -
  define z where "z = days + 719468"
  define doe where "doe = z mod 146097"
  define yoe where "yoe = (doe - doe div 1460 + doe div 36524 - doe div 146096) div 365"
  define doy where "doy = doe - (365 * yoe + yoe div 4 - yoe div 100)"
  define mp where "mp = (5 * doy + 2) div 153"
  have doe: "0 \<le> doe" "doe < 146097" by (simp_all add: doe_def)
  have yoe: "\<bar>yoe\<bar> < 1000"
    using doe div_bounds [of 1460 doe] div_bounds [of 36524 doe] div_bounds [of 146096 doe]
      div_bounds [of 365 "doe - doe div 1460 + doe div 36524 - doe div 146096"]
    unfolding yoe_def [symmetric] by linarith
  have doy: "\<bar>doy\<bar> < 600000"
    using doe yoe div_bounds [of 4 yoe] div_bounds [of 100 yoe] unfolding doy_def by linarith
  have mp: "\<bar>mp\<bar> < 100000" using doy div_bounds [of 153 "5 * doy + 2"] unfolding mp_def by linarith
  have era: "\<bar>z div 146097\<bar> < 1000" using assms(2) div_bounds [of 146097 z] unfolding z_def by linarith
  define m' where "m' = (if mp < 10 then mp + 3 else mp - 9)"
  have m': "\<bar>m'\<bar> < 200000" using mp unfolding m'_def by (cases "mp < 10") auto
  have "civil days = (yoe + 400 * (z div 146097) + (if m' \<le> 2 then 1 else 0), m',
      doy - (153 * mp + 2) div 5 + 1)"
    by (simp only: civil_def Let_def z_def doe_def yoe_def doy_def mp_def m'_def)
  with assms(1) have "(y, m, d) = (yoe + 400 * (z div 146097) + (if m' \<le> 2 then 1 else 0), m',
      doy - (153 * mp + 2) div 5 + 1)" by (rule trans [OF sym])
  then have eqs: "y = yoe + 400 * (z div 146097) + (if m' \<le> 2 then 1 else 0) \<and> m = m' \<and>
      d = doy - (153 * mp + 2) div 5 + 1" by (simp only: prod.inject)
  have "0 \<le> (if m' \<le> 2 then 1 else 0 :: int)" "(if m' \<le> 2 then 1 else 0 :: int) \<le> 1" by simp_all
  with eqs [THEN conjunct1] yoe era have "\<bar>y\<bar> < 1000000" by linarith
  moreover from eqs [THEN conjunct2, THEN conjunct2] doy mp div_bounds [of 5 "153 * mp + 2"]
  have "\<bar>d\<bar> < 100000000" by linarith
  moreover from eqs m' have "\<bar>m\<bar> < 10 ^ 6" by simp
  ultimately show ?thesis by simp
qed

lemma mod_bound: "0 < c \<Longrightarrow> \<bar>x mod c\<bar> < (c::int)"
  by simp

lemma length_toISOString:
  assumes "\<bar>ms\<bar> \<le> 8640000000000000"
  shows "toISOString ms \<noteq> [] \<and> length (toISOString ms) \<le> 64"
proof -
  obtain y m d where c: "civil (ms div 86400000) = (y, m, d)" by (metis prod_cases3)
  have "\<bar>ms div 86400000\<bar> \<le> 100000000" using assms div_bounds [of 86400000 ms] by linarith
  from civil_bounds [OF c this] have b: "\<bar>y\<bar> < 10 ^ 6" "\<bar>m\<bar> < 10 ^ 6" "\<bar>d\<bar> < 10 ^ 8" by auto
  define t where "t = ms mod 86400000"
  have "0 \<le> t" "t < 86400000" by (simp_all add: t_def)
  then have t1: "\<bar>t div 3600000\<bar> < 10 ^ 2" using div_bounds [of 3600000 t] by simp
  have t2: "\<bar>t div 60000 mod 60\<bar> < 10 ^ 2" using mod_bound [of 60 "t div 60000"] by simp
  have t3: "\<bar>t div 1000 mod 60\<bar> < 10 ^ 2" using mod_bound [of 60 "t div 1000"] by simp
  have t4: "\<bar>t mod 1000\<bar> < 10 ^ 3" using mod_bound [of 1000 t] by simp
  note len = length_pad [OF b(1), of 4] length_pad [OF b(1), of 6] length_pad [of "- y" 6 6]
    length_pad [OF b(2), of 2] length_pad [OF b(3), of 2] length_pad [OF t1, of 2] length_pad [OF t2, of 2]
    length_pad [OF t3, of 2] length_pad [OF t4, of 3]
  have "length (if 0 \<le> y \<and> y \<le> 9999 then pad 4 y else if 0 \<le> y then ''+'' @ pad 6 y else ''-'' @ pad 6 (- y)) \<le> 8"
    using len(1-3) b(1) by (simp split: if_split)
  moreover define year where
    "year = (if 0 \<le> y \<and> y \<le> 9999 then pad 4 y else if 0 \<le> y then ''+'' @ pad 6 y else ''-'' @ pad 6 (- y))"
  ultimately have "length year \<le> 8" by simp
  moreover have "toISOString ms = year @ ''-'' @ pad 2 m @ ''-'' @ pad 2 d @ ''T'' @ pad 2 (t div 3600000) @ '':''
      @ pad 2 (t div 60000 mod 60) @ '':'' @ pad 2 (t div 1000 mod 60) @ ''.'' @ pad 3 (t mod 1000) @ ''Z''"
    by (simp only: toISOString_def c year_def t_def Let_def prod.case)
  ultimately show ?thesis using len(4-) by simp
qed
end
