(* ===== verification/Attention.thy ===== *)
theory Attention
  imports JSDate
begin

text \<open>
  services/orchestrator/src/domain/attention.ts: the list of what needs an operator, derived from the rows
  of runs, executions, approval requests and workspaces.
\<close>

subsection \<open>Items\<close>

definition reasonMax :: nat where "reasonMax = 512"
definition maxItems :: nat where "maxItems = 200"

datatype attention_kind = HumanApprovalRequired | RunFailed | LimitReached | WorkspaceRequiresAttention

fun kind_str :: "attention_kind \<Rightarrow> string" where
  "kind_str HumanApprovalRequired = ''human_approval_required''"
| "kind_str RunFailed = ''run_failed''"
| "kind_str LimitReached = ''limit_reached''"
| "kind_str WorkspaceRequiresAttention = ''workspace_requires_attention''"

datatype severity = Critical | Warning | Info

fun severityRank :: "severity \<Rightarrow> nat" where
  "severityRank Critical = 0"
| "severityRank Warning = 1"
| "severityRank Info = 2"

record attention_item =
  ai_attentionId :: string
  ai_kind :: attention_kind
  ai_severity :: severity
  ai_executionId :: "string option"
  ai_runId :: "string option"
  ai_reason :: string
  ai_createdAt :: string
  ai_updatedAt :: string
  ai_actionRoute :: string
  ai_workspace :: "string option"

record run_facts =
  rf_id :: string
  rf_executionId :: string
  rf_phase :: string
  rf_waitReason :: "string option"
  rf_updatedAt :: int
  rf_createdAt :: int

record execution_facts =
  xf_id :: string
  xf_status :: string
  xf_terminationReason :: "string option"
  xf_updatedAt :: int
  xf_createdAt :: int

record approval_facts =
  pf_proposalId :: string
  pf_actionType :: string
  pf_targetAgent :: "string option"
  pf_status :: string
  pf_createdAt :: int

record workspace_facts =
  wf_id :: string
  wf_ownerRunId :: "string option"
  wf_state :: string
  wf_hasUncommittedWork :: "bool option"
  wf_updatedAt :: int
  wf_createdAt :: int

record attention_input =
  in_runs :: "run_facts list"
  in_executions :: "execution_facts list"
  in_approvals :: "approval_facts list"
  in_workspaces :: "workspace_facts list"
  in_runByExecution :: "string \<rightharpoonup> string"
  in_executionByRun :: "string \<rightharpoonup> string"

definition attentionId :: "attention_kind \<Rightarrow> string \<Rightarrow> string" where
  "attentionId k i = ''attention:'' @ kind_str k @ '':'' @ i"

text \<open>\<open>push\<close> gives the item its id.\<close>

definition push_item :: "attention_item \<Rightarrow> attention_item" where
  "push_item x = x\<lparr>ai_attentionId := attentionId (ai_kind x)
     (case ai_runId x of Some i \<Rightarrow> i | None \<Rightarrow>
       (case ai_executionId x of Some i \<Rightarrow> i | None \<Rightarrow>
         (case ai_workspace x of Some i \<Rightarrow> i | None \<Rightarrow> ''?'')))\<rparr>"

definition waiting_item :: "run_facts \<Rightarrow> attention_item" where
  "waiting_item r = push_item \<lparr>ai_attentionId = [], ai_kind = HumanApprovalRequired, ai_severity = Critical,
     ai_executionId = Some (rf_executionId r), ai_runId = Some (rf_id r),
     ai_reason = take reasonMax (case rf_waitReason r of Some s \<Rightarrow> s
       | None \<Rightarrow> ''Verifier requires operator decision''),
     ai_createdAt = toISOString (rf_createdAt r), ai_updatedAt = toISOString (rf_updatedAt r),
     ai_actionRoute = ''/runs/'' @ rf_executionId r, ai_workspace = None\<rparr>"

definition approval_item :: "approval_facts \<Rightarrow> attention_item" where
  "approval_item q = \<lparr>ai_attentionId = attentionId HumanApprovalRequired (pf_proposalId q),
     ai_kind = HumanApprovalRequired, ai_severity = Warning, ai_executionId = None, ai_runId = None,
     ai_reason = take reasonMax (''Policy approval required: '' @ pf_actionType q @
       (case pf_targetAgent q of None \<Rightarrow> [] | Some a \<Rightarrow> if a = [] then [] else '' for '' @ a)),
     ai_createdAt = toISOString (pf_createdAt q), ai_updatedAt = toISOString (pf_createdAt q),
     ai_actionRoute = ''/approvals'', ai_workspace = None\<rparr>"

definition failed_item :: "(string \<rightharpoonup> string) \<Rightarrow> execution_facts \<Rightarrow> attention_item" where
  "failed_item runBy x = push_item \<lparr>ai_attentionId = [], ai_kind = RunFailed, ai_severity = Warning,
     ai_executionId = Some (xf_id x), ai_runId = runBy (xf_id x),
     ai_reason = take reasonMax (case xf_terminationReason x of Some s \<Rightarrow> s | None \<Rightarrow> ''Worker execution failed''),
     ai_createdAt = toISOString (xf_createdAt x), ai_updatedAt = toISOString (xf_updatedAt x),
     ai_actionRoute = ''/runs/'' @ xf_id x, ai_workspace = None\<rparr>"

definition limit_item :: "run_facts \<Rightarrow> attention_item" where
  "limit_item r = push_item \<lparr>ai_attentionId = [], ai_kind = LimitReached, ai_severity = Warning,
     ai_executionId = Some (rf_executionId r), ai_runId = Some (rf_id r),
     ai_reason = ''Iteration or worker limits reached'',
     ai_createdAt = toISOString (rf_createdAt r), ai_updatedAt = toISOString (rf_updatedAt r),
     ai_actionRoute = ''/runs/'' @ rf_executionId r, ai_workspace = None\<rparr>"

definition workspace_item :: "(string \<rightharpoonup> string) \<Rightarrow> workspace_facts \<Rightarrow> attention_item" where
  "workspace_item exBy w =
     (let ownerRun = (case wf_ownerRunId w of None \<Rightarrow> None | Some i \<Rightarrow> if i = [] then None else exBy i)
      in push_item \<lparr>ai_attentionId = [], ai_kind = WorkspaceRequiresAttention, ai_severity = Info,
           ai_executionId = ownerRun, ai_runId = wf_ownerRunId w,
           ai_reason = (if wf_hasUncommittedWork w = None
             then ''Run finished with unknown status in its preserved execution workspace''
             else ''Run finished with uncommitted work in its preserved execution workspace''),
           ai_createdAt = toISOString (wf_createdAt w), ai_updatedAt = toISOString (wf_updatedAt w),
           ai_actionRoute = (case ownerRun of None \<Rightarrow> ''/workspaces'' | Some x \<Rightarrow> ''/runs/'' @ x),
           ai_workspace = Some (wf_id w)\<rparr>)"

definition collect_items :: "attention_input \<Rightarrow> attention_item list" where
  "collect_items inp =
     map waiting_item (filter (\<lambda>r. rf_phase r = ''WAITING_FOR_HUMAN'') (in_runs inp))
     @ map approval_item (filter (\<lambda>q. pf_status q = ''PENDING'') (in_approvals inp))
     @ map (failed_item (in_runByExecution inp)) (filter (\<lambda>x. xf_status x = ''FAILED'') (in_executions inp))
     @ map limit_item (filter (\<lambda>r. rf_phase r = ''LIMIT_REACHED'') (in_runs inp))
     @ map (workspace_item (in_executionByRun inp))
         (filter (\<lambda>w. wf_state w = ''PRESERVED'' \<and> wf_hasUncommittedWork w \<noteq> Some False) (in_workspaces inp))"

text \<open>
  The comparator is negative: severity first, then the newest update, then the id. The sort is stable;
  \<open>\<not> before y x\<close> is its order.
\<close>

definition before :: "attention_item \<Rightarrow> attention_item \<Rightarrow> bool" where
  "before x y \<longleftrightarrow> severityRank (ai_severity x) < severityRank (ai_severity y) \<or>
     severityRank (ai_severity x) = severityRank (ai_severity y) \<and>
       (ai_updatedAt x > ai_updatedAt y \<or>
        ai_updatedAt x = ai_updatedAt y \<and> ai_attentionId x < ai_attentionId y)"

definition deriveAttentionItems :: "attention_input \<Rightarrow> attention_item list" where
  "deriveAttentionItems inp = take maxItems (sort_by (\<lambda>x y. \<not> before y x) (collect_items inp))"

subsection \<open>Properties\<close>

lemma not_before_total: "\<not> \<not> before y x \<Longrightarrow> \<not> before x y"
  by (auto simp: before_def)

lemma not_before_trans: "\<not> before b a \<Longrightarrow> \<not> before c b \<Longrightarrow> \<not> before c a"
  unfolding before_def by (smt (verit) dual_order.strict_trans linorder_less_linear order.asym)

lemma sorted_items: "sorted_wrt (\<lambda>x y. \<not> before y x) (sort_by (\<lambda>x y. \<not> before y x) xs)"
  by (rule sorted_sort_by) (fact not_before_total, fact not_before_trans)

lemma sorted_take_drop:
  assumes "sorted_wrt R xs" and "x \<in> set (take n xs)" and "y \<in> set (drop n xs)"
  shows "R x y"
proof -
  from assms(1) have "sorted_wrt R (take n xs @ drop n xs)" by simp
  with assms(2,3) show ?thesis unfolding sorted_wrt_append by blast
qed

lemma take_split: "x \<in> set xs \<Longrightarrow> x \<notin> set (take n xs) \<Longrightarrow> x \<in> set (drop n xs) \<and> n < length xs"
  by (metis Un_iff append_take_drop_id set_append drop_all empty_iff list.set(1) linorder_not_less)

text \<open>The list holds only derived items, at most 200, and drops one only when it is full, and then none
  that is more severe, or as severe and newer, than a kept one.\<close>

theorem derive_most_severe:
  "set (deriveAttentionItems inp) \<subseteq> set (collect_items inp) \<and> length (deriveAttentionItems inp) \<le> maxItems \<and>
   list_all (\<lambda>x. length (deriveAttentionItems inp) = maxItems \<and>
       list_all (\<lambda>y. \<not> before x y) (deriveAttentionItems inp))
     (filter (\<lambda>x. x \<notin> set (deriveAttentionItems inp)) (collect_items inp))"
proof -
  let ?s = "sort_by (\<lambda>x y. \<not> before y x) (collect_items inp)"
  have "\<not> before x y" if "x \<in> set (drop maxItems ?s)" "y \<in> set (take maxItems ?s)" for x y
    by (rule sorted_take_drop [OF sorted_items that(2,1)])
  note sep = this
  have drop: "length (take maxItems ?s) = maxItems \<and> (\<forall>y \<in> set (take maxItems ?s). \<not> before x y)"
    if "x \<in> set ?s" "x \<notin> set (take maxItems ?s)" for x
  proof
    from take_split [OF that] have t: "x \<in> set (drop maxItems ?s)" "maxItems < length ?s" by blast+
    from t(2) show "length (take maxItems ?s) = maxItems" by (simp only: length_take min_def) simp
    from sep t(1) show "\<forall>y \<in> set (take maxItems ?s). \<not> before x y" by blast
  qed
  have "set (take maxItems ?s) \<subseteq> set (collect_items inp)"
    using set_take_subset [of maxItems ?s] unfolding set_sort_by .
  moreover have "length (take maxItems ?s) \<le> maxItems" by simp
  ultimately show ?thesis
    using drop unfolding deriveAttentionItems_def set_sort_by list_all_iff by auto
qed

definition ex_workspace :: "string \<Rightarrow> workspace_facts" where
  "ex_workspace i = \<lparr>wf_id = i, wf_ownerRunId = Some ''r'', wf_state = ''PRESERVED'',
     wf_hasUncommittedWork = Some True, wf_updatedAt = 0, wf_createdAt = 0\<rparr>"

text \<open>Ids are not unique: two preserved workspaces of one run are two items with one id.\<close>

theorem workspace_ids_collide:
  "let items = deriveAttentionItems \<lparr>in_runs = [], in_executions = [], in_approvals = [],
       in_workspaces = [ex_workspace ''w1'', ex_workspace ''w2''],
       in_runByExecution = Map.empty, in_executionByRun = Map.empty\<rparr>
   in map ai_workspace items = [Some ''w1'', Some ''w2''] \<and>
      map ai_attentionId items =
        [''attention:workspace_requires_attention:r'', ''attention:workspace_requires_attention:r'']"
  by (simp add: deriveAttentionItems_def collect_items_def ex_workspace_def workspace_item_def push_item_def
      attentionId_def before_def maxItems_def)

end
