(* ===== verification/PlanPatch.thy ===== *)
theory PlanPatch
  imports Json
begin

text \<open>
  services/orchestrator/src/domain/plan-patch.ts: the bounded patch that a planner may propose to the
  unstarted work of an execution, and its application to the steps of a plan. A step of a plan is an
  untrusted value here; the caller validates the whole candidate.
\<close>

definition maxOperations :: nat where "maxOperations = 20"
definition maxSerializedBytes :: nat where "maxSerializedBytes = 65536"
definition maxStepIdLength :: nat where "maxStepIdLength = 100"
definition maxBaseRevision :: int where "maxBaseRevision = 2147483647"

datatype patch_operation = AddStep jsv | ReplaceUnfrozenStep string jsv

record plan_patch =
  pp_baseRevision :: int
  pp_operations :: "patch_operation list"

datatype patch_error =
    INVALID_PATCH | TOO_MANY_OPERATIONS | PATCH_TOO_LARGE | BASE_REVISION_INVALID | INVALID_OPERATION
  | TARGET_NOT_FOUND | TARGET_FROZEN

definition parse_replace :: "jsv \<Rightarrow> patch_error + patch_operation" where
  "parse_replace operation =
     (case getp operation ''stepId'' of
        JStr stepId \<Rightarrow>
          if stepId = [] \<or> length stepId > maxStepIdLength then Inl INVALID_OPERATION
          else if \<not> is_record (getp operation ''step'') then Inl INVALID_OPERATION
          else if getp (getp operation ''step'') ''id'' \<noteq> JStr stepId then Inl INVALID_OPERATION
          else Inr (ReplaceUnfrozenStep stepId (getp operation ''step''))
      | _ \<Rightarrow> Inl INVALID_OPERATION)"

definition parse_operation :: "jsv \<Rightarrow> patch_error + patch_operation" where
  "parse_operation operation =
     (if \<not> is_record operation then Inl INVALID_OPERATION
      else if getp operation ''op'' = JStr ''addStep'' then
        (if \<not> is_record (getp operation ''step'') then Inl INVALID_OPERATION
         else Inr (AddStep (getp operation ''step'')))
      else if getp operation ''op'' = JStr ''replaceUnfrozenStep'' then parse_replace operation
      else Inl INVALID_OPERATION)"

definition parsePlanPatch :: "jsv \<Rightarrow> patch_error + plan_patch" where
  "parsePlanPatch v =
     (if \<not> is_record v then Inl INVALID_PATCH
      else if getp v ''schemaVersion'' \<noteq> jint 1 then Inl INVALID_PATCH
      else case as_integer (getp v ''baseRevision'') of
        None \<Rightarrow> Inl BASE_REVISION_INVALID
      | Some base \<Rightarrow>
          if base < 1 \<or> base > maxBaseRevision then Inl BASE_REVISION_INVALID
          else (case json_bytes v of
              None \<Rightarrow> Inl INVALID_PATCH
            | Some n \<Rightarrow>
              if n > maxSerializedBytes then Inl PATCH_TOO_LARGE
              else (case getp v ''operations'' of
                  JArr ops \<Rightarrow>
                    if ops = [] then Inl INVALID_PATCH
                    else if length ops > maxOperations then Inl TOO_MANY_OPERATIONS
                    else bindE (mapE parse_operation ops) (\<lambda>operations.
                      Inr \<lparr>pp_baseRevision = base, pp_operations = operations\<rparr>)
                | _ \<Rightarrow> Inl INVALID_PATCH)))"

text \<open>\<open>findIndex\<close>\<close>

fun find_index :: "('a \<Rightarrow> bool) \<Rightarrow> 'a list \<Rightarrow> nat option" where
  "find_index P [] = None"
| "find_index P (x # xs) = (if P x then Some 0 else map_option Suc (find_index P xs))"

definition has_id :: "string \<Rightarrow> jsv \<Rightarrow> bool" where
  "has_id stepId s \<longleftrightarrow> is_record s \<and> getp s ''id'' = JStr stepId"

fun apply_operation :: "string set \<Rightarrow> jsv list \<Rightarrow> patch_operation \<Rightarrow> patch_error + jsv list" where
  "apply_operation frozen candidate (AddStep s) = Inr (candidate @ [s])"
| "apply_operation frozen candidate (ReplaceUnfrozenStep stepId s) =
     (case find_index (has_id stepId) candidate of
        None \<Rightarrow> Inl TARGET_NOT_FOUND
      | Some index \<Rightarrow>
          if stepId \<in> frozen then Inl TARGET_FROZEN else Inr (candidate[index := s]))"

definition applyPlanPatch :: "jsv list \<Rightarrow> string set \<Rightarrow> plan_patch \<Rightarrow> patch_error + jsv list" where
  "applyPlanPatch baseSteps frozen patch = foldE (apply_operation frozen) baseSteps (pp_operations patch)"

subsection \<open>Properties\<close>

lemma find_index_Some: "find_index P xs = Some i \<Longrightarrow> i < length xs \<and> P (xs ! i)"
  by (induction xs arbitrary: i) (auto split: if_splits)

fun operation_ok :: "patch_operation \<Rightarrow> bool" where
  "operation_ok (AddStep s) \<longleftrightarrow> is_record s"
| "operation_ok (ReplaceUnfrozenStep stepId s) \<longleftrightarrow> has_id stepId s"

lemma parse_operation_ok: "parse_operation v = Inr x \<Longrightarrow> operation_ok x"
  by (auto simp: parse_operation_def parse_replace_def has_id_def split: if_splits jsv.splits)

lemma parsePlanPatch_ok:
  assumes "parsePlanPatch v = Inr p"
  shows "list_all operation_ok (pp_operations p)" and "0 < length (pp_operations p)"
    and "length (pp_operations p) \<le> maxOperations" and "1 \<le> pp_baseRevision p"
proof -
  from assms obtain ops operations base where
    p: "p = \<lparr>pp_baseRevision = base, pp_operations = operations\<rparr>" "mapE parse_operation ops = Inr operations"
      "ops \<noteq> []" "length ops \<le> maxOperations" "1 \<le> base"
    unfolding parsePlanPatch_def
    by (auto simp: bindE_Inr_iff split: if_splits option.splits jsv.splits)
  show "list_all operation_ok (pp_operations p)"
    using p(1,2) by (auto simp: list_all_iff elim: mapE_Inr_set dest: parse_operation_ok)
  show "0 < length (pp_operations p)" "length (pp_operations p) \<le> maxOperations"
    using p mapE_Inr_length [OF p(2)] by auto
  show "1 \<le> pp_baseRevision p" using p by simp
qed

text \<open>What one operation keeps of the steps that were there.\<close>

definition keeps_steps :: "string set \<Rightarrow> jsv list \<Rightarrow> jsv list \<Rightarrow> bool" where
  "keeps_steps frozen xs ys \<longleftrightarrow> length xs \<le> length ys \<and>
     (\<forall>i < length xs. getp (ys ! i) ''id'' = getp (xs ! i) ''id'' \<and>
        (\<forall>f \<in> frozen. getp (xs ! i) ''id'' = JStr f \<longrightarrow> ys ! i = xs ! i))"

lemma keeps_steps_refl [simp]: "keeps_steps frozen xs xs"
  by (simp add: keeps_steps_def)

lemma keeps_steps_trans: "keeps_steps frozen xs ys \<Longrightarrow> keeps_steps frozen ys zs \<Longrightarrow> keeps_steps frozen xs zs"
  unfolding keeps_steps_def using order_less_le_trans by fastforce

lemma apply_operation_keeps:
  assumes "operation_ok x" and "apply_operation frozen xs x = Inr ys"
  shows "keeps_steps frozen xs ys"
proof (cases x)
  case (AddStep s)
  with assms show ?thesis by (auto simp: keeps_steps_def nth_append)
next
  case (ReplaceUnfrozenStep stepId s)
  with assms(2) obtain i where i: "find_index (has_id stepId) xs = Some i" "stepId \<notin> frozen" "ys = xs[i := s]"
    by (auto split: option.splits if_splits)
  from find_index_Some [OF i(1)] assms(1) ReplaceUnfrozenStep
  have "i < length xs" "getp (xs ! i) ''id'' = JStr stepId" "getp s ''id'' = JStr stepId"
    by (auto simp: has_id_def)
  with i show ?thesis by (auto simp: keeps_steps_def nth_list_update)
qed

lemma applyPlanPatch_keeps:
  assumes "list_all operation_ok (pp_operations p)" and "applyPlanPatch base frozen p = Inr cand"
  shows "keeps_steps frozen base cand"
proof (rule foldE_invariant [OF assms(2) [unfolded applyPlanPatch_def]])
  fix ys x zs
  assume *: "keeps_steps frozen base ys" "x \<in> set (pp_operations p)" "apply_operation frozen ys x = Inr zs"
  with assms(1) have "operation_ok x" by (simp add: list_all_iff)
  from keeps_steps_trans [OF *(1) apply_operation_keeps [OF this *(3)]] show "keeps_steps frozen base zs" .
qed simp

fun additions :: "patch_operation list \<Rightarrow> nat" where
  "additions [] = 0"
| "additions (AddStep s # xs) = Suc (additions xs)"
| "additions (ReplaceUnfrozenStep stepId s # xs) = additions xs"

lemma additions_le: "additions xs \<le> length xs"
  by (induction xs rule: additions.induct) auto

lemma applyPlanPatch_length:
  assumes "applyPlanPatch base frozen p = Inr cand"
  shows "length cand = length base + additions (pp_operations p)"
proof -
  have "length cand = length xs + additions ops"
    if "foldE (apply_operation frozen) xs ops = Inr cand" for xs ops
    using that
  proof (induction ops arbitrary: xs)
    case (Cons x ops)
    then obtain ys where ys: "apply_operation frozen xs x = Inr ys" "foldE (apply_operation frozen) ys ops = Inr cand"
      by (auto simp: bindE_Inr_iff)
    with Cons.IH [OF ys(2)] show ?case by (cases x) (auto split: option.splits if_splits)
  qed simp
  with assms show ?thesis by (simp add: applyPlanPatch_def)
qed

text \<open>C32: a parsed patch leaves the started work alone: the candidate has the base steps at their places
  with their ids, the frozen ones unchanged, and behind them one step for each addition.\<close>

theorem applyPlanPatch_frozen:
  assumes "parsePlanPatch v = Inr p" and "applyPlanPatch base frozen p = Inr cand"
  shows "(\<forall>i < length base. getp (cand ! i) ''id'' = getp (base ! i) ''id'' \<and>
      (\<forall>f \<in> frozen. getp (base ! i) ''id'' = JStr f \<longrightarrow> cand ! i = base ! i)) \<and>
    length cand = length base + additions (pp_operations p) \<and>
    length cand \<le> length base + maxOperations"
  using applyPlanPatch_keeps [OF parsePlanPatch_ok(1) [OF assms(1)] assms(2)] applyPlanPatch_length [OF assms(2)]
    parsePlanPatch_ok(3) [OF assms(1)]
    additions_le [of "pp_operations p"]
  by (auto simp: keeps_steps_def)

definition ex_patch_js :: jsv where
  "ex_patch_js = JObj [(''schemaVersion'', jint 1), (''baseRevision'', jint 1), (''operations'', JArr
     [JObj [(''op'', JStr ''replaceUnfrozenStep''), (''stepId'', JStr ''b''),
            (''step'', JObj [(''id'', JStr ''b''), (''agent'', JStr ''y'')])],
      JObj [(''op'', JStr ''addStep''), (''step'', JObj [(''id'', JStr ''c'')])]])]"

theorem applyPlanPatch_frozen_witness:
  "\<exists>p cand. parsePlanPatch ex_patch_js = Inr p \<and>
     applyPlanPatch [JObj [(''id'', JStr ''a'')], JObj [(''id'', JStr ''b'')]] {''a''} p = Inr cand \<and>
     cand ! 0 = JObj [(''id'', JStr ''a'')] \<and> length cand = 3"
proof -
  have bytes: "\<exists>n. json_bytes ex_patch_js = Some n \<and> n \<le> 65536"
    by (simp add: ex_patch_js_def json_bytes_def member_def quote_def escape_char_def)
  obtain p where p: "parsePlanPatch ex_patch_js = Inr p" "pp_operations p =
      [ReplaceUnfrozenStep ''b'' (JObj [(''id'', JStr ''b''), (''agent'', JStr ''y'')]),
       AddStep (JObj [(''id'', JStr ''c'')])]"
    using bytes by (auto simp: parsePlanPatch_def maxSerializedBytes_def maxBaseRevision_def maxOperations_def
      ex_patch_js_def parse_operation_def parse_replace_def maxStepIdLength_def)
  obtain cand where c: "applyPlanPatch [JObj [(''id'', JStr ''a'')], JObj [(''id'', JStr ''b'')]] {''a''} p = Inr cand"
    by (simp add: applyPlanPatch_def p has_id_def)
  from applyPlanPatch_frozen [OF p(1) c] p(2) c show ?thesis
    by (intro exI [of _ p] exI [of _ cand]) (auto simp: p)
qed

end
