(* ===== verification/ContextBundle.thy ===== *)
theory ContextBundle
  imports ContextSnapshot JSDate
begin

text \<open>
  services/orchestrator/src/domain/context-bundle.ts: the identity of the context that an invocation received,
  its size measures, and the efficiency record of an attempt, which is written at the claim, completed once
  with the result, and parsed strictly when it is read back.
\<close>

subsection \<open>Identity and measures\<close>

datatype session_mode = Fresh | Reused | Resumed | UnknownMode

fun mode_str :: "session_mode \<Rightarrow> string" where
  "mode_str Fresh = ''fresh''"
| "mode_str Reused = ''reused''"
| "mode_str Resumed = ''resumed''"
| "mode_str UnknownMode = ''unknown''"

definition SESSION_MODES :: "session_mode list" where
  "SESSION_MODES = [Fresh, Reused, Resumed, UnknownMode]"

record workspace_identity =
  wi_workspaceId :: string
  wi_branch :: "string option"
  wi_headSha :: "string option"
  wi_dirty :: "bool option"

record harness =
  hn_agent :: string
  hn_executorKind :: string
  hn_configHash :: string
  hn_connectionId :: "string option"
  hn_connectionRevision :: "int option"
  hn_requestedModelId :: "string option"

record context_metrics =
  cm_projectedBytes :: int
  cm_projectedCharacters :: int
  cm_selectedItems :: int
  cm_selectedArtifacts :: int
  cm_stateBytes :: int

record bundle_inputs =
  bi_stateVersion :: int
  bi_stateValues :: "(string \<times> jsv) list"
  bi_artifacts :: "artifact_reference list"
  bi_harness :: harness
  bi_planHash :: "string option"
  bi_workspace :: "workspace_identity option"

definition null_or :: "('a \<Rightarrow> jsv) \<Rightarrow> 'a option \<Rightarrow> jsv" where
  "null_or f v = (case v of None \<Rightarrow> JNull | Some x \<Rightarrow> f x)"

definition workspace_js :: "workspace_identity \<Rightarrow> jsv" where
  "workspace_js w = JObj [(''workspaceId'', JStr (wi_workspaceId w)), (''branch'', null_or JStr (wi_branch w)),
     (''headSha'', null_or JStr (wi_headSha w)), (''dirty'', null_or JBool (wi_dirty w))]"

definition harness_js :: "harness \<Rightarrow> jsv" where
  "harness_js h = JObj ([(''agent'', JStr (hn_agent h)), (''executorKind'', JStr (hn_executorKind h)),
       (''configHash'', JStr (hn_configHash h))]
     @ opt_member ''connectionId'' JStr (hn_connectionId h)
     @ opt_member ''connectionRevision'' (\<lambda>n. jint n) (hn_connectionRevision h)
     @ opt_member ''requestedModelId'' JStr (hn_requestedModelId h))"

definition bundle_js :: "bundle_inputs \<Rightarrow> jsv" where
  "bundle_js b = JObj ([(''bundleSchemaVersion'', jint 1), (''contextSchemaVersion'', jint 1),
       (''stateProjection'', JObj [(''version'', jint (bi_stateVersion b)), (''values'', JObj (bi_stateValues b))]),
       (''artifacts'', JArr (map reference_js (bi_artifacts b))), (''harness'', harness_js (bi_harness b))]
     @ opt_member ''planHash'' JStr (bi_planHash b) @ opt_member ''workspace'' workspace_js (bi_workspace b))"

definition computeContextBundleHash ::
  "(string \<Rightarrow> string) \<Rightarrow> (string \<Rightarrow> string \<Rightarrow> bool) \<Rightarrow> bundle_inputs \<Rightarrow> string" where
  "computeContextBundleHash sha coll b = sha256Json sha coll (bundle_js b)"

definition measureContextEnvelope ::
  "(string \<Rightarrow> string \<Rightarrow> bool) \<Rightarrow> (string \<times> jsv) list \<Rightarrow> int \<Rightarrow> artifact_reference list \<Rightarrow> (string \<times> jsv) list \<Rightarrow>
     state_error + context_metrics" where
  "measureContextEnvelope coll vals version refs fullState =
     bindE (jsonValueUtf8Size (envelope vals version refs)) (\<lambda>bytes.
     bindE (jsonValueUtf8Size (JObj fullState)) (\<lambda>stateBytes.
       Inr \<lparr>cm_projectedBytes = int bytes,
            cm_projectedCharacters = int (length (canonicalJson coll (envelope vals version refs))),
            cm_selectedItems = int (length vals), cm_selectedArtifacts = int (length refs),
            cm_stateBytes = int stateBytes\<rparr>))"

subsection \<open>Evidence\<close>

record reported_usage =
  ru_reported :: bool
  ru_input :: "int option"
  ru_output :: "int option"
  ru_cached :: "int option"
  ru_cacheWrite :: "int option"

record timing =
  tg_startedAt :: string
  tg_completedAt :: "string option"
  tg_durationMs :: "int option"

record efficiency =
  ef_invocationId :: string
  ef_bundle :: "(string \<times> bool) option"
  ef_harness :: harness
  ef_workspace :: "workspace_identity option"
  ef_context :: "context_metrics option"
  ef_session :: session_mode
  ef_usage :: reported_usage
  ef_timing :: timing

definition buildClaimEfficiencyEvidence ::
  "string \<Rightarrow> harness \<Rightarrow> workspace_identity option \<Rightarrow> (string \<times> bool) option \<Rightarrow> context_metrics option \<Rightarrow>
     bool \<Rightarrow> string \<Rightarrow> efficiency" where
  "buildClaimEfficiencyEvidence invocationId h w bundle metrics dispatchable startedAt =
     \<lparr>ef_invocationId = invocationId, ef_bundle = bundle, ef_harness = h, ef_workspace = w, ef_context = metrics,
      ef_session = (if dispatchable then Fresh else UnknownMode),
      ef_usage = \<lparr>ru_reported = False, ru_input = None, ru_output = None, ru_cached = None, ru_cacheWrite = None\<rparr>,
      ef_timing = \<lparr>tg_startedAt = startedAt, tg_completedAt = None, tg_durationMs = None\<rparr>\<rparr>"

text \<open>\<open>Number.isSafeInteger(v) && v >= 0\<close>\<close>

definition safe_natural :: "jsv \<Rightarrow> int option" where
  "safe_natural v = (case as_integer v of None \<Rightarrow> None
     | Some n \<Rightarrow> if 0 \<le> n \<and> n \<le> MAX_SAFE_INTEGER then Some n else None)"

text \<open>An array is an object too; it has none of the four fields.\<close>

definition extractReportedUsage :: "jsv \<Rightarrow> reported_usage" where
  "extractReportedUsage usage =
     \<lparr>ru_reported = (is_record usage \<or> (case usage of JArr _ \<Rightarrow> True | _ \<Rightarrow> False)),
      ru_input = safe_natural (getp usage ''inputTokens''), ru_output = safe_natural (getp usage ''outputTokens''),
      ru_cached = safe_natural (getp usage ''cachedInputTokens''),
      ru_cacheWrite = safe_natural (getp usage ''cacheWriteTokens'')\<rparr>"

text \<open>The two times are dates; \<open>Date.parse\<close> reads their texts back exactly.\<close>

definition completeEfficiencyEvidence :: "efficiency \<Rightarrow> jsv \<Rightarrow> int \<Rightarrow> int \<Rightarrow> efficiency" where
  "completeEfficiencyEvidence e usage completedAt startedAt =
     e\<lparr>ef_usage := extractReportedUsage usage,
       ef_timing := \<lparr>tg_startedAt = toISOString startedAt, tg_completedAt = Some (toISOString completedAt),
                     tg_durationMs = Some (max 0 (completedAt - startedAt))\<rparr>\<rparr>"

subsection \<open>The stored record\<close>

definition metrics_js :: "context_metrics \<Rightarrow> jsv" where
  "metrics_js c = JObj [(''projectedBytes'', jint (cm_projectedBytes c)),
     (''projectedCharacters'', jint (cm_projectedCharacters c)),
     (''selectedContextItemCount'', jint (cm_selectedItems c)),
     (''selectedArtifactCount'', jint (cm_selectedArtifacts c)),
     (''executionStateBytes'', jint (cm_stateBytes c))]"

definition usage_js :: "reported_usage \<Rightarrow> jsv" where
  "usage_js u = JObj ((''reported'', JBool (ru_reported u)) # opt_member ''inputTokens'' (\<lambda>n. jint n) (ru_input u)
     @ opt_member ''outputTokens'' (\<lambda>n. jint n) (ru_output u)
     @ opt_member ''cachedInputTokens'' (\<lambda>n. jint n) (ru_cached u)
     @ opt_member ''cacheWriteTokens'' (\<lambda>n. jint n) (ru_cacheWrite u))"

definition timing_js :: "timing \<Rightarrow> jsv" where
  "timing_js t = JObj [(''startedAt'', JStr (tg_startedAt t)), (''completedAt'', null_or JStr (tg_completedAt t)),
     (''durationMs'', null_or (\<lambda>n. jint n) (tg_durationMs t))]"

definition efficiency_js :: "efficiency \<Rightarrow> jsv" where
  "efficiency_js e = JObj ([(''schemaVersion'', jint 1), (''invocationId'', JStr (ef_invocationId e)),
       (''contextBundle'', null_or (\<lambda>(h, r). JObj [(''hash'', JStr h), (''reused'', JBool r)]) (ef_bundle e)),
       (''harness'', harness_js (ef_harness e))]
     @ opt_member ''workspace'' workspace_js (ef_workspace e)
     @ [(''context'', null_or metrics_js (ef_context e)),
        (''session'', JObj [(''mode'', JStr (mode_str (ef_session e)))]),
        (''usage'', usage_js (ef_usage e)), (''timing'', timing_js (ef_timing e))])"

text \<open>The strict parser: every rejection is one error.\<close>

datatype efficiency_error = EfficiencyInvalid

definition only_keys :: "string list \<Rightarrow> jsv \<Rightarrow> efficiency_error + unit" where
  "only_keys ks v = guardE (is_record v \<and> fst ` set (entries v) \<subseteq> set ks) EfficiencyInvalid"

definition eff_string :: "nat \<Rightarrow> jsv \<Rightarrow> efficiency_error + string" where
  "eff_string n v = (case v of JStr s \<Rightarrow> if s = [] \<or> length s > n then Inl EfficiencyInvalid else Inr s
     | _ \<Rightarrow> Inl EfficiencyInvalid)"

definition nullable_string :: "nat \<Rightarrow> jsv \<Rightarrow> efficiency_error + string option" where
  "nullable_string n v =
     (if nullish v then Inr None
      else case v of JStr s \<Rightarrow> if length s > n then Inl EfficiencyInvalid else Inr (Some s)
        | _ \<Rightarrow> Inl EfficiencyInvalid)"

definition nullable_bool :: "jsv \<Rightarrow> efficiency_error + bool option" where
  "nullable_bool v = (if nullish v then Inr None
     else case v of JBool b \<Rightarrow> Inr (Some b) | _ \<Rightarrow> Inl EfficiencyInvalid)"

definition eff_natural :: "jsv \<Rightarrow> efficiency_error + int" where
  "eff_natural v = (case safe_natural v of None \<Rightarrow> Inl EfficiencyInvalid | Some n \<Rightarrow> Inr n)"

text \<open>A field that may be absent, and one that may also be null.\<close>

definition absent_or :: "(jsv \<Rightarrow> 'e + 'a) \<Rightarrow> jsv \<Rightarrow> 'e + 'a option" where
  "absent_or f v = (if v = JUndef then Inr None else bindE (f v) (\<lambda>x. Inr (Some x)))"

definition nullish_or :: "(jsv \<Rightarrow> 'e + 'a) \<Rightarrow> jsv \<Rightarrow> 'e + 'a option" where
  "nullish_or f v = (if nullish v then Inr None else bindE (f v) (\<lambda>x. Inr (Some x)))"

definition parseHarness :: "jsv \<Rightarrow> efficiency_error + harness" where
  "parseHarness v =
     bindE (only_keys [''agent'', ''executorKind'', ''configHash'', ''connectionId'', ''connectionRevision'',
              ''requestedModelId''] v) (\<lambda>_.
     bindE (eff_string 255 (getp v ''agent'')) (\<lambda>agent.
     bindE (eff_string 32 (getp v ''executorKind'')) (\<lambda>kind.
     bindE (eff_string 64 (getp v ''configHash'')) (\<lambda>hash.
     bindE (absent_or (eff_string 255) (getp v ''connectionId'')) (\<lambda>connection.
     bindE (absent_or eff_natural (getp v ''connectionRevision'')) (\<lambda>revision.
     bindE (absent_or (eff_string 256) (getp v ''requestedModelId'')) (\<lambda>model.
       Inr \<lparr>hn_agent = agent, hn_executorKind = kind, hn_configHash = hash, hn_connectionId = connection,
            hn_connectionRevision = revision, hn_requestedModelId = model\<rparr>)))))))"

definition parseContextMetrics :: "jsv \<Rightarrow> efficiency_error + context_metrics" where
  "parseContextMetrics v =
     bindE (only_keys [''projectedBytes'', ''projectedCharacters'', ''selectedContextItemCount'',
              ''selectedArtifactCount'', ''executionStateBytes''] v) (\<lambda>_.
     bindE (eff_natural (getp v ''projectedBytes'')) (\<lambda>a.
     bindE (eff_natural (getp v ''projectedCharacters'')) (\<lambda>b.
     bindE (eff_natural (getp v ''selectedContextItemCount'')) (\<lambda>c.
     bindE (eff_natural (getp v ''selectedArtifactCount'')) (\<lambda>d.
     bindE (eff_natural (getp v ''executionStateBytes'')) (\<lambda>e.
       Inr \<lparr>cm_projectedBytes = a, cm_projectedCharacters = b, cm_selectedItems = c,
            cm_selectedArtifacts = d, cm_stateBytes = e\<rparr>))))))"

definition parseSession :: "jsv \<Rightarrow> efficiency_error + session_mode" where
  "parseSession v =
     bindE (only_keys [''mode''] v) (\<lambda>_.
       case find (\<lambda>m. getp v ''mode'' = JStr (mode_str m)) SESSION_MODES of
         None \<Rightarrow> Inl EfficiencyInvalid | Some m \<Rightarrow> Inr m)"

definition parseUsage :: "jsv \<Rightarrow> efficiency_error + reported_usage" where
  "parseUsage v =
     bindE (only_keys [''reported'', ''inputTokens'', ''outputTokens'', ''cachedInputTokens'',
              ''cacheWriteTokens''] v) (\<lambda>_.
     case getp v ''reported'' of
       JBool reported \<Rightarrow>
         bindE (absent_or eff_natural (getp v ''inputTokens'')) (\<lambda>a.
         bindE (absent_or eff_natural (getp v ''outputTokens'')) (\<lambda>b.
         bindE (absent_or eff_natural (getp v ''cachedInputTokens'')) (\<lambda>c.
         bindE (absent_or eff_natural (getp v ''cacheWriteTokens'')) (\<lambda>d.
           Inr \<lparr>ru_reported = reported, ru_input = a, ru_output = b, ru_cached = c, ru_cacheWrite = d\<rparr>))))
     | _ \<Rightarrow> Inl EfficiencyInvalid)"

definition parseTiming :: "jsv \<Rightarrow> efficiency_error + timing" where
  "parseTiming v =
     bindE (only_keys [''startedAt'', ''completedAt'', ''durationMs''] v) (\<lambda>_.
     bindE (eff_string 64 (getp v ''startedAt'')) (\<lambda>started.
     bindE (nullable_string 64 (getp v ''completedAt'')) (\<lambda>completed.
     bindE (nullish_or eff_natural (getp v ''durationMs'')) (\<lambda>duration.
       Inr \<lparr>tg_startedAt = started, tg_completedAt = completed, tg_durationMs = duration\<rparr>))))"

definition is_lower_hex :: "char \<Rightarrow> bool" where
  "is_lower_hex c \<longleftrightarrow> is_digit c \<or> (of_char c :: nat) \<in> {97..102}"

definition parse_bundle :: "jsv \<Rightarrow> efficiency_error + string \<times> bool" where
  "parse_bundle v =
     bindE (only_keys [''hash'', ''reused''] v) (\<lambda>_.
     bindE (eff_string 64 (getp v ''hash'')) (\<lambda>hash.
       if length hash \<noteq> 64 \<or> \<not> list_all is_lower_hex hash then Inl EfficiencyInvalid
       else case getp v ''reused'' of JBool b \<Rightarrow> Inr (hash, b) | _ \<Rightarrow> Inl EfficiencyInvalid))"

definition parse_workspace :: "jsv \<Rightarrow> efficiency_error + workspace_identity" where
  "parse_workspace v =
     bindE (only_keys [''workspaceId'', ''branch'', ''headSha'', ''dirty''] v) (\<lambda>_.
     bindE (eff_string 255 (getp v ''workspaceId'')) (\<lambda>i.
     bindE (nullable_string 255 (getp v ''branch'')) (\<lambda>branch.
     bindE (nullable_string 64 (getp v ''headSha'')) (\<lambda>head.
     bindE (nullable_bool (getp v ''dirty'')) (\<lambda>dirty.
       Inr \<lparr>wi_workspaceId = i, wi_branch = branch, wi_headSha = head, wi_dirty = dirty\<rparr>)))))"

definition parseEfficiencyEvidence :: "jsv \<Rightarrow> efficiency_error + efficiency" where
  "parseEfficiencyEvidence v =
     (if \<not> is_record v \<or> getp v ''schemaVersion'' \<noteq> jint 1 then Inl EfficiencyInvalid
      else
     bindE (only_keys [''schemaVersion'', ''invocationId'', ''contextBundle'', ''harness'', ''workspace'',
              ''context'', ''session'', ''usage'', ''timing''] v) (\<lambda>_.
     bindE (eff_string 255 (getp v ''invocationId'')) (\<lambda>i.
     bindE (parseHarness (getp v ''harness'')) (\<lambda>h.
     bindE (parseSession (getp v ''session'')) (\<lambda>session.
     bindE (parseUsage (getp v ''usage'')) (\<lambda>usage.
     bindE (parseTiming (getp v ''timing'')) (\<lambda>timing.
     bindE (nullish_or parse_bundle (getp v ''contextBundle'')) (\<lambda>bundle.
     bindE (absent_or parse_workspace (getp v ''workspace'')) (\<lambda>w.
     bindE (nullish_or parseContextMetrics (getp v ''context'')) (\<lambda>metrics.
       Inr \<lparr>ef_invocationId = i, ef_bundle = bundle, ef_harness = h, ef_workspace = w, ef_context = metrics,
            ef_session = session, ef_usage = usage, ef_timing = timing\<rparr>))))))))))"

subsection \<open>What the parser accepts\<close>

lemma getp_opt_member [simp]:
  "getp (JObj (opt_member k f v @ kvs)) k' = (if k' = k \<and> v \<noteq> None then f (the v) else getp (JObj kvs) k')"
  "getp (JObj (opt_member k f v)) k' = (if k' = k \<and> v \<noteq> None then f (the v) else JUndef)"
  by (auto simp: opt_member_def split: option.split)

lemma keys_opt_member [simp]: "fst ` set (opt_member k f v) = (if v = None then {} else {k})"
  by (cases v) (auto simp: opt_member_def)

definition str_ok :: "nat \<Rightarrow> string \<Rightarrow> bool" where
  "str_ok n s \<longleftrightarrow> s \<noteq> [] \<and> length s \<le> n"

definition nat_ok :: "int \<Rightarrow> bool" where
  "nat_ok n \<longleftrightarrow> 0 \<le> n \<and> n \<le> MAX_SAFE_INTEGER"

definition opt_ok :: "('a \<Rightarrow> bool) \<Rightarrow> 'a option \<Rightarrow> bool" where
  "opt_ok P v \<longleftrightarrow> (case v of None \<Rightarrow> True | Some x \<Rightarrow> P x)"

lemma opt_ok_simps [simp]: "opt_ok P None" "opt_ok P (Some x) = P x"
  by (simp_all add: opt_ok_def)

lemma eff_string_Inr: "eff_string n v = Inr s \<longleftrightarrow> v = JStr s \<and> str_ok n s"
  by (auto simp: eff_string_def str_ok_def split: jsv.split)

lemma safe_natural_Some: "safe_natural v = Some n \<longleftrightarrow> v = jint n \<and> nat_ok n"
  by (auto simp: safe_natural_def nat_ok_def split: option.split if_splits dest: as_integer_Some)

lemma eff_natural_Inr: "eff_natural v = Inr n \<longleftrightarrow> v = jint n \<and> nat_ok n"
  using safe_natural_Some [of v n] by (auto simp: eff_natural_def split: option.split)

lemma nullable_string_Inr:
  "nullable_string n v = Inr s \<longleftrightarrow> nullish v \<and> s = None \<or> (\<exists>t. v = JStr t \<and> length t \<le> n \<and> s = Some t)"
  by (auto simp: nullable_string_def nullish_def split: jsv.split)

lemma nullable_bool_Inr:
  "nullable_bool v = Inr s \<longleftrightarrow> nullish v \<and> s = None \<or> (\<exists>b. v = JBool b \<and> s = Some b)"
  by (auto simp: nullable_bool_def nullish_def split: jsv.split)

lemma absent_or_Inr:
  "absent_or f v = Inr x \<longleftrightarrow> v = JUndef \<and> x = None \<or> v \<noteq> JUndef \<and> (\<exists>y. f v = Inr y \<and> x = Some y)"
  by (auto simp: absent_or_def bindE_Inr_iff)

lemma nullish_or_Inr:
  "nullish_or f v = Inr x \<longleftrightarrow> nullish v \<and> x = None \<or> \<not> nullish v \<and> (\<exists>y. f v = Inr y \<and> x = Some y)"
  by (auto simp: nullish_or_def bindE_Inr_iff)

lemma only_keys_Inr: "only_keys ks v = Inr u \<longleftrightarrow> is_record v \<and> fst ` set (entries v) \<subseteq> set ks"
  by (simp add: only_keys_def guardE_Inr_iff)

lemmas parse_iffs = eff_string_Inr eff_natural_Inr nullable_string_Inr nullable_bool_Inr absent_or_Inr
  nullish_or_Inr only_keys_Inr bindE_Inr_iff

subsection \<open>Reading back what was written\<close>

definition harness_ok :: "harness \<Rightarrow> bool" where
  "harness_ok h \<longleftrightarrow> str_ok 255 (hn_agent h) \<and> str_ok 32 (hn_executorKind h) \<and> str_ok 64 (hn_configHash h) \<and>
     opt_ok (str_ok 255) (hn_connectionId h) \<and> opt_ok nat_ok (hn_connectionRevision h) \<and>
     opt_ok (str_ok 256) (hn_requestedModelId h)"

lemma parseHarness_js: "parseHarness (harness_js h) = Inr h \<longleftrightarrow> harness_ok h"
  by (cases h) (auto simp: parseHarness_def parse_iffs harness_js_def harness_ok_def opt_ok_def opt_member_def split: option.split)

lemma parseHarness_ok: "parseHarness v = Inr h \<Longrightarrow> harness_ok h"
  by (auto simp: parseHarness_def parse_iffs harness_ok_def)

definition metrics_ok :: "context_metrics \<Rightarrow> bool" where
  "metrics_ok c \<longleftrightarrow> nat_ok (cm_projectedBytes c) \<and> nat_ok (cm_projectedCharacters c) \<and> nat_ok (cm_selectedItems c) \<and>
     nat_ok (cm_selectedArtifacts c) \<and> nat_ok (cm_stateBytes c)"

lemma parseContextMetrics_js: "parseContextMetrics (metrics_js c) = Inr c \<longleftrightarrow> metrics_ok c"
  by (cases c) (auto simp: parseContextMetrics_def parse_iffs metrics_js_def metrics_ok_def)

lemma is_record_metrics: "\<not> nullish (metrics_js c)"
  by (simp add: metrics_js_def)

lemma parseContextMetrics_ok: "parseContextMetrics v = Inr c \<Longrightarrow> metrics_ok c"
  by (auto simp: parseContextMetrics_def parse_iffs metrics_ok_def)

lemma parseSession_js: "parseSession (JObj [(''mode'', JStr (mode_str m))]) = Inr m"
  by (cases m) (auto simp: parseSession_def parse_iffs SESSION_MODES_def)

definition usage_ok :: "reported_usage \<Rightarrow> bool" where
  "usage_ok u \<longleftrightarrow> opt_ok nat_ok (ru_input u) \<and> opt_ok nat_ok (ru_output u) \<and> opt_ok nat_ok (ru_cached u) \<and>
     opt_ok nat_ok (ru_cacheWrite u)"

lemma parseUsage_js: "parseUsage (usage_js u) = Inr u \<longleftrightarrow> usage_ok u"
  by (cases u) (auto simp: parseUsage_def parse_iffs usage_js_def usage_ok_def opt_ok_def opt_member_def split: option.split)

lemma parseUsage_ok: "parseUsage v = Inr u \<Longrightarrow> usage_ok u"
  by (auto simp: parseUsage_def parse_iffs usage_ok_def split: jsv.splits)

lemma extractReportedUsage_ok: "usage_ok (extractReportedUsage v)"
  by (auto simp: usage_ok_def extractReportedUsage_def opt_ok_def safe_natural_Some split: option.split)

definition timing_ok :: "timing \<Rightarrow> bool" where
  "timing_ok t \<longleftrightarrow> str_ok 64 (tg_startedAt t) \<and> opt_ok (\<lambda>s. length s \<le> 64) (tg_completedAt t) \<and>
     opt_ok nat_ok (tg_durationMs t)"

lemma parseTiming_js: "parseTiming (timing_js t) = Inr t \<longleftrightarrow> timing_ok t"
  by (cases t)
    (auto simp: parseTiming_def parse_iffs timing_js_def timing_ok_def opt_ok_def null_or_def split: option.split)

lemma parseTiming_ok: "parseTiming v = Inr t \<Longrightarrow> timing_ok t"
  by (auto simp: parseTiming_def parse_iffs timing_ok_def)

definition bundle_ok :: "string \<times> bool \<Rightarrow> bool" where
  "bundle_ok b \<longleftrightarrow> length (fst b) = 64 \<and> list_all is_lower_hex (fst b)"

lemma parse_bundle_js: "parse_bundle (JObj [(''hash'', JStr h), (''reused'', JBool r)]) = Inr b \<longleftrightarrow> b = (h, r) \<and> bundle_ok b"
  by (auto simp: parse_bundle_def parse_iffs bundle_ok_def str_ok_def)

lemma parse_bundle_ok: "parse_bundle v = Inr b \<Longrightarrow> bundle_ok b"
  by (cases "getp v ''reused''") (auto simp: parse_bundle_def parse_iffs bundle_ok_def split: if_splits)

definition workspace_ok :: "workspace_identity \<Rightarrow> bool" where
  "workspace_ok w \<longleftrightarrow> str_ok 255 (wi_workspaceId w) \<and> opt_ok (\<lambda>s. length s \<le> 255) (wi_branch w) \<and>
     opt_ok (\<lambda>s. length s \<le> 64) (wi_headSha w)"

lemma parse_workspace_js: "parse_workspace (workspace_js w) = Inr w \<longleftrightarrow> workspace_ok w"
  by (cases w)
    (auto simp: parse_workspace_def parse_iffs workspace_js_def workspace_ok_def opt_ok_def null_or_def split: option.split)

lemma workspace_not_undef: "workspace_js w \<noteq> JUndef"
  by (simp add: workspace_js_def)

lemma parse_workspace_ok: "parse_workspace v = Inr w \<Longrightarrow> workspace_ok w"
  by (auto simp: parse_workspace_def parse_iffs workspace_ok_def)

definition efficiency_ok :: "efficiency \<Rightarrow> bool" where
  "efficiency_ok e \<longleftrightarrow> str_ok 255 (ef_invocationId e) \<and> opt_ok bundle_ok (ef_bundle e) \<and> harness_ok (ef_harness e) \<and>
     opt_ok workspace_ok (ef_workspace e) \<and> opt_ok metrics_ok (ef_context e) \<and> usage_ok (ef_usage e) \<and>
     timing_ok (ef_timing e)"

lemma parseEfficiency_ok: "parseEfficiencyEvidence v = Inr e \<Longrightarrow> efficiency_ok e"
  by (auto simp: parseEfficiencyEvidence_def parse_iffs efficiency_ok_def split: if_splits
    dest: parseHarness_ok parseContextMetrics_ok parseUsage_ok parseTiming_ok parse_bundle_ok parse_workspace_ok)

lemma nullish_null_or: "(\<And>x. \<not> nullish (f x)) \<Longrightarrow> nullish_or g (null_or f v) = Inr v \<longleftrightarrow> opt_ok (\<lambda>x. g (f x) = Inr x) v"
  by (cases v) (auto simp: nullish_or_Inr null_or_def)

lemma parseEfficiency_js:
  assumes "efficiency_ok e"
  shows "parseEfficiencyEvidence (efficiency_js e) = Inr e"
proof -
  have b: "nullish_or parse_bundle (null_or (\<lambda>(h, r). JObj [(''hash'', JStr h), (''reused'', JBool r)]) (ef_bundle e)) =
      Inr (ef_bundle e)"
    using assms by (subst nullish_null_or) (auto simp: efficiency_ok_def opt_ok_def parse_bundle_js split: option.split)
  have c: "nullish_or parseContextMetrics (null_or metrics_js (ef_context e)) = Inr (ef_context e)"
    using assms by (subst nullish_null_or)
      (auto simp: efficiency_ok_def opt_ok_def parseContextMetrics_js is_record_metrics split: option.split)
  have w: "absent_or parse_workspace (case ef_workspace e of None \<Rightarrow> JUndef | Some w \<Rightarrow> workspace_js w) = Inr (ef_workspace e)"
    using assms by (auto simp: absent_or_Inr efficiency_ok_def parse_workspace_js workspace_not_undef split: option.split)
  have i: "eff_string 255 (JStr (ef_invocationId e)) = Inr (ef_invocationId e)"
    using assms by (simp add: eff_string_Inr efficiency_ok_def)
  have h: "parseHarness (harness_js (ef_harness e)) = Inr (ef_harness e)"
    and u: "parseUsage (usage_js (ef_usage e)) = Inr (ef_usage e)"
    and t: "parseTiming (timing_js (ef_timing e)) = Inr (ef_timing e)"
    using assms by (simp_all add: efficiency_ok_def parseHarness_js parseUsage_js parseTiming_js)
  have k: "only_keys [''schemaVersion'', ''invocationId'', ''contextBundle'', ''harness'', ''workspace'',
              ''context'', ''session'', ''usage'', ''timing''] (efficiency_js e) = Inr ()"
    by (auto simp: only_keys_Inr efficiency_js_def opt_member_def split: option.split)
  have w': "getp (efficiency_js e) ''workspace'' = (case ef_workspace e of None \<Rightarrow> JUndef | Some w \<Rightarrow> workspace_js w)"
    by (simp add: efficiency_js_def split: option.split)
  show ?thesis
    unfolding parseEfficiencyEvidence_def k w' w
    by (simp add: efficiency_js_def parseSession_js b c i h u t)
qed

text \<open>The record of an attempt that was read once is read back, as it is and completed with a result, as
  the same record.\<close>

theorem efficiency_roundtrip:
  assumes "parseEfficiencyEvidence v = Inr e"
  shows "parseEfficiencyEvidence (efficiency_js e) = Inr e \<and>
    (\<bar>completedAt\<bar> \<le> 8640000000000000 \<and> \<bar>startedAt\<bar> \<le> 8640000000000000 \<and>
       completedAt - startedAt \<le> MAX_SAFE_INTEGER \<longrightarrow>
     parseEfficiencyEvidence (efficiency_js (completeEfficiencyEvidence e usage completedAt startedAt)) =
       Inr (completeEfficiencyEvidence e usage completedAt startedAt))"
proof -
  from assms have ok: "efficiency_ok e" by (rule parseEfficiency_ok)
  have "efficiency_ok (completeEfficiencyEvidence e usage completedAt startedAt)"
    if "\<bar>completedAt\<bar> \<le> 8640000000000000" "\<bar>startedAt\<bar> \<le> 8640000000000000"
      "completedAt - startedAt \<le> MAX_SAFE_INTEGER"
    using ok that extractReportedUsage_ok [of usage] length_toISOString [of completedAt] length_toISOString [of startedAt]
    by (auto simp: efficiency_ok_def completeEfficiencyEvidence_def timing_ok_def str_ok_def nat_ok_def MAX_SAFE_INTEGER_def)
  with ok show ?thesis by (simp add: parseEfficiency_js)
qed

definition ex_evidence :: efficiency where
  "ex_evidence = buildClaimEfficiencyEvidence ''i'' \<lparr>hn_agent = ''a'', hn_executorKind = ''http'', hn_configHash = ''c'',
     hn_connectionId = None, hn_connectionRevision = Some 2, hn_requestedModelId = None\<rparr> None None None True ''t''"

theorem efficiency_roundtrip_witness:
  "\<exists>v. parseEfficiencyEvidence v = Inr ex_evidence \<and>
     parseEfficiencyEvidence (efficiency_js (completeEfficiencyEvidence ex_evidence (JObj [(''inputTokens'', jint 7)]) 2000 1000)) =
       Inr (completeEfficiencyEvidence ex_evidence (JObj [(''inputTokens'', jint 7)]) 2000 1000)"
proof -
  have "efficiency_ok ex_evidence"
    by (simp add: ex_evidence_def buildClaimEfficiencyEvidence_def efficiency_ok_def harness_ok_def str_ok_def nat_ok_def
      MAX_SAFE_INTEGER_def usage_ok_def timing_ok_def)
  from parseEfficiency_js [OF this] efficiency_roundtrip [OF parseEfficiency_js [OF this]] show ?thesis
    by (auto simp: MAX_SAFE_INTEGER_def)
qed

end
