(* ===== verification/TransportIdentity.thy ===== *)
theory TransportIdentity
  imports Json
begin

text \<open>
  services/orchestrator/src/domain/transport-identity.ts: the bounded identity under which a delivery is
  recorded, whatever transport it came by. The hash is a parameter.
\<close>

definition MAX_SOURCE_ADAPTER_LENGTH :: nat where "MAX_SOURCE_ADAPTER_LENGTH = 50"
definition MAX_SOURCE_SCOPE_LENGTH :: nat where "MAX_SOURCE_SCOPE_LENGTH = 255"
definition MAX_SOURCE_MESSAGE_ID_LENGTH :: nat where "MAX_SOURCE_MESSAGE_ID_LENGTH = 255"

record transport =
  tm_adapter :: string
  tm_topic :: "string option"
  tm_partition :: "int option"
  tm_offset :: "string option"
  tm_keyId :: "string option"
  tm_deliveryId :: "string option"

record transport_identity =
  ti_adapter :: string
  ti_scope :: "string option"
  ti_messageId :: "string option"

datatype transport_error = AdapterTooLong | ScopeTooLong | MessageIdTooLong

definition boundedKafkaScope :: "(string \<Rightarrow> string) \<Rightarrow> string \<Rightarrow> string" where
  "boundedKafkaScope sha rawScope =
     (if length rawScope \<le> MAX_SOURCE_SCOPE_LENGTH then rawScope else ''kafka-sha256:'' @ sha rawScope)"

definition too_long :: "nat \<Rightarrow> string option \<Rightarrow> bool" where
  "too_long n s = (case s of None \<Rightarrow> False | Some t \<Rightarrow> length t > n)"

definition durableTransportIdentity ::
  "(string \<Rightarrow> string) \<Rightarrow> transport \<Rightarrow> transport_error + transport_identity" where
  "durableTransportIdentity sha t =
     (if length (tm_adapter t) > MAX_SOURCE_ADAPTER_LENGTH then Inl AdapterTooLong
      else if tm_adapter t = ''kafka'' then
        (let scope = map_option (\<lambda>topic. boundedKafkaScope sha (topic @ '':'' @
               int_str (case tm_partition t of None \<Rightarrow> 0 | Some p \<Rightarrow> p))) (tm_topic t)
         in if too_long MAX_SOURCE_MESSAGE_ID_LENGTH (tm_offset t) then Inl MessageIdTooLong
            else Inr \<lparr>ti_adapter = tm_adapter t, ti_scope = scope, ti_messageId = tm_offset t\<rparr>)
      else if too_long MAX_SOURCE_SCOPE_LENGTH (tm_keyId t) then Inl ScopeTooLong
      else if too_long MAX_SOURCE_MESSAGE_ID_LENGTH (tm_deliveryId t) then Inl MessageIdTooLong
      else Inr \<lparr>ti_adapter = tm_adapter t, ti_scope = tm_keyId t, ti_messageId = tm_deliveryId t\<rparr>)"

subsection \<open>Properties\<close>

lemma boundedKafkaScope_length:
  "(\<And>s. length (sha s) = 64) \<Longrightarrow> length (boundedKafkaScope sha s) \<le> MAX_SOURCE_SCOPE_LENGTH"
  by (simp add: boundedKafkaScope_def MAX_SOURCE_SCOPE_LENGTH_def)

lemma partition_text_inject:
  "topic @ CHR '':'' # int_str p = topic' @ CHR '':'' # int_str p' \<longleftrightarrow> topic = topic' \<and> p = p'"
proof -
  have "CHR '':'' \<notin> set (int_str n)" for n
    using int_str_chars [of "CHR '':''" n] by (auto simp: is_digit_def)
  then show ?thesis by (simp add: last_sep_eq)
qed

text \<open>An identity fits the columns it is stored in, and within the bound of a scope two deliveries of
  one transport have the same identity only when they are the same record of the same partition.\<close>

theorem durableTransportIdentity_bounded:
  assumes "\<And>s. length (sha s) = 64" and "durableTransportIdentity sha t = Inr i"
  shows "length (ti_adapter i) \<le> 50 \<and> \<not> too_long 255 (ti_scope i) \<and> \<not> too_long 255 (ti_messageId i) \<and>
    (\<forall>t' topic topic'. durableTransportIdentity sha t' = Inr i \<and> tm_adapter t = ''kafka'' \<and>
       tm_topic t = Some topic \<and> tm_topic t' = Some topic' \<and>
       length topic + length (int_str (case tm_partition t of None \<Rightarrow> 0 | Some p \<Rightarrow> p)) < 255 \<and>
       length topic' + length (int_str (case tm_partition t' of None \<Rightarrow> 0 | Some p \<Rightarrow> p)) < 255 \<longrightarrow>
       topic = topic' \<and> tm_offset t = tm_offset t' \<and>
       (case tm_partition t of None \<Rightarrow> 0 | Some p \<Rightarrow> p) = (case tm_partition t' of None \<Rightarrow> 0 | Some p \<Rightarrow> p))"
proof -
  have "\<not> too_long 255 (map_option (\<lambda>s. boundedKafkaScope sha (f s)) v)" for f and v :: "string option"
    using boundedKafkaScope_length [of sha] assms(1)
    by (cases v) (auto simp: too_long_def MAX_SOURCE_SCOPE_LENGTH_def not_less)
  with assms(2) have bounds: "length (ti_adapter i) \<le> 50" "\<not> too_long 255 (ti_scope i)"
    "\<not> too_long 255 (ti_messageId i)"
    by (auto simp: durableTransportIdentity_def Let_def MAX_SOURCE_ADAPTER_LENGTH_def MAX_SOURCE_SCOPE_LENGTH_def
      MAX_SOURCE_MESSAGE_ID_LENGTH_def split: if_splits)
  have scope: "tm_adapter t = ''kafka'' \<Longrightarrow> durableTransportIdentity sha t = Inr i \<Longrightarrow> tm_topic t = Some topic \<Longrightarrow>
      length topic + length (int_str (case tm_partition t of None \<Rightarrow> 0 | Some p \<Rightarrow> p)) < 255 \<Longrightarrow>
      ti_scope i = Some (topic @ CHR '':'' # int_str (case tm_partition t of None \<Rightarrow> 0 | Some p \<Rightarrow> p)) \<and>
      ti_messageId i = tm_offset t \<and> ti_adapter i = ''kafka''" for t topic
    by (auto simp: durableTransportIdentity_def Let_def boundedKafkaScope_def MAX_SOURCE_SCOPE_LENGTH_def split: if_splits)
  have adapter: "durableTransportIdentity sha t = Inr i \<Longrightarrow> ti_adapter i = tm_adapter t" for t
    by (auto simp: durableTransportIdentity_def Let_def split: if_splits)
  show ?thesis
  proof (intro conjI allI impI bounds; elim conjE)
    fix t' topic topic'
    assume *: "durableTransportIdentity sha t' = Inr i" "tm_adapter t = ''kafka''" "tm_topic t = Some topic"
      "tm_topic t' = Some topic'"
      "length topic + length (int_str (case tm_partition t of None \<Rightarrow> 0 | Some p \<Rightarrow> p)) < 255"
      "length topic' + length (int_str (case tm_partition t' of None \<Rightarrow> 0 | Some p \<Rightarrow> p)) < 255"
    have "tm_adapter t' = ''kafka''" using adapter [OF *(1)] adapter [OF assms(2)] *(2) by simp
    from scope [OF *(2) assms(2) *(3,5)] scope [OF this *(1,4,6)]
    show "topic = topic'" "tm_offset t = tm_offset t'"
      "(case tm_partition t of None \<Rightarrow> 0 | Some p \<Rightarrow> p) = (case tm_partition t' of None \<Rightarrow> 0 | Some p \<Rightarrow> p)"
      by (auto simp: partition_text_inject)
  qed
qed

theorem durableTransportIdentity_bounded_witness:
  "durableTransportIdentity (\<lambda>_. replicate 64 CHR ''0'') \<lparr>tm_adapter = ''kafka'', tm_topic = Some ''t'',
       tm_partition = Some 3, tm_offset = Some ''9'', tm_keyId = None, tm_deliveryId = None\<rparr> =
     Inr \<lparr>ti_adapter = ''kafka'', ti_scope = Some ''t:3'', ti_messageId = Some ''9''\<rparr> \<and>
   \<not> too_long 255 (Some ''t:3'')"
proof -
  have "int_str 3 = ''3''" by code_simp
  then have "durableTransportIdentity (\<lambda>_. replicate 64 CHR ''0'') \<lparr>tm_adapter = ''kafka'', tm_topic = Some ''t'',
       tm_partition = Some 3, tm_offset = Some ''9'', tm_keyId = None, tm_deliveryId = None\<rparr> =
     Inr \<lparr>ti_adapter = ''kafka'', ti_scope = Some ''t:3'', ti_messageId = Some ''9''\<rparr>"
    by (simp add: durableTransportIdentity_def Let_def boundedKafkaScope_def MAX_SOURCE_SCOPE_LENGTH_def
      MAX_SOURCE_ADAPTER_LENGTH_def MAX_SOURCE_MESSAGE_ID_LENGTH_def too_long_def)
  with durableTransportIdentity_bounded [OF _ this] show ?thesis by simp
qed

end
