(* ===== verification/Runtime.thy ===== *)
theory Runtime
  imports Pipeline PlanPatch Ledger Policy ContextBundle TransportIdentity
begin

text \<open>
  The rows that the orchestrator's services share (services/orchestrator/src/entities): executions with their
  plan revisions, logical steps and attempts, the dispatch outbox, the result inbox with its evidence tables,
  proposals and approval requests, next to the ledger and the policy tables. A row has the columns that the
  modelled operations read or write; a service method that runs in one transaction is a function from the
  database to an error (the transaction is rolled back) or the database after the commit.
\<close>

subsection \<open>Plans as stored JSON\<close>

fun operand_js :: "operand \<Rightarrow> jsv" where
  "operand_js (Lit v) = v"
| "operand_js (Ref r) = JObj [(''ref'', JStr r)]"

fun condition_js :: "condition \<Rightarrow> jsv" where
  "condition_js (Cmp c x y) =
     JObj [(''op'', JStr (cmp_str c)), (''left'', operand_js x), (''right'', operand_js y)]"
| "condition_js (And cs) = JObj [(''op'', JStr ''and''), (''conditions'', JArr (map condition_js cs))]"
| "condition_js (Or cs) = JObj [(''op'', JStr ''or''), (''conditions'', JArr (map condition_js cs))]"
| "condition_js (Not c) = JObj [(''op'', JStr ''not''), (''condition'', condition_js c)]"
| "condition_js (Exists x) = JObj [(''op'', JStr ''exists''), (''value'', operand_js x)]"
| "condition_js (InList x xs) =
     JObj [(''op'', JStr ''in''), (''value'', operand_js x), (''values'', JArr (map operand_js xs))]"
| "condition_js (InRef x r) =
     JObj [(''op'', JStr ''in''), (''value'', operand_js x), (''values'', JObj [(''ref'', JStr r)])]"

definition projection_js :: "context_projection \<Rightarrow> jsv" where
  "projection_js p = JObj ((''stateKeys'', JArr (map JStr (cp_stateKeys p)))
     # opt_member ''artifacts'' (\<lambda>ss. JArr (map selector_js ss)) (cp_artifacts p))"

definition step_js :: "step \<Rightarrow> jsv" where
  "step_js s = JObj ([(''id'', JStr (st_id s)), (''agent'', JStr (st_agent s))]
     @ opt_member ''input'' id (st_input s)
     @ opt_member ''dependsOn'' (\<lambda>ds. JArr (map JStr ds)) (st_dependsOn s)
     @ opt_member ''condition'' condition_js (st_condition s)
     @ opt_member ''timeout'' id (st_timeout s)
     @ opt_member ''retries'' (\<lambda>n. jint n) (st_retries s)
     @ opt_member ''onFailure'' id (st_onFailure s)
     @ opt_member ''metadata'' id (st_metadata s)
     @ opt_member ''contextProjection'' projection_js (st_projection s)
     @ opt_member ''stateWrites'' (\<lambda>ws. JArr (map mapping_js ws)) (st_stateWrites s)
     @ opt_member ''budget'' amounts_js (st_budget s)
     @ (if st_planner s then [(''planner'', JBool True)] else [])
     @ opt_member ''delegation'' JStr (st_delegation s))"

text \<open>Why a transaction throws.\<close>

datatype runtime_error =
    LedgerError ledger_error | PolicyError policy_service_error | RowMissing string | GuardLost string
  | TransportError transport_error | PatchError patch_error | NoActiveRevision | UniqueError string | TooLong string
  | Raised string

text \<open>The error texts of the rows, by what they are made of.\<close>

datatype failure =
    Reported string | StateWriteRejected string | PlannerProposalInvalid runtime_error | Message string

subsection \<open>Attempts, steps and executions\<close>

datatype attempt_status = ACreated | ADispatched | ARunning | AWaiting | ASuccess | AFailed | ATimedOut | ACancelled

definition TERMINAL_ATTEMPTS :: "attempt_status list" where
  "TERMINAL_ATTEMPTS = [ASuccess, AFailed, ATimedOut, ACancelled]"

record attempt =
  at_id :: string
  at_executionId :: string
  at_logicalStepId :: string
  at_planRevisionId :: string
  at_attemptNumber :: int
  at_invocationId :: string
  at_frozenSpecHash :: "string option"
  at_inputSnapshot :: jsv
  at_contextSnapshot :: jsv
  at_efficiency :: jsv
  at_executorSnapshot :: jsv
  at_status :: attempt_status
  at_createdAt :: int
  at_startTime :: "int option"
  at_deadlineAt :: "int option"
  at_dispatchedAt :: "int option"
  at_terminalAt :: "int option"
  at_acceptedAt :: "int option"
  at_lastEventAt :: "int option"
  at_lastHeartbeatAt :: "int option"
  at_lastProgressAt :: "int option"
  at_result :: jsv
  at_error :: "failure option"
  at_terminationReason :: "failure option"

datatype step_status = SPending | SReady | SRunning | SRetrying | SWaiting | SCompleted | SFailed | SSkipped | SCancelled

definition TERMINAL_STEPS :: "step_status list" where
  "TERMINAL_STEPS = [SCompleted, SFailed, SSkipped, SCancelled]"

record logical_step =
  ls_id :: string
  ls_executionId :: string
  ls_stepId :: string
  ls_agent :: string
  ls_status :: step_status
  ls_input :: jsv
  ls_output :: jsv
  ls_error :: "failure option"
  ls_attempt :: int
  ls_maxAttempts :: int
  ls_nextAttemptAt :: "int option"
  ls_startTime :: "int option"
  ls_endTime :: "int option"
  ls_eligibleAt :: "int option"
  ls_frozenSpecHash :: "string option"
  ls_frozenAt :: "int option"
  ls_conditionResult :: "bool option"
  ls_createdAt :: int

text \<open>The execution row of theory ExecState with the columns of the life cycle.\<close>

record run_row = execution_row +
  xr_pipeline :: jsv
  xr_input :: jsv
  xr_output :: jsv
  xr_activeRevision :: "string option"
  xr_terminationReason :: "failure option"
  xr_startTime :: "int option"
  xr_endTime :: "int option"
  xr_authorityDeadlineAt :: "int option"

record revision =
  rv_id :: string
  rv_executionId :: string
  rv_number :: int
  rv_parent :: "string option"
  rv_base :: "int option"
  rv_budget :: jsv
  rv_steps :: "step list"
  rv_planHash :: string
  rv_source :: string
  rv_reason :: string
  rv_validation :: jsv

subsection \<open>Outbox and inbox\<close>

datatype outbox_status = OPending | OLeased | ODispatched | OCompleted | OFailed

record outbox_row =
  ob_id :: string
  ob_attempt :: string
  ob_invocation :: jsv
  ob_status :: outbox_status
  ob_nextDispatchAt :: int
  ob_leaseExpiresAt :: "int option"
  ob_leaseToken :: "string option"
  ob_count :: int
  ob_receipt :: jsv
  ob_error :: "failure option"

datatype inbox_status = IReceived | IApplied | IRejected

record inbox_row =
  ib_id :: string
  ib_invocationId :: string
  ib_attempt :: string
  ib_hash :: string
  ib_payload :: jsv
  ib_source :: transport_identity
  ib_status :: inbox_status
  ib_receivedAt :: int
  ib_appliedAt :: "int option"
  ib_error :: "failure option"

record conflict_row =
  cf_invocationId :: string
  cf_inbox :: string
  cf_hash :: string
  cf_payload :: jsv
  cf_source :: transport_identity
  cf_receivedAt :: int

record artifact_row =
  af_id :: string
  af_inbox :: string
  af_ordinal :: nat
  af_hash :: string

datatype write_disposition = WApplied | WNoop | WRejected

record evidence_row =
  ev_execution :: string
  ev_attempt :: string
  ev_inbox :: string
  ev_prior :: int
  ev_result :: int
  ev_disposition :: write_disposition
  ev_mappingHash :: "string option"
  ev_rejectionCode :: "string option"

text \<open>Which artifacts an attempt was shown.\<close>

record exposure_row =
  xp_attempt :: string
  xp_artifact :: string

record observation_row =
  on_attempt :: string
  on_execution :: string
  on_observationId :: string
  on_hash :: string
  on_payload :: jsv

text \<open>Agent events: evidence of an attempt, and the events that could not be stored.\<close>

record event_row =
  ae_id :: string
  ae_attempt :: string
  ae_invocationId :: string
  ae_executionId :: string
  ae_logicalStepId :: string
  ae_eventId :: string
  ae_sequence :: int
  ae_type :: string
  ae_payload :: jsv
  ae_metadata :: jsv
  ae_trace :: jsv
  ae_hash :: string
  ae_source :: transport_identity
  ae_receivedAt :: int

datatype event_conflict = EventIdPayload | SequenceOwner

record event_conflict_row =
  ac_attempt :: string
  ac_invocationId :: string
  ac_eventId :: string
  ac_sequence :: int
  ac_kind :: event_conflict
  ac_hash :: string
  ac_payload :: jsv
  ac_source :: transport_identity
  ac_receivedAt :: int

subsection \<open>Proposals and approvals\<close>

datatype proposal_status = PPending | PAccepted | PRejected | PStale

text \<open>Why a proposal was decided; the column holds a text made of this.\<close>

datatype decision_reason =
    ExecutionOver execution_status | ExecutionGone | NoActivePlan | RevisionMissing string | BaseNotActive int int
  | PatchRejected patch_error | CandidateInvalid pipeline_error | PolicyDenied "string list"
  | PlannerRecursion | Activated int nat nat | AwaitingApproval | ApprovalDenied | ApprovalExpired | AlreadyDecided

record proposal_row =
  pr_id :: string
  pr_executionId :: string
  pr_number :: int
  pr_base :: int
  pr_patch :: plan_patch
  pr_hash :: string
  pr_status :: proposal_status
  pr_reason :: "decision_reason option"
  pr_source :: string
  pr_decidedAt :: "int option"

text \<open>The note of a decision; a plan patch's note is a text made of the decision on the proposal.\<close>

datatype approval_note = Note string | PlanNote proposal_status decision_reason

record approval_row =
  aq_proposalId :: string
  aq_hash :: string
  aq_actionType :: action_type
  aq_executionId :: string
  aq_logicalStepId :: string
  aq_attemptNumber :: int
  aq_agent :: "string option"
  aq_executor :: "string option"
  aq_status :: approval_status
  aq_expiresAt :: int
  aq_decidedAt :: "int option"
  aq_note :: "approval_note option"

record runtime_db =
  d_runs :: "run_row list"
  d_revisions :: "revision list"
  d_steps :: "logical_step list"
  d_attempts :: "attempt list"
  d_outbox :: "outbox_row list"
  d_inbox :: "inbox_row list"
  d_conflicts :: "conflict_row list"
  d_artifacts :: "artifact_row list"
  d_evidence :: "evidence_row list"
  d_exposures :: "exposure_row list"
  d_observations :: "observation_row list"
  d_observationConflicts :: "observation_row list"
  d_events :: "event_row list"
  d_eventConflicts :: "event_conflict_row list"
  d_proposals :: "proposal_row list"
  d_approvals :: "approval_row list"
  d_ledger :: ledger_db
  d_policy :: policy_db

text \<open>
  What a transaction has from outside the database: the hash and the collation, the clock, the policy
  configuration, and the ids that the database gives new rows; then what the transport configuration and the
  services of other subsystems answer: the delegation modes and the executor kind of an agent, the frozen
  executor snapshot of a claim (or why there is none), the workspaces of an execution, whether a runtime
  connection may still be used, and whether the text of a decision fits into the note column; \<open>en_text\<close> is the
  text of a failure.
\<close>

record env =
  en_sha :: "string \<Rightarrow> string"
  en_coll :: "string \<Rightarrow> string \<Rightarrow> bool"
  en_now :: int
  en_policy :: policy_env
  en_race :: "policy_snapshot option"
  en_newId :: "string \<Rightarrow> string"
  en_modes :: "string \<Rightarrow> string list option"
  en_kind :: "string \<Rightarrow> string"
  en_snapshot :: "string \<Rightarrow> string option \<Rightarrow> string option \<Rightarrow> string + jsv"
  en_workspace :: "string \<Rightarrow> workspace_identity option"
  en_executionWorkspace :: "string \<Rightarrow> jsv option"
  en_connected :: "string \<Rightarrow> bool"
  en_fits :: "decision_reason \<Rightarrow> bool"
  en_text :: "failure \<Rightarrow> string"

subsection \<open>Finding and saving rows\<close>

text \<open>\<open>UPDATE ... SET f WHERE P\<close>; a repository's save writes the row with its primary key.\<close>

definition update_where :: "('r \<Rightarrow> bool) \<Rightarrow> ('r \<Rightarrow> 'r) \<Rightarrow> 'r list \<Rightarrow> 'r list" where
  "update_where P f rows = map (\<lambda>r. if P r then f r else r) rows"

definition affected :: "('r \<Rightarrow> bool) \<Rightarrow> 'r list \<Rightarrow> nat" where
  "affected P rows = length (filter P rows)"

definition save_by :: "('r \<Rightarrow> 'k) \<Rightarrow> 'r \<Rightarrow> 'r list \<Rightarrow> 'r list" where
  "save_by k x rows = update_where (\<lambda>r. k r = k x) (\<lambda>_. x) rows"

definition find_by :: "('r \<Rightarrow> 'k) \<Rightarrow> 'k \<Rightarrow> 'r list \<Rightarrow> 'r option" where
  "find_by f v rows = find (\<lambda>r. f r = v) rows"

definition is_live :: "run_row \<Rightarrow> bool" where
  "is_live x \<longleftrightarrow> x_status x \<notin> set TERMINAL_EXECUTION_STATUSES"

lemma mapL_Inr [simp, result_simps]: "mapL f m = Inr x \<longleftrightarrow> m = Inr x"
  by (cases m) (simp_all add: mapL_def)

lemma map_update_where: "(\<And>r. g (f r) = g r) \<Longrightarrow> map g (update_where P f rows) = map g rows"
  by (auto simp: update_where_def)

lemma set_update_where: "set (update_where P f rows) = (\<lambda>r. if P r then f r else r) ` set rows"
  by (simp add: update_where_def)

lemma map_save_by: "map k (save_by k x rows) = map k rows"
  by (auto simp: save_by_def update_where_def)

lemma find_by_Some: "find_by f v rows = Some r \<Longrightarrow> r \<in> set rows \<and> f r = v"
  by (auto simp: find_by_def find_Some_iff)

lemma find_by_None: "find_by f v rows = None \<longleftrightarrow> v \<notin> f ` set rows"
  by (auto simp: find_by_def find_None_iff)

lemma find_by_save:
  "find_by k v (save_by k x rows) =
     (if k x = v then map_option (\<lambda>_. x) (find_by k v rows) else find_by k v rows)"
  by (induction rows) (auto simp: save_by_def update_where_def find_by_def)

lemma find_by_append:
  "find_by f v (xs @ ys) = (case find_by f v xs of Some r \<Rightarrow> Some r | None \<Rightarrow> find_by f v ys)"
  by (induction xs) (auto simp: find_by_def)

lemma length_save_by [simp]: "length (save_by k x rows) = length rows"
  by (simp add: save_by_def update_where_def)

lemma in_save_by: "r \<in> set (save_by k x rows) \<Longrightarrow> r = x \<or> r \<in> set rows \<and> k r \<noteq> k x"
  by (auto simp: save_by_def update_where_def split: if_splits)

end
