(* ===== verification/ProjectionCache.thy ===== *)
theory ProjectionCache
  imports Runtime
begin

text \<open>
  services/orchestrator/src/executors/context-projection-cache.ts: the bounded, content-addressed store of
  materialised context envelopes, and the projection of a claim through it (execution.service.ts). A claim reads
  the cache before it materialises: what it gets must be what it would have built.
\<close>

subsection \<open>The cache\<close>

definition maxEntries :: nat where "maxEntries = 64"
definition maxTotalBytes :: int where "maxTotalBytes = 4 * 1024 * 1024"

text \<open>The metrics without the size of the whole state, which is not a function of the envelope.\<close>

record envelope_metrics =
  em_projectedBytes :: int
  em_projectedCharacters :: int
  em_selectedItems :: int
  em_selectedArtifacts :: int

record cached =
  ce_envelope :: jsv
  ce_metrics :: envelope_metrics
  ce_bytes :: int

text \<open>The entries in their insertion order, the oldest first.\<close>

record projection_cache =
  pc_entries :: "(string \<times> cached) list"
  pc_hits :: nat
  pc_misses :: nat

definition empty_cache :: projection_cache where
  "empty_cache = \<lparr>pc_entries = [], pc_hits = 0, pc_misses = 0\<rparr>"

definition cache_bytes :: "(string \<times> cached) list \<Rightarrow> int" where
  "cache_bytes es = sum_list (map (ce_bytes \<circ> snd) es)"

text \<open>A hit moves the entry to the newest position.\<close>

definition cache_get :: "string \<Rightarrow> projection_cache \<Rightarrow> projection_cache \<times> cached option" where
  "cache_get h c =
     (case map_of (pc_entries c) h of
        None \<Rightarrow> (c\<lparr>pc_misses := pc_misses c + 1\<rparr>, None)
      | Some e \<Rightarrow> (c\<lparr>pc_hits := pc_hits c + 1,
            pc_entries := filter (\<lambda>p. fst p \<noteq> h) (pc_entries c) @ [(h, e)]\<rparr>, Some e))"

definition oversized :: "(string \<times> cached) list \<Rightarrow> bool" where
  "oversized es \<longleftrightarrow> length es > maxEntries \<or> cache_bytes es > maxTotalBytes"

fun evict :: "(string \<times> cached) list \<Rightarrow> (string \<times> cached) list" where
  "evict [] = []"
| "evict (e # es) = (if oversized (e # es) then evict es else e # es)"

definition envelope_metrics_of :: "context_metrics \<Rightarrow> envelope_metrics" where
  "envelope_metrics_of m = \<lparr>em_projectedBytes = cm_projectedBytes m, em_projectedCharacters = cm_projectedCharacters m,
     em_selectedItems = cm_selectedItems m, em_selectedArtifacts = cm_selectedArtifacts m\<rparr>"

definition cached_of :: "jsv \<Rightarrow> context_metrics \<Rightarrow> cached" where
  "cached_of v m = \<lparr>ce_envelope = v, ce_metrics = envelope_metrics_of m, ce_bytes = cm_projectedBytes m\<rparr>"

definition cache_add :: "string \<Rightarrow> cached \<Rightarrow> projection_cache \<Rightarrow> projection_cache" where
  "cache_add h e c =
     (if map_of (pc_entries c) h \<noteq> None then c
      else if ce_bytes e > maxTotalBytes then c
      else c\<lparr>pc_entries := evict (pc_entries c @ [(h, e)])\<rparr>)"

definition cache_set :: "string \<Rightarrow> jsv \<Rightarrow> context_metrics \<Rightarrow> projection_cache \<Rightarrow> projection_cache" where
  "cache_set h v m c = cache_add h (cached_of v m) c"

definition cache_reset :: "projection_cache \<Rightarrow> projection_cache" where
  "cache_reset c = empty_cache"

record cache_stats =
  st_hits :: nat
  st_misses :: nat
  st_entries :: nat
  st_bytes :: int

definition cache_stats_of :: "projection_cache \<Rightarrow> cache_stats" where
  "cache_stats_of c = \<lparr>st_hits = pc_hits c, st_misses = pc_misses c, st_entries = length (pc_entries c),
     st_bytes = cache_bytes (pc_entries c)\<rparr>"

subsection \<open>The projection of a claim\<close>

text \<open>Why a projection fails: an error of the projection itself, or one that aborts the claim.\<close>

datatype projection_fault = Projected context_error | Aborting state_error

text \<open>What one claim projects: the step's projection, the state with its version, the references and the identities.\<close>

record projection_inputs =
  pi_projection :: context_projection
  pi_state :: "(string \<times> jsv) list"
  pi_version :: int
  pi_references :: "artifact_reference list"
  pi_harness :: harness
  pi_planHash :: "string option"
  pi_workspace :: "workspace_identity option"

record projected =
  pj_envelope :: jsv
  pj_metrics :: context_metrics
  pj_hash :: string

definition with_state_bytes :: "envelope_metrics \<Rightarrow> int \<Rightarrow> context_metrics" where
  "with_state_bytes m n = \<lparr>cm_projectedBytes = em_projectedBytes m, cm_projectedCharacters = em_projectedCharacters m,
     cm_selectedItems = em_selectedItems m, cm_selectedArtifacts = em_selectedArtifacts m, cm_stateBytes = n\<rparr>"

definition bundle_of :: "projection_inputs \<Rightarrow> (string \<times> jsv) list \<Rightarrow> bundle_inputs" where
  "bundle_of p vals = \<lparr>bi_stateVersion = pi_version p, bi_stateValues = vals, bi_artifacts = pi_references p,
     bi_harness = pi_harness p, bi_planHash = pi_planHash p, bi_workspace = pi_workspace p\<rparr>"

definition materialize_miss ::
  "(string \<Rightarrow> string \<Rightarrow> bool) \<Rightarrow> projection_inputs \<Rightarrow> (string \<times> jsv) list \<Rightarrow> projection_fault + jsv \<times> context_metrics" where
  "materialize_miss coll p vals =
     bindE (mapL Projected (materializeContextSnapshot coll (projection_js (pi_projection p)) (pi_state p) (pi_version p)
         (pi_references p))) (\<lambda>env.
     bindE (mapL Aborting (measureContextEnvelope coll vals (pi_version p) (pi_references p) (pi_state p))) (\<lambda>metrics.
       Inr (env, metrics)))"

text \<open>The cache is the process's own: what it learnt stays when the projection, or later the claim, fails.\<close>

definition materializeProjectedContext ::
  "(string \<Rightarrow> string) \<Rightarrow> (string \<Rightarrow> string \<Rightarrow> bool) \<Rightarrow> projection_cache \<Rightarrow> projection_inputs \<Rightarrow>
     projection_cache \<times> (projection_fault + projected \<times> bool)" where
  "materializeProjectedContext sha coll c p =
     (case selectProjectedValues coll (projection_js (pi_projection p)) (pi_state p) of
        Inl e \<Rightarrow> (c, Inl (Projected e))
      | Inr vals \<Rightarrow>
          let h = computeContextBundleHash sha coll (bundle_of p vals)
          in (case cache_get h c of
                (c1, Some e) \<Rightarrow> (c1, bindE (mapL Aborting (jsonValueUtf8Size (JObj (pi_state p)))) (\<lambda>n.
                   Inr (\<lparr>pj_envelope = ce_envelope e, pj_metrics = with_state_bytes (ce_metrics e) (int n), pj_hash = h\<rparr>, True)))
              | (c1, None) \<Rightarrow>
                  (case materialize_miss coll p vals of
                     Inl f \<Rightarrow> (c1, Inl f)
                   | Inr (env, metrics) \<Rightarrow> (cache_set h env metrics c1,
                        Inr (\<lparr>pj_envelope = env, pj_metrics = metrics, pj_hash = h\<rparr>, False)))))"

end
