(* ===== verification/PlanProposal.thy ===== *)
theory PlanProposal
  imports Runtime
begin

text \<open>
  services/orchestrator/src/services/plan-proposal.service.ts: durable proposals of plan patches and their
  activation, one transaction that checks the base revision, protects the started steps, validates the whole
  candidate, asks the policy, and then installs a new plan revision and decides the proposal.
\<close>

definition defaultExpiryMs :: int where "defaultExpiryMs = 7 * 24 * 60 * 60 * 1000"

subsection \<open>Proposing\<close>

fun operation_js :: "patch_operation \<Rightarrow> jsv" where
  "operation_js (AddStep s) = JObj [(''op'', JStr ''addStep''), (''step'', s)]"
| "operation_js (ReplaceUnfrozenStep i s) =
     JObj [(''op'', JStr ''replaceUnfrozenStep''), (''stepId'', JStr i), (''step'', s)]"

definition patch_json :: "plan_patch \<Rightarrow> jsv" where
  "patch_json p = JObj [(''schemaVersion'', jint 1), (''baseRevision'', jint (pp_baseRevision p)),
     (''operations'', JArr (map operation_js (pp_operations p)))]"

definition lockExecution :: "runtime_db \<Rightarrow> string \<Rightarrow> run_row option" where
  "lockExecution db i = find_by x_id i (d_runs db)"

definition next_number :: "runtime_db \<Rightarrow> string \<Rightarrow> int" where
  "next_number db executionId =
     fold max (map pr_number (filter (\<lambda>p. pr_executionId p = executionId) (d_proposals db))) 0 + 1"

definition new_proposal :: "env \<Rightarrow> runtime_db \<Rightarrow> string \<Rightarrow> plan_patch \<Rightarrow> string \<Rightarrow> proposal_row" where
  "new_proposal en db executionId patch source =
     \<lparr>pr_id = en_newId en ''proposal'', pr_executionId = executionId, pr_number = next_number db executionId,
      pr_base = pp_baseRevision patch, pr_patch = patch,
      pr_hash = sha256Json (en_sha en) (en_coll en) (patch_json patch), pr_status = PPending, pr_reason = None,
      pr_source = source, pr_decidedAt = None\<rparr>"

definition insertProposal ::
  "env \<Rightarrow> runtime_db \<Rightarrow> string \<Rightarrow> plan_patch \<Rightarrow> string \<Rightarrow> runtime_error + runtime_db \<times> proposal_row" where
  "insertProposal en db executionId patch source =
     (let p = new_proposal en db executionId patch source
      in if find_by pr_id (pr_id p) (d_proposals db) \<noteq> None then Inl (UniqueError ''PK_plan_proposals'')
         else Inr (db\<lparr>d_proposals := d_proposals db @ [p]\<rparr>, p))"

definition propose ::
  "env \<Rightarrow> runtime_db \<Rightarrow> string \<Rightarrow> jsv \<Rightarrow> string \<Rightarrow> runtime_error + runtime_db \<times> proposal_row" where
  "propose en db executionId patch source =
     bindE (mapL PatchError (parsePlanPatch patch)) (\<lambda>parsed.
       case lockExecution db executionId of
         None \<Rightarrow> Inl (RowMissing ''execution'')
       | Some _ \<Rightarrow> insertProposal en db executionId parsed source)"

definition active_revision :: "runtime_db \<Rightarrow> run_row \<Rightarrow> revision option" where
  "active_revision db x = (case xr_activeRevision x of None \<Rightarrow> None | Some i \<Rightarrow> find_by rv_id i (d_revisions db))"

text \<open>Inside the result application: the base is pinned to the active revision.\<close>

definition proposeWithManager ::
  "env \<Rightarrow> runtime_db \<Rightarrow> string \<Rightarrow> jsv \<Rightarrow> string \<Rightarrow> runtime_error + runtime_db \<times> proposal_row" where
  "proposeWithManager en db executionId patch source =
     bindE (mapL PatchError (parsePlanPatch patch)) (\<lambda>parsed.
       case lockExecution db executionId of
         None \<Rightarrow> Inl (RowMissing ''execution'')
       | Some x \<Rightarrow>
           (case active_revision db x of
              None \<Rightarrow> Inl NoActiveRevision
            | Some active \<Rightarrow>
                insertProposal en db executionId (parsed\<lparr>pp_baseRevision := rv_number active\<rparr>) source))"

subsection \<open>Deciding\<close>

type_synonym activation = "proposal_status \<times> decision_reason"

text \<open>
  A decision is a guarded update. \<open>late\<close> is a decision that another transaction commits just before it.
\<close>

definition is_pending :: "string \<Rightarrow> proposal_row \<Rightarrow> bool" where
  "is_pending i p \<longleftrightarrow> pr_id p = i \<and> pr_status p = PPending"

definition decided :: "env \<Rightarrow> proposal_status \<Rightarrow> decision_reason \<Rightarrow> proposal_row \<Rightarrow> proposal_row" where
  "decided en st reason p = p\<lparr>pr_status := st, pr_reason := Some reason, pr_decidedAt := Some (en_now en)\<rparr>"

definition set_decision :: "env \<Rightarrow> string \<Rightarrow> proposal_status \<Rightarrow> decision_reason \<Rightarrow> runtime_db \<Rightarrow> runtime_db" where
  "set_decision en i st reason db =
     db\<lparr>d_proposals := update_where (is_pending i) (decided en st reason) (d_proposals db)\<rparr>"

definition interfere :: "env \<Rightarrow> string \<Rightarrow> activation option \<Rightarrow> runtime_db \<Rightarrow> runtime_db" where
  "interfere en i late db = (case late of None \<Rightarrow> db | Some (st, reason) \<Rightarrow> set_decision en i st reason db)"

definition stored_decision :: "runtime_db \<Rightarrow> string \<Rightarrow> activation" where
  "stored_decision db i = (case find_by pr_id i (d_proposals db) of
     None \<Rightarrow> (PStale, AlreadyDecided)
   | Some p \<Rightarrow> (pr_status p, case pr_reason p of None \<Rightarrow> AlreadyDecided | Some r \<Rightarrow> r))"

definition decide ::
  "env \<Rightarrow> activation option \<Rightarrow> runtime_db \<Rightarrow> string \<Rightarrow> proposal_status \<Rightarrow> decision_reason \<Rightarrow>
     runtime_db \<times> activation" where
  "decide en late db i st reason =
     (let db1 = interfere en i late db
      in if affected (is_pending i) (d_proposals db1) = 1
         then (set_decision en i st reason db1, (st, reason))
         else (db1, stored_decision db1 i))"

subsection \<open>Activating\<close>

definition frozenStepIds :: "runtime_db \<Rightarrow> string \<Rightarrow> string set" where
  "frozenStepIds db executionId =
     ls_stepId ` {s \<in> set (d_steps db). \<exists>a \<in> set (d_attempts db).
       at_executionId a = executionId \<and> at_logicalStepId a = ls_id s}"

definition plan_js :: "jsv \<Rightarrow> step list \<Rightarrow> jsv" where
  "plan_js budget steps = JObj ((''schemaVersion'', jint 1)
     # (if budget = JUndef then [] else [(''budget'', budget)])
     @ [(''steps'', JArr (map step_js steps))])"

definition step_hash :: "env \<Rightarrow> step \<Rightarrow> string" where
  "step_hash en s = sha256Json (en_sha en) (en_coll en) (step_js s)"

definition planner_ids :: "step list \<Rightarrow> string set" where
  "planner_ids steps = st_id ` {s \<in> set steps. st_planner s}"

definition addedSteps :: "step list \<Rightarrow> step list \<Rightarrow> step list" where
  "addedSteps base steps = filter (\<lambda>s. st_id s \<notin> st_id ` set base) steps"

definition replacedSteps :: "env \<Rightarrow> step list \<Rightarrow> step list \<Rightarrow> step list" where
  "replacedSteps en base steps = filter (\<lambda>s. case find (\<lambda>b. st_id b = st_id s) base of
     None \<Rightarrow> False | Some b \<Rightarrow> step_hash en s \<noteq> step_hash en b) steps"

definition new_revision :: "env \<Rightarrow> revision \<Rightarrow> proposal_row \<Rightarrow> step list \<Rightarrow> revision" where
  "new_revision en active p steps =
     \<lparr>rv_id = en_newId en ''revision'', rv_executionId = pr_executionId p, rv_number = rv_number active + 1,
      rv_parent = Some (rv_id active), rv_base = Some (pr_base p), rv_budget = rv_budget active, rv_steps = steps,
      rv_planHash = sha256Json (en_sha en) (en_coll en) (plan_js (rv_budget active) steps),
      rv_source = pr_source p, rv_reason = ''Activated PlanPatch proposal '' @ int_str (pr_number p),
      rv_validation = JObj [(''valid'', JBool True), (''proposalId'', JStr (pr_id p)),
        (''proposalHash'', JStr (pr_hash p)),
        (''addedSteps'', JArr (map (JStr \<circ> st_id) (addedSteps (rv_steps active) steps))),
        (''replacedSteps'', JArr (map (JStr \<circ> st_id) (replacedSteps en (rv_steps active) steps)))]\<rparr>"

definition new_logical_step :: "env \<Rightarrow> string \<Rightarrow> step \<Rightarrow> logical_step" where
  "new_logical_step en executionId s =
     \<lparr>ls_id = en_newId en (''step:'' @ st_id s), ls_executionId = executionId, ls_stepId = st_id s,
      ls_agent = st_agent s, ls_status = SPending, ls_input = JNull, ls_output = JNull, ls_error = None,
      ls_attempt = 0, ls_maxAttempts = 1, ls_nextAttemptAt = None, ls_startTime = None, ls_endTime = None,
      ls_eligibleAt = None, ls_frozenSpecHash = None, ls_frozenAt = None, ls_conditionResult = None,
      ls_createdAt = en_now en\<rparr>"

definition insert_step :: "env \<Rightarrow> string \<Rightarrow> runtime_db \<Rightarrow> step \<Rightarrow> runtime_error + runtime_db" where
  "insert_step en executionId db s =
     (if \<exists>l \<in> set (d_steps db). ls_executionId l = executionId \<and> ls_stepId l = st_id s
      then Inl (UniqueError ''UQ_step_executions_execution_step'')
      else if find_by ls_id (ls_id (new_logical_step en executionId s)) (d_steps db) \<noteq> None
      then Inl (UniqueError ''PK_step_executions'')
      else Inr (db\<lparr>d_steps := d_steps db @ [new_logical_step en executionId s]\<rparr>))"

definition insert_revision :: "runtime_db \<Rightarrow> revision \<Rightarrow> runtime_error + runtime_db" where
  "insert_revision db r =
     (if \<exists>r' \<in> set (d_revisions db). rv_executionId r' = rv_executionId r \<and> rv_number r' = rv_number r
      then Inl (UniqueError ''UQ_execution_plan_revision_number'')
      else if find_by rv_id (rv_id r) (d_revisions db) \<noteq> None then Inl (UniqueError ''PK_execution_plan_revisions'')
      else Inr (db\<lparr>d_revisions := d_revisions db @ [r]\<rparr>))"

definition insert_approval :: "runtime_db \<Rightarrow> approval_row \<Rightarrow> runtime_db" where
  "insert_approval db q =
     (if find_by aq_proposalId (aq_proposalId q) (d_approvals db) \<noteq> None then db
      else db\<lparr>d_approvals := d_approvals db @ [q]\<rparr>)"

datatype gate = Allowed | DeniedBy "string list" | Waits

text \<open>The policy gate of an activation: a granted request lets a REQUIRE_APPROVAL pass.\<close>

definition plan_approval :: "env \<Rightarrow> proposal_row \<Rightarrow> action_proposal \<Rightarrow> approval_row" where
  "plan_approval en p action =
     \<lparr>aq_proposalId = ''plan:'' @ pr_id p, aq_hash = p_hash action, aq_actionType = Policy.PlanPatch,
      aq_executionId = pr_executionId p, aq_logicalStepId = [], aq_attemptNumber = 1,
      aq_agent = None, aq_executor = None, aq_status = PENDING,
      aq_expiresAt = en_now en + defaultExpiryMs, aq_decidedAt = None, aq_note = None\<rparr>"

definition gate_decision :: "env \<Rightarrow> runtime_db \<Rightarrow> proposal_row \<Rightarrow> action_proposal \<Rightarrow> policy_decision \<Rightarrow> runtime_db \<times> gate" where
  "gate_decision en db p action d =
     (case d_effect d of
        ALLOW \<Rightarrow> (db, Allowed)
      | DENY \<Rightarrow> (db, DeniedBy (d_reasons d))
      | REQUIRE_APPROVAL \<Rightarrow>
          if \<exists>q \<in> set (d_approvals db). aq_proposalId q = ''plan:'' @ pr_id p \<and> aq_status q = APPROVED
          then (db, Allowed) else (insert_approval db (plan_approval en p action), Waits))"

definition policy_gate :: "env \<Rightarrow> runtime_db \<Rightarrow> proposal_row \<Rightarrow> runtime_error + runtime_db \<times> gate" where
  "policy_gate en db p =
     (if en_policy en = EnvUnset then Inr (db, Allowed)
      else bindE (mapL (PolicyError \<circ> Policy)
          (buildPlanPatchProposal (en_sha en) (en_coll en) (toISOString (en_now en)) (''plan:'' @ pr_id p)
             (pr_executionId p))) (\<lambda>action.
        bindE (mapL PolicyError (evaluate (en_sha en) (en_coll en) (d_policy db)
            \<lparr>er_env = en_policy en, er_race = en_race en, er_now = toISOString (en_now en),
             er_proposal = action\<rparr>)) (\<lambda>(pol, d).
          Inr (gate_decision en (db\<lparr>d_policy := pol\<rparr>) p action d))))"

text \<open>The writes of an accepted activation, with the check that no other decision came first.\<close>

definition install ::
  "env \<Rightarrow> activation option \<Rightarrow> runtime_db \<Rightarrow> run_row \<Rightarrow> revision \<Rightarrow> proposal_row \<Rightarrow> step list \<Rightarrow>
     runtime_error + runtime_db \<times> activation" where
  "install en late db x active p steps =
     (let r = new_revision en active p steps;
          added = addedSteps (rv_steps active) steps
      in bindE (insert_revision db r) (\<lambda>db1.
         bindE (foldE (insert_step en (pr_executionId p)) db1 added) (\<lambda>db2.
           let db3 = db2\<lparr>d_runs := save_by x_id (x\<lparr>xr_activeRevision := Some (rv_id r)\<rparr>) (d_runs db2)\<rparr>;
               (db4, outcome) = decide en late db3 (pr_id p) PAccepted
                 (Activated (rv_number r) (length added) (length (replacedSteps en (rv_steps active) steps)))
           in if fst outcome \<noteq> PAccepted then Inl (GuardLost ''proposal'') else Inr (db4, outcome))))"

definition after_gate ::
  "env \<Rightarrow> activation option \<Rightarrow> run_row \<Rightarrow> revision \<Rightarrow> proposal_row \<Rightarrow> step list \<Rightarrow> runtime_db \<Rightarrow> gate \<Rightarrow>
     runtime_error + runtime_db \<times> activation" where
  "after_gate en late x active p steps db g =
     (case g of
        DeniedBy reasons \<Rightarrow> Inr (decide en late db (pr_id p) PRejected (PolicyDenied reasons))
      | Waits \<Rightarrow> Inr (db, (PPending, AwaitingApproval))
      | Allowed \<Rightarrow>
          if pr_source p = ''planner'' \<and> \<not> planner_ids steps \<subseteq> planner_ids (rv_steps active)
          then Inr (decide en late db (pr_id p) PRejected PlannerRecursion)
          else install en late db x active p steps)"

text \<open>The activation after the proposal was read again as pending under the lock of its execution.\<close>

definition activate_locked ::
  "env \<Rightarrow> activation option \<Rightarrow> runtime_db \<Rightarrow> proposal_row \<Rightarrow> runtime_error + runtime_db \<times> activation" where
  "activate_locked en late db p =
     (let reject = (\<lambda>db st reason. Inr (decide en late db (pr_id p) st reason))
      in case lockExecution db (pr_executionId p) of
           None \<Rightarrow> reject db PStale ExecutionGone
         | Some x \<Rightarrow>
             if x_status x \<in> set TERMINAL_EXECUTION_STATUSES then reject db PStale (ExecutionOver (x_status x))
             else (case xr_activeRevision x of
                 None \<Rightarrow> reject db PStale NoActivePlan
               | Some ri \<Rightarrow>
                   (case find_by rv_id ri (d_revisions db) of
                      None \<Rightarrow> reject db PStale (RevisionMissing ri)
                    | Some active \<Rightarrow>
                        if rv_number active \<noteq> pr_base p
                        then reject db PStale (BaseNotActive (pr_base p) (rv_number active))
                        else (case applyPlanPatch (map step_js (rv_steps active))
                                (frozenStepIds db (pr_executionId p)) (pr_patch p) of
                            Inl e \<Rightarrow> reject db PRejected (PatchRejected e)
                          | Inr candidate \<Rightarrow>
                              (case validateSteps (en_coll en) (JArr candidate) of
                                 Inl e \<Rightarrow> reject db PRejected (CandidateInvalid e)
                               | Inr steps \<Rightarrow>
                                   bindE (policy_gate en db p) (\<lambda>(db1, g).
                                     after_gate en late x active p steps db1 g))))))"

text \<open>\<open>seen\<close> is the database at the first read, before the lock of the execution was granted.\<close>

definition activateWithManager ::
  "env \<Rightarrow> activation option \<Rightarrow> runtime_db \<Rightarrow> runtime_db \<Rightarrow> string \<Rightarrow> runtime_error + runtime_db \<times> activation" where
  "activateWithManager en late seen db proposalId =
     (case find_by pr_id proposalId (d_proposals seen) of
        None \<Rightarrow> Inl (RowMissing ''proposal'')
      | Some p0 \<Rightarrow>
          if pr_status p0 \<noteq> PPending then Inr (db, stored_decision seen proposalId)
          else (case find_by pr_id proposalId (d_proposals db) of
              None \<Rightarrow> Inr (db, (PStale, AlreadyDecided))
            | Some p \<Rightarrow>
                if pr_status p \<noteq> PPending then Inr (db, stored_decision db proposalId)
                else activate_locked en late db p))"

end
