(* ===== verification/Plan_RoundTrip.thy ===== *)
theory Plan_RoundTrip
  imports Runtime Conditions_Properties
begin

text \<open>
  A validated step that is stored as JSON and validated again is the same step: what lets the activation of a
  patch validate the whole candidate plan, started steps included, without changing them.
\<close>

subsection \<open>Conditions\<close>

lemma validateOperand_js: "operand_wf x \<Longrightarrow> validateOperand (operand_js x) = Inr x"
  by (cases x) (simp_all add: validateOperand_def validateReference_def)

lemma mapE_operands_js: "list_all operand_wf xs \<Longrightarrow> mapE validateOperand (map operand_js xs) = Inr xs"
  by (induction xs) (simp_all add: validateOperand_js)

lemma find_cmp_str [simp]: "find_cmp (cmp_str c) = Some c"
  by (cases c) (simp_all add: find_cmp_def)

lemma cmp_str_not_keyword:
  "cmp_str c \<noteq> ''and''" "cmp_str c \<noteq> ''or''" "cmp_str c \<noteq> ''not''" "cmp_str c \<noteq> ''exists''" "cmp_str c \<noteq> ''in''"
  by (cases c; simp)+

lemma sequence_map_all: "(\<And>x. x \<in> set xs \<Longrightarrow> f (g x) = Inr x) \<Longrightarrow> sequence (map f (map g xs)) = Inr xs"
  by (induction xs) auto

lemma is_record_condition_js [simp]: "is_record (condition_js c)"
  by (cases c) auto

lemma condition_js_inverse:
  "cond_wf c \<Longrightarrow> cond_depth c + d \<le> Suc MAX_CONDITION_DEPTH \<Longrightarrow> validateExpression (condition_js c) d = Inr c"
proof (induction c arbitrary: d)
  case (And cs)
  have "validateExpression (condition_js x) (d + 1) = Inr x" if "x \<in> set cs" for x
    using And(1) [OF that, of "d + 1"] And(2,3) that
      fold_max_le [of "map cond_depth cs" 0 "MAX_CONDITION_DEPTH - d"]
    by (auto simp: list_all_iff)
  then have "sequence (map (\<lambda>x. validateExpression x (d + 1)) (map condition_js cs)) = Inr cs"
    by (rule sequence_map_all)
  with And(2,3) show ?case
    by (subst validateExpression.simps) (simp add: comp_def)
next
  case (Or cs)
  have "validateExpression (condition_js x) (d + 1) = Inr x" if "x \<in> set cs" for x
    using Or(1) [OF that, of "d + 1"] Or(2,3) that
      fold_max_le [of "map cond_depth cs" 0 "MAX_CONDITION_DEPTH - d"]
    by (auto simp: list_all_iff)
  then have "sequence (map (\<lambda>x. validateExpression x (d + 1)) (map condition_js cs)) = Inr cs"
    by (rule sequence_map_all)
  with Or(2,3) show ?case
    by (subst validateExpression.simps) (simp add: comp_def)
next
  case (Not c)
  from Not.IH [of "d + 1"] Not.prems have "validateExpression (condition_js c) (d + 1) = Inr c" by simp
  with Not.prems show ?case by (subst validateExpression.simps) simp
next
  case (Exists x)
  then show ?case by (subst validateExpression.simps) (simp add: validateOperand_js)
next
  case (InList x xs)
  then show ?case by (subst validateExpression.simps) (simp add: validateOperand_js mapE_operands_js)
next
  case (InRef x r)
  then show ?case by (subst validateExpression.simps) (simp add: validateOperand_js validateReference_def)
next
  case (Cmp c l r)
  then show ?case
    by (subst validateExpression.simps) (simp add: validateOperand_js cmp_str_not_keyword)
qed

lemma compile_condition_js:
  assumes "compile_condition v = Inr c"
  shows "compile_condition (condition_js c) = Inr c"
proof -
  have "condition_ok 1 c"
    using assms validateExpression_Inr compileLegacy_Inr by (auto simp: compile_condition_def split: jsv.splits)
  then have "validateExpression (condition_js c) 1 = Inr c"
    by (intro condition_js_inverse) (simp_all add: condition_ok_def)
  moreover from is_record_condition_js obtain kvs where "condition_js c = JObj kvs"
    by (metis is_record.elims(2))
  ultimately show ?thesis by (simp add: compile_condition_def)
qed

subsection \<open>Projections and state writes\<close>

lemma selector_fields:
  "selector_name v = Inr x \<Longrightarrow> selector_name (case x of None \<Rightarrow> JUndef | Some y \<Rightarrow> JStr y) = Inr x"
  "selector_ordinal v = Inr n \<Longrightarrow> selector_ordinal (case n of None \<Rightarrow> JUndef | Some y \<Rightarrow> jint y) = Inr n"
  "selector_metadata v = Inr b \<Longrightarrow> selector_metadata (case b of None \<Rightarrow> JUndef | Some y \<Rightarrow> JBool y) = Inr b"
  by (simp add: selector_name_def split: option.split,
      auto simp: selector_ordinal_def selector_metadata_def split: if_splits option.splits)

lemma getp_selector_js:
  "getp (selector_js s) ''fromStep'' = JStr (as_fromStep s)"
  "getp (selector_js s) ''name'' = (case as_name s of None \<Rightarrow> JUndef | Some y \<Rightarrow> JStr y)"
  "getp (selector_js s) ''ordinal'' = (case as_ordinal s of None \<Rightarrow> JUndef | Some y \<Rightarrow> jint y)"
  "getp (selector_js s) ''includeMetadata'' =
     (case as_includeMetadata s of None \<Rightarrow> JUndef | Some y \<Rightarrow> JBool y)"
  by (simp_all add: selector_js_def opt_member_def split: option.split)

lemma selector_js_known:
  "is_record (selector_js s)"
  "fst ` set (entries (selector_js s)) \<subseteq> set [''fromStep'', ''name'', ''ordinal'', ''includeMetadata'']"
  by (auto simp: selector_js_def opt_member_def split: option.splits)

lemma parse_selector_Inr:
  assumes "parse_selector v = Inr s"
  shows "trim (as_fromStep s) \<noteq> []" "selector_name (getp v ''name'') = Inr (as_name s)"
    "selector_ordinal (getp v ''ordinal'') = Inr (as_ordinal s)" "as_name s = None \<or> as_ordinal s = None"
    "selector_metadata (getp v ''includeMetadata'') = Inr (as_includeMetadata s)"
  using assms by (auto simp: parse_selector_def bindE_Inr_iff split: if_splits jsv.splits)

lemma parse_selector_js: "parse_selector v = Inr s \<Longrightarrow> parse_selector (selector_js s) = Inr s"
  using parse_selector_Inr [of v s] selector_fields selector_js_known [of s]
  unfolding parse_selector_def [of "selector_js s"] getp_selector_js
  by (cases s) (auto simp: subset_iff)

lemma validateArtifactSelectors_js:
  assumes "validateArtifactSelectors coll v = Inr ss"
  shows "validateArtifactSelectors coll (JArr (map selector_js ss)) = Inr ss"
proof -
  from assms obtain vs where vs: "mapE parse_selector vs = Inr ss" "vs \<noteq> []" "length vs \<le> maxArtifactSelectors"
    "distinct (map (\<lambda>s. canonicalJson coll (selector_js s)) ss)"
    by (auto simp: validateArtifactSelectors_def bindE_Inr_iff split: jsv.splits if_splits)
  have "mapE parse_selector (map selector_js ss) = Inr ss"
    using mapE_Inr_set [OF vs(1)] parse_selector_js
    by (auto simp: mapE_Inr_iff list_all2_map1 intro!: list.rel_refl_strong)
  with vs mapE_Inr_length [OF vs(1)] show ?thesis by (auto simp: validateArtifactSelectors_def)
qed

lemma validateContextProjection_js:
  assumes "validateContextProjection coll v = Inr p"
  shows "validateContextProjection coll (projection_js p) = Inr p"
proof -
  from assms obtain ks where ks: "getp v ''stateKeys'' = JArr ks" "length ks \<le> maxProjectionKeys"
    and f: "foldE add_state_key [] ks = Inr (cp_stateKeys p)"
    and a: "getp v ''artifacts'' = JUndef \<and> cp_artifacts p = None \<or>
      (\<exists>ss. validateArtifactSelectors coll (getp v ''artifacts'') = Inr ss \<and> cp_artifacts p = Some ss)"
    by (auto simp: validateContextProjection_def bindE_Inr_iff split: if_splits jsv.splits)
  have n: "ks \<noteq> []" if "cp_artifacts p = None"
    using assms ks(1) that by (auto simp: validateContextProjection_def bindE_Inr_iff split: if_splits)
  have n': "ss \<noteq> []" if "cp_artifacts p = Some ss" for ss
    using a that by (auto simp: validateArtifactSelectors_def bindE_Inr_iff split: if_splits jsv.splits
      dest: mapE_Inr_length)
  from validateContextProjection_Inr(1) [OF assms] ks(1) have eq: "ks = map JStr (cp_stateKeys p)" by simp
  from a have "(if cp_artifacts p = None then Inr None else
      bindE (validateArtifactSelectors coll (JArr (map selector_js (the (cp_artifacts p))))) (\<lambda>ss. Inr (Some ss))) =
      Inr (cp_artifacts p)"
    by (auto dest: validateArtifactSelectors_js)
  with ks(2) f n n' show ?thesis
    by (cases "cp_artifacts p")
      (auto simp: validateContextProjection_def projection_js_def opt_member_def eq split: if_splits)
qed

lemma is_record_projection_js [simp]: "is_record (projection_js p)"
  by (simp add: projection_js_def)

lemma is_record_defined: "is_record v \<Longrightarrow> v \<noteq> JUndef"
  by auto

lemma parse_mapping_js: "parse_mapping keys v = Inr m \<Longrightarrow> parse_mapping keys (mapping_js m) = Inr m"
  by (cases m)
    (auto simp: parse_mapping_def mapping_js_def bindE_Inr_iff split: if_splits jsv.splits sum.splits)

lemma validateStateWrites_js:
  assumes "validateStateWrites coll v = Inr ms"
  shows "validateStateWrites coll (JArr (map mapping_js ms)) = Inr ms"
proof -
  let ?f = "\<lambda>ms entry. bindE (parse_mapping (map sw_key ms) entry) (\<lambda>m. Inr (ms @ [m]))"
  from assms obtain vs where vs: "foldE ?f [] vs = Inr ms" "vs \<noteq> []" "length vs \<le> maxMappings"
    "distinct (map (\<lambda>m. canonicalJson coll (mapping_js m)) ms)"
    by (auto simp: validateStateWrites_def bindE_Inr_iff split: jsv.splits if_splits)
  have "\<exists>xs. ms = acc @ xs \<and> length xs = length vs \<and> foldE ?f acc (map mapping_js xs) = Inr ms"
    if "foldE ?f acc vs = Inr ms" for acc vs
    using that
  proof (induction vs arbitrary: acc)
    case (Cons v vs)
    then obtain m where m: "parse_mapping (map sw_key acc) v = Inr m" "foldE ?f (acc @ [m]) vs = Inr ms"
      by (auto simp: bindE_Inr_iff)
    from Cons.IH [OF m(2)] obtain xs where "ms = (acc @ [m]) @ xs" "length xs = length vs"
      "foldE ?f (acc @ [m]) (map mapping_js xs) = Inr ms" by blast
    with parse_mapping_js [OF m(1)] show ?case by (intro exI [of _ "m # xs"]) simp
  qed simp
  from this [OF vs(1)] vs show ?thesis by (auto simp: validateStateWrites_def)
qed

subsection \<open>Steps\<close>

lemma optional_field_js:
  assumes "optional_field v f = Inr x" and "\<And>y. f v = Inr y \<Longrightarrow> g y \<noteq> JUndef \<and> f (g y) = Inr y"
  shows "optional_field (case x of None \<Rightarrow> JUndef | Some y \<Rightarrow> g y) f = Inr x"
  using assms by (auto simp: optional_field_def bindE_Inr_iff split: if_splits option.splits)

lemma optional_record_js:
  "optional_field v (record_field e) = Inr x \<Longrightarrow>
     optional_field (case x of None \<Rightarrow> JUndef | Some y \<Rightarrow> y) (record_field e) = Inr x"
  by (rule optional_field_js) (auto simp: record_field_def split: if_splits)

lemma getp_planner [simp]:
  "getp (JObj ((if b then [(k, v)] else []) @ kvs)) k' = (if b \<and> k' = k then v else getp (JObj kvs) k')"
  by simp

lemma getp_step_js:
  "getp (step_js s) ''id'' = JStr (st_id s)"
  "getp (step_js s) ''agent'' = JStr (st_agent s)"
  "getp (step_js s) ''input'' = (case st_input s of None \<Rightarrow> JUndef | Some y \<Rightarrow> y)"
  "getp (step_js s) ''dependsOn'' = (case st_dependsOn s of None \<Rightarrow> JUndef | Some ds \<Rightarrow> JArr (map JStr ds))"
  "getp (step_js s) ''condition'' = (case st_condition s of None \<Rightarrow> JUndef | Some y \<Rightarrow> condition_js y)"
  "getp (step_js s) ''timeout'' = (case st_timeout s of None \<Rightarrow> JUndef | Some y \<Rightarrow> y)"
  "getp (step_js s) ''retries'' = (case st_retries s of None \<Rightarrow> JUndef | Some n \<Rightarrow> jint n)"
  "getp (step_js s) ''onFailure'' = (case st_onFailure s of None \<Rightarrow> JUndef | Some y \<Rightarrow> y)"
  "getp (step_js s) ''metadata'' = (case st_metadata s of None \<Rightarrow> JUndef | Some y \<Rightarrow> y)"
  "getp (step_js s) ''contextProjection'' = (case st_projection s of None \<Rightarrow> JUndef | Some y \<Rightarrow> projection_js y)"
  "getp (step_js s) ''stateWrites'' =
     (case st_stateWrites s of None \<Rightarrow> JUndef | Some ws \<Rightarrow> JArr (map mapping_js ws))"
  "getp (step_js s) ''budget'' = (case st_budget s of None \<Rightarrow> JUndef | Some y \<Rightarrow> amounts_js y)"
  "getp (step_js s) ''planner'' = (if st_planner s then JBool True else JUndef)"
  "getp (step_js s) ''delegation'' = (case st_delegation s of None \<Rightarrow> JUndef | Some y \<Rightarrow> JStr y)"
  by (simp_all add: step_js_def split: option.split)

lemma is_record_step_js [simp]: "is_record (step_js s)"
  by (simp add: step_js_def)

lemma mapL_ok [simp]: "mapL f (Inr x) = Inr x"
  by (simp add: mapL_def)

lemma validateStep_js:
  assumes "validateStep coll v = Inr s"
  shows "validateStep coll (step_js s) = Inr s"
proof -
  from assms obtain planner where
    i: "nonEmptyString (getp v ''id'') 100 False = Inr (st_id s)" "is_identifier (st_id s)"
    and agent: "nonEmptyString (getp v ''agent'') 100 False = Inr (st_agent s)"
    and dependsOn: "optional_field (getp v ''dependsOn'') identifierArray = Inr (st_dependsOn s)"
    and retries: "optional_field (getp v ''retries'') parse_retries = Inr (st_retries s)"
    and onFailure: "optional_field (getp v ''onFailure'') (\<lambda>x.
          if js_String x \<in> {''continue'', ''stop'', ''retry''} then Inr x else Inl OnFailureInvalid) = Inr (st_onFailure s)"
    and timeout: "optional_field (getp v ''timeout'') (\<lambda>x.
          if validDuration x then Inr x else Inl TimeoutInvalid) = Inr (st_timeout s)"
    and inp: "optional_field (getp v ''input'') (record_field InputNotObject) = Inr (st_input s)"
    and metadata: "optional_field (getp v ''metadata'') (record_field MetadataNotObject) = Inr (st_metadata s)"
    and planner: "st_planner s = (planner \<noteq> (None :: unit option))"
    and delegation: "optional_field (getp v ''delegation'') (\<lambda>x.
          if x = JStr ''opaque'' then Inr ''opaque'' else if x = JStr ''observed'' then Inr ''observed''
          else Inl DelegationInvalid) = Inr (st_delegation s)"
    and projection: "optional_field (getp v ''contextProjection'') (\<lambda>x.
          mapL ProjectionInvalid (validateContextProjection coll x)) = Inr (st_projection s)"
    and writes: "optional_field (getp v ''stateWrites'') (\<lambda>x.
          mapL WritesInvalid (validateStateWrites coll x)) = Inr (st_stateWrites s)"
    and budget: "parseStepBudget (getp v ''budget'') = Inr (st_budget s)"
    and cond: "optional_field (getp v ''condition'') (\<lambda>x.
          mapL (\<lambda>_. ConditionInvalid) (compile_condition x)) = Inr (st_condition s)"
    by (auto simp: validateStep_def bindE_Inr_iff split: if_splits)
  have str: "nonEmptyString (JStr t) 100 False = Inr t" if "nonEmptyString w 100 False = Inr t" for w t
    using that by (auto simp: nonEmptyString_def split: jsv.splits if_splits)
  have ids: "identifierArray (JArr (map JStr ds)) = Inr ds" if "identifierArray w = Inr ds" for w ds
  proof -
    have "is_identifier d" if "d \<in> set ds" for d
      using \<open>identifierArray w = Inr ds\<close> that
      by (auto simp: identifierArray_def identifier_of_def split: jsv.splits if_splits elim!: mapE_Inr_set)
    then show ?thesis
      by (auto simp: identifierArray_def identifier_of_def mapE_Inr_iff list_all2_map1 intro!: list.rel_refl_strong)
  qed
  have ret: "parse_retries (jint n) = Inr n" if "parse_retries w = Inr n" for w n
    using that by (auto simp: parse_retries_def js_Number_def split: option.splits if_splits)
  have bud: "parseStepBudget (case st_budget s of None \<Rightarrow> JUndef | Some c \<Rightarrow> amounts_js c) = Inr (st_budget s)"
    using budget validateCeilings_Inr(2) validateCeilings_amounts_js
    by (auto simp: parseStepBudget_def bindE_Inr_iff amounts_js_def split: if_splits option.splits)
  have planner': "optional_field (if st_planner s then JBool True else JUndef)
      (\<lambda>x. if x = JBool True then Inr () else Inl PlannerInvalid) = Inr (if st_planner s then Some () else None)"
    by (simp add: optional_field_def)
  have "optional_field (case st_dependsOn s of None \<Rightarrow> JUndef | Some ds \<Rightarrow> JArr (map JStr ds)) identifierArray =
      Inr (st_dependsOn s)"
    by (rule optional_field_js [OF dependsOn]) (simp add: ids)
  moreover have "optional_field (case st_retries s of None \<Rightarrow> JUndef | Some n \<Rightarrow> jint n) parse_retries =
      Inr (st_retries s)"
    by (rule optional_field_js [OF retries]) (simp add: ret)
  moreover have "optional_field (case st_onFailure s of None \<Rightarrow> JUndef | Some y \<Rightarrow> y) (\<lambda>x.
       if js_String x \<in> {''continue'', ''stop'', ''retry''} then Inr x else Inl OnFailureInvalid) = Inr (st_onFailure s)"
    by (rule optional_field_js [OF onFailure]) (auto split: if_splits)
  moreover have "optional_field (case st_timeout s of None \<Rightarrow> JUndef | Some y \<Rightarrow> y) (\<lambda>x.
       if validDuration x then Inr x else Inl TimeoutInvalid) = Inr (st_timeout s)"
    by (rule optional_field_js [OF timeout]) (auto simp: validDuration_def split: if_splits)
  moreover have "optional_field (case st_delegation s of None \<Rightarrow> JUndef | Some y \<Rightarrow> JStr y) (\<lambda>x.
       if x = JStr ''opaque'' then Inr ''opaque'' else if x = JStr ''observed'' then Inr ''observed''
       else Inl DelegationInvalid) = Inr (st_delegation s)"
    by (rule optional_field_js [OF delegation]) (auto split: if_splits)
  moreover have "optional_field (case st_projection s of None \<Rightarrow> JUndef | Some y \<Rightarrow> projection_js y) (\<lambda>x.
       mapL ProjectionInvalid (validateContextProjection coll x)) = Inr (st_projection s)"
    by (rule optional_field_js [OF projection])
      (simp add: validateContextProjection_js is_record_defined [OF is_record_projection_js])
  moreover have "optional_field (case st_stateWrites s of None \<Rightarrow> JUndef | Some ws \<Rightarrow> JArr (map mapping_js ws)) (\<lambda>x.
       mapL WritesInvalid (validateStateWrites coll x)) = Inr (st_stateWrites s)"
    by (rule optional_field_js [OF writes]) (auto simp: validateStateWrites_js)
  moreover have "optional_field (case st_condition s of None \<Rightarrow> JUndef | Some y \<Rightarrow> condition_js y) (\<lambda>x.
       mapL (\<lambda>_. ConditionInvalid) (compile_condition x)) = Inr (st_condition s)"
    by (rule optional_field_js [OF cond])
      (auto simp: compile_condition_js is_record_defined [OF is_record_condition_js])
  moreover note optional_record_js [OF inp] optional_record_js [OF metadata]
  ultimately show ?thesis
    by (simp add: validateStep_def getp_step_js planner' str [OF i(1)] str [OF agent] i(2) bud)
qed

lemma mapE_validateStep_js:
  assumes "\<And>s. s \<in> set steps \<Longrightarrow> \<exists>v. validateStep coll v = Inr s"
  shows "mapE (validateStep coll) (map step_js steps) = Inr steps"
proof -
  have "validateStep coll (step_js s) = Inr s" if "s \<in> set steps" for s
    using assms [OF that] by (blast intro: validateStep_js)
  then show ?thesis by (auto simp: mapE_Inr_iff list_all2_map1 intro!: list.rel_refl_strong)
qed

text \<open>The steps of a validated plan are accepted again, graph and all.\<close>

lemma validateSteps_js:
  assumes "validateSteps coll v = Inr steps"
  shows "validateSteps coll (JArr (map step_js steps)) = Inr steps"
proof -
  from assms obtain vs where vs: "mapE (validateStep coll) vs = Inr steps" "vs \<noteq> []" "length vs \<le> MAX_STEPS"
    "validateGraph steps = Inr ()"
    by (auto simp: validateSteps_def bindE_Inr_iff split: jsv.splits if_splits)
  have "mapE (validateStep coll) (map step_js steps) = Inr steps"
    using mapE_Inr_set [OF vs(1)] by (intro mapE_validateStep_js) blast
  with vs mapE_Inr_length [OF vs(1)] show ?thesis by (auto simp: validateSteps_def)
qed

end
