(* ===== verification/Runtime_Invariants.thy ===== *)
theory Runtime_Invariants
  imports Runtime Ledger_Properties ExecState_Properties
begin

text \<open>
  What every transaction on the runtime tables is measured against: the unique keys of the rows
  (\<open>keys_ok\<close>), and the facts that no later transaction may rewrite (\<open>facts_kept\<close>): terminal attempts and
  executions, decided proposals and approvals, applied results, and the append-only evidence.
\<close>

named_theorems kept_intros \<open>introduction rules of the facts that are kept\<close>

definition keys_ok :: "runtime_db \<Rightarrow> bool" where
  "keys_ok db \<longleftrightarrow> distinct (map x_id (d_runs db)) \<and> distinct (map at_id (d_attempts db)) \<and>
     distinct (map at_invocationId (d_attempts db)) \<and> distinct (map ls_id (d_steps db)) \<and>
     distinct (map ib_id (d_inbox db)) \<and> distinct (map ib_invocationId (d_inbox db)) \<and>
     distinct (map aq_proposalId (d_approvals db)) \<and> distinct (map ob_id (d_outbox db))"

definition attempt_final :: "attempt \<Rightarrow> bool" where
  "attempt_final a \<longleftrightarrow> at_status a \<in> set TERMINAL_ATTEMPTS"

text \<open>The rows that satisfy \<open>P\<close> are still there, as they were.\<close>

definition keeps :: "('r \<Rightarrow> bool) \<Rightarrow> 'r list \<Rightarrow> 'r list \<Rightarrow> bool" where
  "keeps P rows rows' \<longleftrightarrow> (\<forall>r \<in> set rows. P r \<longrightarrow> r \<in> set rows')"

definition facts_kept :: "runtime_db \<Rightarrow> runtime_db \<Rightarrow> bool" where
  "facts_kept db db' \<longleftrightarrow>
     keeps attempt_final (d_attempts db) (d_attempts db') \<and>
     keeps (\<lambda>x. \<not> is_live x) (d_runs db) (d_runs db') \<and>
     keeps (\<lambda>p. pr_status p \<noteq> PPending) (d_proposals db) (d_proposals db') \<and>
     keeps (\<lambda>q. aq_status q \<noteq> PENDING) (d_approvals db) (d_approvals db') \<and>
     keeps (\<lambda>r. ib_status r = IApplied) (d_inbox db) (d_inbox db') \<and>
     keeps (\<lambda>_. True) (d_revisions db) (d_revisions db') \<and>
     keeps (\<lambda>_. True) (d_conflicts db) (d_conflicts db') \<and>
     keeps (\<lambda>_. True) (d_artifacts db) (d_artifacts db') \<and>
     keeps (\<lambda>_. True) (d_evidence db) (d_evidence db') \<and>
     keeps (\<lambda>_. True) (d_exposures db) (d_exposures db') \<and>
     keeps (\<lambda>_. True) (d_observations db) (d_observations db') \<and>
     keeps (\<lambda>_. True) (d_events db) (d_events db') \<and>
     keeps (\<lambda>_. True) (d_eventConflicts db) (d_eventConflicts db')"

lemma keeps_refl [simp]: "keeps P rows rows"
  by (simp add: keeps_def)

lemma keeps_append [simp]: "keeps P rows (rows @ rs)"
  by (simp add: keeps_def)

lemma keeps_trans: "keeps P a b \<Longrightarrow> keeps P b c \<Longrightarrow> keeps P a c"
  by (simp add: keeps_def)

lemma keeps_update [kept_intros]: "(\<And>r. P r \<Longrightarrow> r \<in> set rows \<Longrightarrow> Q r \<Longrightarrow> f r = r) \<Longrightarrow> keeps Q rows (update_where P f rows)"
  by (force simp: keeps_def set_update_where)

lemma distinct_map_eq: "distinct (map k rows) \<Longrightarrow> r \<in> set rows \<Longrightarrow> r' \<in> set rows \<Longrightarrow> k r = k r' \<Longrightarrow> r = r'"
  by (simp add: distinct_map inj_on_def)

text \<open>A row that is written back over a row that was read by its key.\<close>

lemma keeps_save:
  assumes "distinct (map k rows)" and "y \<in> set rows" and "k x = k y" and "\<not> Q y"
  shows "keeps Q rows (save_by k x rows)"
  unfolding save_by_def using assms by (intro keeps_update) (metis distinct_map_eq)

lemma facts_kept_refl [simp]: "facts_kept db db"
  by (simp add: facts_kept_def)

lemma facts_kept_trans: "facts_kept a b \<Longrightarrow> facts_kept b c \<Longrightarrow> facts_kept a c"
  unfolding facts_kept_def by (blast intro: keeps_trans)

lemma find_by_unique: "distinct (map k rows) \<Longrightarrow> r \<in> set rows \<Longrightarrow> find_by k (k r) rows = Some r"
  by (induction rows) (auto simp: find_by_def)

lemma find_by_save_other:
  assumes "find_by k v rows = Some r" and "k r' = v" and "j r' = j r"
  shows "find_by k v (save_by j r' rows) = Some r'"
  using assms by (induction rows) (auto simp: find_by_def save_by_def update_where_def split: if_splits)

lemma find_by_update:
  assumes "\<And>r. k (f r) = k r"
  shows "find_by k v (update_where P f rows) = map_option (\<lambda>r. if P r then f r else r) (find_by k v rows)"
  by (induction rows) (auto simp: find_by_def update_where_def assms)

lemma map_save_same:
  assumes "distinct (map k rows)" and "y \<in> set rows" and "k x = k y" and "g x = g y"
  shows "map g (save_by k x rows) = map g rows"
proof -
  have "g x = g r" if "r \<in> set rows" "k r = k x" for r
    using distinct_map_eq [OF assms(1,2) that(1)] that(2) assms(3,4) by simp
  then show ?thesis by (simp add: save_by_def update_where_def)
qed

lemma save_by_save: "k x = k y \<Longrightarrow> save_by k x (save_by k y rows) = save_by k x rows"
  by (auto simp: save_by_def update_where_def)

lemma save_by_self: "distinct (map k rows) \<Longrightarrow> x \<in> set rows \<Longrightarrow> save_by k x rows = rows"
  by (auto simp: save_by_def update_where_def distinct_map_eq intro!: map_idI)

end
