(* ===== verification/PlanProposal_Properties.thy ===== *)
theory PlanProposal_Properties
  imports PlanProposal Plan_RoundTrip Runtime_Invariants
begin

text \<open>
  What an activation promises: the plan that it installs is a valid graph that keeps the started steps as they
  were, a decision is made once, and a proposal that was not accepted changes no plan.
\<close>

subsection \<open>The candidate\<close>

definition step_valid :: "(string \<Rightarrow> string \<Rightarrow> bool) \<Rightarrow> step \<Rightarrow> bool" where
  "step_valid coll s \<longleftrightarrow> validateStep coll (step_js s) = Inr s"

definition graph_valid :: "step list \<Rightarrow> bool" where
  "graph_valid steps \<longleftrightarrow> steps \<noteq> [] \<and> length steps \<le> MAX_STEPS \<and> validateGraph steps = Inr ()"

lemma validateStep_getp_id: "validateStep coll v = Inr s \<Longrightarrow> getp v ''id'' = JStr (st_id s)"
  by (auto simp: validateStep_def nonEmptyString_def bindE_Inr_iff split: if_splits jsv.splits)

lemma validateSteps_Inr:
  assumes "validateSteps coll (JArr vs) = Inr steps"
  shows "graph_valid steps" and "list_all2 (\<lambda>v s. validateStep coll v = Inr s) vs steps"
proof -
  from assms have "mapE (validateStep coll) vs = Inr steps" "vs \<noteq> []" "length vs \<le> MAX_STEPS"
    "validateGraph steps = Inr ()"
    by (auto simp: validateSteps_def bindE_Inr_iff split: if_splits)
  with mapE_Inr_length [OF this(1)]
  show "graph_valid steps" and "list_all2 (\<lambda>v s. validateStep coll v = Inr s) vs steps"
    by (auto simp: graph_valid_def mapE_Inr_iff)
qed

lemma validateSteps_valid:
  "validateSteps coll (JArr vs) = Inr steps \<Longrightarrow> s \<in> set steps \<Longrightarrow> step_valid coll s"
  using validateStep_js by (fastforce simp: step_valid_def list_all2_conv_all_nth in_set_conv_nth
      dest: validateSteps_Inr(2))

definition extends_plan :: "string set \<Rightarrow> step list \<Rightarrow> step list \<Rightarrow> bool" where
  "extends_plan frozen base steps \<longleftrightarrow> length base \<le> length steps \<and>
     (\<forall>i < length base. st_id (steps ! i) = st_id (base ! i) \<and>
        (st_id (base ! i) \<in> frozen \<longrightarrow> steps ! i = base ! i))"

lemma candidate_extends:
  assumes ops: "list_all operation_ok (pp_operations p)"
    and cand: "applyPlanPatch (map step_js base) frozen p = Inr cand"
    and steps: "validateSteps coll (JArr cand) = Inr steps"
    and base: "\<And>s. s \<in> set base \<Longrightarrow> step_valid coll s"
  shows "extends_plan frozen base steps"
proof -
  from applyPlanPatch_keeps [OF ops cand] have k: "length base \<le> length cand"
    "\<And>i. i < length base \<Longrightarrow> getp (cand ! i) ''id'' = JStr (st_id (base ! i))"
    "\<And>i. i < length base \<Longrightarrow> st_id (base ! i) \<in> frozen \<Longrightarrow> cand ! i = step_js (base ! i)"
    by (auto simp: keeps_steps_def getp_step_js)
  from validateSteps_Inr(2) [OF steps] have v: "length cand = length steps"
    "\<And>i. i < length cand \<Longrightarrow> validateStep coll (cand ! i) = Inr (steps ! i)"
    by (auto simp: list_all2_conv_all_nth)
  have "st_id (steps ! i) = st_id (base ! i) \<and> (st_id (base ! i) \<in> frozen \<longrightarrow> steps ! i = base ! i)"
    if i: "i < length base" for i
  proof -
    from i k(1) v(2) have "validateStep coll (cand ! i) = Inr (steps ! i)" by simp
    with validateStep_getp_id [OF this] k(2,3) [OF i] base [of "base ! i"] i show ?thesis
      by (auto simp: step_valid_def)
  qed
  with k(1) v(1) show ?thesis by (simp add: extends_plan_def)
qed

subsection \<open>What the parts of an activation leave alone\<close>

definition approvals_grow :: "runtime_db \<Rightarrow> runtime_db \<Rightarrow> bool" where
  "approvals_grow db db' \<longleftrightarrow> set (d_approvals db) \<subseteq> set (d_approvals db') \<and>
     (distinct (map aq_proposalId (d_approvals db)) \<longrightarrow> distinct (map aq_proposalId (d_approvals db')))"

text \<open>Only proposals, policy rows and new approval requests differ.\<close>

definition same_plan :: "runtime_db \<Rightarrow> runtime_db \<Rightarrow> bool" where
  "same_plan db db' \<longleftrightarrow> d_runs db' = d_runs db \<and> d_revisions db' = d_revisions db \<and>
     d_steps db' = d_steps db \<and> d_attempts db' = d_attempts db \<and> d_outbox db' = d_outbox db \<and>
     d_inbox db' = d_inbox db \<and> d_conflicts db' = d_conflicts db \<and> d_artifacts db' = d_artifacts db \<and>
     d_evidence db' = d_evidence db \<and> d_exposures db' = d_exposures db \<and> d_observations db' = d_observations db \<and>
     d_events db' = d_events db \<and> d_eventConflicts db' = d_eventConflicts db \<and> d_ledger db' = d_ledger db \<and>
     approvals_grow db db'"

lemma approvals_grow_same [simp]: "d_approvals db' = d_approvals db \<Longrightarrow> approvals_grow db db'"
  by (simp add: approvals_grow_def)

lemma approvals_grow_trans: "approvals_grow a b \<Longrightarrow> approvals_grow b c \<Longrightarrow> approvals_grow a c"
  by (auto simp: approvals_grow_def)

lemma same_plan_refl [simp]: "same_plan db db"
  by (simp add: same_plan_def)

lemma same_plan_trans: "same_plan a b \<Longrightarrow> same_plan b c \<Longrightarrow> same_plan a c"
  using approvals_grow_trans [of a b c] by (simp add: same_plan_def)

lemma same_plan_set_decision [simp]: "same_plan db (set_decision en i st reason db)"
  by (simp add: set_decision_def same_plan_def)

lemma same_plan_interfere [simp]: "same_plan db (interfere en i late db)"
  by (simp add: interfere_def split: option.split)

lemma decide_same_plan: "decide en late db i st reason = (db', out) \<Longrightarrow> same_plan db db'"
  using same_plan_trans [OF same_plan_interfere same_plan_set_decision]
  by (auto simp: decide_def Let_def split: if_splits)

lemma same_plan_insert_approval: "same_plan db (insert_approval (db\<lparr>d_policy := pol\<rparr>) q)"
  by (auto simp: insert_approval_def same_plan_def approvals_grow_def find_by_None)

lemma d_proposals_insert_approval [simp]: "d_proposals (insert_approval db q) = d_proposals db"
  by (simp add: insert_approval_def)

lemma gate_decision_effect:
  assumes "gate_decision en (db\<lparr>d_policy := pol\<rparr>) p action d = (db', g)"
  shows "same_plan db db'" and "d_proposals db' = d_proposals db"
  using assms same_plan_insert_approval
  by (auto simp: gate_decision_def same_plan_def split: if_splits policy_effect.splits)

lemma policy_gate_effect:
  assumes "policy_gate en db p = Inr (db', g)"
  shows "same_plan db db'" and "d_proposals db' = d_proposals db"
  using assms gate_decision_effect by (auto simp: policy_gate_def bindE_Inr_iff split: if_splits)

subsection \<open>Decisions\<close>

lemma set_decision_other:
  "p \<in> set (d_proposals db) \<Longrightarrow> pr_status p \<noteq> PPending \<Longrightarrow> p \<in> set (d_proposals (set_decision en i st reason db))"
  by (force simp: set_decision_def update_where_def is_pending_def)

lemma interfere_keeps_decided:
  "p \<in> set (d_proposals db) \<Longrightarrow> pr_status p \<noteq> PPending \<Longrightarrow> p \<in> set (d_proposals (interfere en i late db))"
  by (auto simp: interfere_def set_decision_other split: option.split)

lemma decide_keeps_decided:
  assumes "decide en late db i st reason = (db', out)" and "p \<in> set (d_proposals db)" and "pr_status p \<noteq> PPending"
  shows "p \<in> set (d_proposals db')"
  using assms interfere_keeps_decided [OF assms(2,3)]
  by (auto simp: decide_def Let_def set_decision_other split: if_splits)

lemma ids_set_decision [simp]: "map pr_id (d_proposals (set_decision en i st reason db)) = map pr_id (d_proposals db)"
  by (simp add: set_decision_def map_update_where decided_def)

lemma ids_interfere [simp]: "map pr_id (d_proposals (interfere en i late db)) = map pr_id (d_proposals db)"
  by (simp add: interfere_def split: option.split)

lemma decide_ids: "decide en late db i st reason = (db', out) \<Longrightarrow> map pr_id (d_proposals db') = map pr_id (d_proposals db)"
  by (auto simp: decide_def Let_def split: if_splits)

lemma decide_patches:
  assumes "decide en late db i st reason = (db', out)"
  shows "map pr_patch (d_proposals db') = map pr_patch (d_proposals db)"
proof -
  have "map pr_patch (d_proposals (set_decision en i st reason db)) = map pr_patch (d_proposals db)" for st reason db
    by (simp add: set_decision_def map_update_where decided_def)
  then show ?thesis using assms by (auto simp: decide_def interfere_def Let_def split: if_splits option.splits)
qed

subsection \<open>The writes of an accepted activation\<close>

lemma insert_steps_Inr:
  assumes "foldE (insert_step en e) db added = Inr db'"
  shows "db' = db\<lparr>d_steps := d_steps db @ map (new_logical_step en e) added\<rparr>"
  using assms
proof (induction added arbitrary: db)
  case (Cons s added)
  from Cons.prems have "foldE (insert_step en e) (db\<lparr>d_steps := d_steps db @ [new_logical_step en e s]\<rparr>) added = Inr db'"
    by (auto simp: insert_step_def [of en e db s] bindE_Inr_iff split: if_splits)
  from Cons.IH [OF this] show ?case by simp
qed simp

lemma insert_steps_distinct:
  assumes "foldE (insert_step en e) db added = Inr db'" and "distinct (map ls_id (d_steps db))"
  shows "distinct (map ls_id (d_steps db'))"
  using assms
proof (induction added arbitrary: db)
  case (Cons s added)
  from Cons.prems have "foldE (insert_step en e) (db\<lparr>d_steps := d_steps db @ [new_logical_step en e s]\<rparr>) added = Inr db'"
    "ls_id (new_logical_step en e s) \<notin> set (map ls_id (d_steps db))"
    by (auto simp: insert_step_def [of en e db s] find_by_None bindE_Inr_iff split: if_splits)
  from Cons.IH [OF this(1)] this(2) Cons.prems(2) show ?case by simp
qed simp

lemma install_parts:
  assumes "install en late db x active p steps = Inr (db', out)"
  defines "r \<equiv> new_revision en active p steps"
  obtains db3 reason where "decide en late db3 (pr_id p) PAccepted reason = (db', out)" "fst out = PAccepted"
    "db3 = db\<lparr>d_revisions := d_revisions db @ [r],
      d_steps := d_steps db @ map (new_logical_step en (pr_executionId p)) (addedSteps (rv_steps active) steps),
      d_runs := save_by x_id (x\<lparr>xr_activeRevision := Some (rv_id r)\<rparr>) (d_runs db)\<rparr>"
    "find_by rv_id (rv_id r) (d_revisions db) = None"
    "distinct (map ls_id (d_steps db)) \<longrightarrow> distinct (map ls_id (d_steps db3))"
proof -
  let ?saved = "\<lambda>db2. db2\<lparr>d_runs := save_by x_id (x\<lparr>xr_activeRevision := Some (rv_id r)\<rparr>) (d_runs db2)\<rparr>"
  let ?added = "addedSteps (rv_steps active) steps"
  let ?reason = "Activated (rv_number r) (length ?added) (length (replacedSteps en (rv_steps active) steps))"
  from assms(1) obtain db1 db2 where db1: "insert_revision db r = Inr db1"
    and db2: "foldE (insert_step en (pr_executionId p)) db1 ?added = Inr db2"
    and last: "(case decide en late (?saved db2) (pr_id p) PAccepted ?reason of (db4, outcome) \<Rightarrow>
      if fst outcome \<noteq> PAccepted then Inl (GuardLost ''proposal'') else Inr (db4, outcome)) = Inr (db', out)"
    unfolding install_def Let_def bindE_Inr_iff r_def [symmetric] by (elim exE conjE) (rule that)
  have dec: "decide en late (?saved db2) (pr_id p) PAccepted ?reason = (db', out)" and out: "fst out = PAccepted"
    using last by (cases "decide en late (?saved db2) (pr_id p) PAccepted ?reason"; simp split: if_splits)+
  from db1 have r: "db1 = db\<lparr>d_revisions := d_revisions db @ [r]\<rparr>" "find_by rv_id (rv_id r) (d_revisions db) = None"
    by (auto simp: insert_revision_def split: if_splits)
  show ?thesis
    by (rule that [OF dec out _ r(2)]) (use insert_steps_distinct [OF db2] in \<open>simp_all add: insert_steps_Inr [OF db2] r(1)\<close>)
qed

lemma install_Inr:
  assumes "install en late db x active p steps = Inr (db', out)"
  defines "r \<equiv> new_revision en active p steps"
  shows "fst out = PAccepted" "d_revisions db' = d_revisions db @ [r]" "find_by rv_id (rv_id r) (d_revisions db) = None"
    "d_runs db' = save_by x_id (x\<lparr>xr_activeRevision := Some (rv_id r)\<rparr>) (d_runs db)"
    "d_steps db' = d_steps db @ map (new_logical_step en (pr_executionId p)) (addedSteps (rv_steps active) steps)"
    "d_attempts db' = d_attempts db" "map pr_id (d_proposals db') = map pr_id (d_proposals db)"
    "map pr_patch (d_proposals db') = map pr_patch (d_proposals db)"
    "\<And>q. q \<in> set (d_proposals db) \<Longrightarrow> pr_status q \<noteq> PPending \<Longrightarrow> q \<in> set (d_proposals db')"
    "same_plan (db\<lparr>d_revisions := d_revisions db', d_runs := d_runs db', d_steps := d_steps db'\<rparr>) db'"
    "distinct (map ls_id (d_steps db)) \<Longrightarrow> distinct (map ls_id (d_steps db'))"
proof -
  from assms(1) obtain db3 reason where p: "decide en late db3 (pr_id p) PAccepted reason = (db', out)"
    "fst out = PAccepted"
    "db3 = db\<lparr>d_revisions := d_revisions db @ [r],
      d_steps := d_steps db @ map (new_logical_step en (pr_executionId p)) (addedSteps (rv_steps active) steps),
      d_runs := save_by x_id (x\<lparr>xr_activeRevision := Some (rv_id r)\<rparr>) (d_runs db)\<rparr>"
    "find_by rv_id (rv_id r) (d_revisions db) = None"
    "distinct (map ls_id (d_steps db)) \<longrightarrow> distinct (map ls_id (d_steps db3))"
    unfolding r_def by (rule install_parts)
  show "fst out = PAccepted" "find_by rv_id (rv_id r) (d_revisions db) = None" by (fact p)+
  show "d_revisions db' = d_revisions db @ [r]" "d_attempts db' = d_attempts db"
    "d_runs db' = save_by x_id (x\<lparr>xr_activeRevision := Some (rv_id r)\<rparr>) (d_runs db)"
    "d_steps db' = d_steps db @ map (new_logical_step en (pr_executionId p)) (addedSteps (rv_steps active) steps)"
    using decide_same_plan [OF p(1)] by (simp_all add: same_plan_def p(3))
  show "map pr_id (d_proposals db') = map pr_id (d_proposals db)"
    "map pr_patch (d_proposals db') = map pr_patch (d_proposals db)"
    using decide_ids [OF p(1)] decide_patches [OF p(1)] by (simp_all add: p(3))
  show "q \<in> set (d_proposals db')" if "q \<in> set (d_proposals db)" "pr_status q \<noteq> PPending" for q
    using decide_keeps_decided [OF p(1)] that by (simp add: p(3))
  show "same_plan (db\<lparr>d_revisions := d_revisions db', d_runs := d_runs db', d_steps := d_steps db'\<rparr>) db'"
    using decide_same_plan [OF p(1)] by (simp add: same_plan_def p(3) approvals_grow_def)
  show "distinct (map ls_id (d_steps db'))" if "distinct (map ls_id (d_steps db))"
    using p(5) that decide_same_plan [OF p(1)] by (simp add: same_plan_def)
qed

lemma activate_locked_cases:
  assumes "activate_locked en late db p = Inr (db', out)"
  obtains (reject) st reason db1 where "same_plan db db1" "d_proposals db1 = d_proposals db" "st \<noteq> PAccepted"
      "decide en late db1 (pr_id p) st reason = (db', out)"
    | (waits) "same_plan db db'" "d_proposals db' = d_proposals db" "out = (PPending, AwaitingApproval)"
    | (installs) x active cand steps db1 where "lockExecution db (pr_executionId p) = Some x"
      "is_live x" "active_revision db x = Some active" "rv_number active = pr_base p"
      "applyPlanPatch (map step_js (rv_steps active)) (frozenStepIds db (pr_executionId p)) (pr_patch p) = Inr cand"
      "validateSteps (en_coll en) (JArr cand) = Inr steps" "policy_gate en db p = Inr (db1, Allowed)"
      "pr_source p = ''planner'' \<Longrightarrow> planner_ids steps \<subseteq> planner_ids (rv_steps active)"
      "install en late db1 x active p steps = Inr (db', out)"
proof -
  note refl = same_plan_refl [of db]
  show ?thesis
  proof (cases "\<exists>st reason. st \<noteq> PAccepted \<and> decide en late db (pr_id p) st reason = (db', out)")
    case True
    then show ?thesis using reject [OF refl] by blast
  next
    case False
    with assms obtain x ri active cand steps db1 g where
      x: "lockExecution db (pr_executionId p) = Some x" "is_live x" "xr_activeRevision x = Some ri"
      and active: "find_by rv_id ri (d_revisions db) = Some active" "rv_number active = pr_base p"
      and cand: "applyPlanPatch (map step_js (rv_steps active)) (frozenStepIds db (pr_executionId p)) (pr_patch p) = Inr cand"
        "validateSteps (en_coll en) (JArr cand) = Inr steps"
      and gate: "policy_gate en db p = Inr (db1, g)"
      and rest: "after_gate en late x active p steps db1 g = Inr (db', out)"
      by (auto simp: activate_locked_def Let_def is_live_def bindE_Inr_iff split: option.splits if_splits sum.splits)
    from x(3) active(1) have act: "active_revision db x = Some active" by (simp add: active_revision_def)
    note pg = policy_gate_effect [OF gate]
    show ?thesis
    proof (cases g)
      case (DeniedBy reasons)
      with rest show ?thesis by (intro reject [OF pg]) (auto simp: after_gate_def)
    next
      case Waits
      with rest pg show ?thesis by (intro waits) (auto simp: after_gate_def)
    next
      case Allowed
      show ?thesis
      proof (cases "pr_source p = ''planner'' \<and> \<not> planner_ids steps \<subseteq> planner_ids (rv_steps active)")
        case True
        with rest Allowed show ?thesis by (intro reject [OF pg]) (auto simp: after_gate_def)
      next
        case False
        with rest Allowed have "install en late db1 x active p steps = Inr (db', out)" by (auto simp: after_gate_def)
        with False gate Allowed show ?thesis by (intro installs [OF x(1,2) act active(2) cand]) auto
      qed
    qed
  qed
qed

subsection \<open>The invariant of the stored plans\<close>

definition materialized :: "runtime_db \<Rightarrow> string \<Rightarrow> step list \<Rightarrow> bool" where
  "materialized db executionId steps \<longleftrightarrow>
     (\<forall>s \<in> set steps. \<exists>l \<in> set (d_steps db). ls_executionId l = executionId \<and> ls_stepId l = st_id s)"

definition plan_ok :: "(string \<Rightarrow> string \<Rightarrow> bool) \<Rightarrow> revision \<Rightarrow> bool" where
  "plan_ok coll r \<longleftrightarrow> graph_valid (rv_steps r) \<and> (\<forall>s \<in> set (rv_steps r). step_valid coll s)"

definition run_ok :: "runtime_db \<Rightarrow> run_row \<Rightarrow> bool" where
  "run_ok db x = (case xr_activeRevision x of None \<Rightarrow> True
     | Some ri \<Rightarrow> (case find_by rv_id ri (d_revisions db) of None \<Rightarrow> False
         | Some r \<Rightarrow> materialized db (x_id x) (rv_steps r)))"

definition plans_ok :: "(string \<Rightarrow> string \<Rightarrow> bool) \<Rightarrow> runtime_db \<Rightarrow> bool" where
  "plans_ok coll db \<longleftrightarrow> (\<forall>r \<in> set (d_revisions db). plan_ok coll r) \<and> (\<forall>x \<in> set (d_runs db). run_ok db x) \<and>
     (\<forall>p \<in> set (d_proposals db). list_all operation_ok (pp_operations (pr_patch p))) \<and>
     distinct (map pr_id (d_proposals db))"

lemma materialized_mono: "materialized db e steps \<Longrightarrow> set (d_steps db) \<subseteq> set (d_steps db') \<Longrightarrow> materialized db' e steps"
  by (force simp: materialized_def)

lemma run_ok_mono:
  assumes "run_ok db x" and "d_revisions db' = d_revisions db @ rs" and "set (d_steps db) \<subseteq> set (d_steps db')"
  shows "run_ok db' x"
  using assms(1) materialized_mono [OF _ assms(3)] by (auto simp: run_ok_def assms(2) find_by_append split: option.splits)

lemma run_ok_same: "same_plan db db' \<Longrightarrow> run_ok db' x = run_ok db x"
  by (auto simp: run_ok_def materialized_def same_plan_def split: option.splits)

definition patches_ok :: "proposal_row list \<Rightarrow> bool" where
  "patches_ok ps \<longleftrightarrow> list_all (list_all operation_ok \<circ> pp_operations) (map pr_patch ps)"

lemma plans_ok_iff: "plans_ok coll db \<longleftrightarrow> (\<forall>r \<in> set (d_revisions db). plan_ok coll r) \<and>
    (\<forall>x \<in> set (d_runs db). run_ok db x) \<and> patches_ok (d_proposals db) \<and> distinct (map pr_id (d_proposals db))"
  by (auto simp: plans_ok_def patches_ok_def list_all_iff)

lemma plans_ok_same:
  assumes "plans_ok coll db" and "same_plan db db'" and "map pr_id (d_proposals db') = map pr_id (d_proposals db)"
    and "map pr_patch (d_proposals db') = map pr_patch (d_proposals db)"
  shows "plans_ok coll db'"
  using assms run_ok_same [OF assms(2)] unfolding plans_ok_iff patches_ok_def
  by (auto simp: same_plan_def)

lemma materialized_install:
  assumes "materialized db e (rv_steps active)"
    and "d_steps db' = d_steps db @ map (new_logical_step en e) (addedSteps (rv_steps active) steps)"
  shows "materialized db' e steps"
  unfolding materialized_def
proof
  fix s
  assume s: "s \<in> set steps"
  show "\<exists>l \<in> set (d_steps db'). ls_executionId l = e \<and> ls_stepId l = st_id s"
  proof (cases "st_id s \<in> st_id ` set (rv_steps active)")
    case True
    with assms show ?thesis by (force simp: materialized_def)
  next
    case False
    with s have "new_logical_step en e s \<in> set (d_steps db')" by (simp add: assms(2) addedSteps_def)
    then show ?thesis by (rule rev_bexI) (simp add: new_logical_step_def)
  qed
qed

lemma find_run: "lockExecution db i = Some x \<Longrightarrow> x \<in> set (d_runs db) \<and> x_id x = i"
  unfolding lockExecution_def by (rule find_by_Some)

lemma active_in: "active_revision db x = Some r \<Longrightarrow> r \<in> set (d_revisions db)"
  by (auto simp: active_revision_def dest: find_by_Some split: option.splits)

lemma plans_ok_install:
  assumes ok: "plans_ok coll db" and x: "lockExecution db (pr_executionId p) = Some x"
    and active: "active_revision db x = Some active"
    and steps: "validateSteps coll (JArr cand) = Inr steps" and inst: "install en late db x active p steps = Inr (db', out)"
  shows "plans_ok coll db'"
proof -
  note i = install_Inr [OF inst]
  let ?r = "new_revision en active p steps"
  note x' = find_run [OF x]
  have mat: "materialized db' (pr_executionId p) steps"
  proof (rule materialized_install [OF _ i(5)])
    from ok x' have "run_ok db x" by (simp add: plans_ok_iff)
    with active x' show "materialized db (pr_executionId p) (rv_steps active)"
      by (auto simp: run_ok_def active_revision_def split: option.splits)
  qed
  have r: "plan_ok coll ?r"
    using validateSteps_Inr(1) [OF steps] validateSteps_valid [OF steps] by (simp add: plan_ok_def new_revision_def)
  have "run_ok db' y" if "y \<in> set (d_runs db')" for y
  proof (cases "y = x\<lparr>xr_activeRevision := Some (rv_id ?r)\<rparr>")
    case True
    with i(2,3) mat x' show ?thesis by (simp add: run_ok_def find_by_append) (simp add: find_by_def new_revision_def)
  next
    case False
    with that i(4) have "y \<in> set (d_runs db)" by (auto dest: in_save_by)
    with ok have "run_ok db y" by (simp add: plans_ok_iff)
    then show ?thesis by (rule run_ok_mono [OF _ i(2)]) (simp add: i(5))
  qed
  with ok r show ?thesis
    unfolding plans_ok_iff patches_ok_def i(2,7,8) by auto
qed

lemma plans_ok_activate:
  assumes ok: "plans_ok (en_coll en) db" and act: "activate_locked en late db p = Inr (db', out)"
  shows "plans_ok (en_coll en) db'"
  using act
proof (cases rule: activate_locked_cases)
  case (reject st reason db1)
  have "same_plan db db'" using same_plan_trans [OF reject(1) decide_same_plan [OF reject(4)]] .
  with ok show ?thesis
    using decide_ids [OF reject(4)] decide_patches [OF reject(4)] reject(2) by (intro plans_ok_same [OF ok]) auto
next
  case waits
  with ok show ?thesis by (intro plans_ok_same [OF ok]) auto
next
  case (installs x active cand steps db1)
  note g = policy_gate_effect [OF installs(7)]
  from g have ok1: "plans_ok (en_coll en) db1" by (intro plans_ok_same [OF ok]) auto
  from g(1) installs(1,3) have "lockExecution db1 (pr_executionId p) = Some x" "active_revision db1 x = Some active"
    by (simp_all add: same_plan_def lockExecution_def active_revision_def cong: option.case_cong)
  from plans_ok_install [OF ok1 this installs(6,9)] show ?thesis .
qed

lemma insertProposal_Inr:
  "insertProposal en db e patch source = Inr (db', q) \<Longrightarrow> q = new_proposal en db e patch source \<and>
     db' = db\<lparr>d_proposals := d_proposals db @ [q]\<rparr> \<and> pr_id q \<notin> set (map pr_id (d_proposals db))"
  by (auto simp: insertProposal_def Let_def find_by_None split: if_splits)

lemma proposeWithManager_Inr:
  assumes "proposeWithManager en db e patch source = Inr (db', q)"
  obtains p n where "parsePlanPatch patch = Inr p"
    "insertProposal en db e (p\<lparr>pp_baseRevision := n\<rparr>) source = Inr (db', q)"
proof -
  from assms obtain p where "parsePlanPatch patch = Inr p" "(case lockExecution db e of None \<Rightarrow> Inl (RowMissing ''execution'')
      | Some x \<Rightarrow> (case active_revision db x of None \<Rightarrow> Inl NoActiveRevision
        | Some active \<Rightarrow> insertProposal en db e (p\<lparr>pp_baseRevision := rv_number active\<rparr>) source)) = Inr (db', q)"
    by (auto simp: proposeWithManager_def bindE_Inr_iff)
  then show ?thesis by (auto intro: that split: option.splits)
qed

lemma plans_ok_insertProposal:
  assumes ok: "plans_ok coll db" and ins: "insertProposal en db e patch source = Inr (db', q)"
    and patch: "list_all operation_ok (pp_operations patch)"
  shows "plans_ok coll db'"
proof -
  let ?p = "new_proposal en db e patch source"
  from insertProposal_Inr [OF ins] have db': "db' = db\<lparr>d_proposals := d_proposals db @ [?p]\<rparr>"
    "pr_id ?p \<notin> set (map pr_id (d_proposals db))" by auto
  have "run_ok db' y = run_ok db y" for y by (rule run_ok_same) (simp add: db'(1) same_plan_def)
  with ok patch db'(2) show ?thesis
    unfolding plans_ok_iff patches_ok_def by (auto simp: db'(1) new_proposal_def)
qed

lemma activateWithManager_cases:
  assumes "activateWithManager en late seen db i = Inr (db', out)"
  obtains (already) "db' = db"
    | (pending) p where "find_by pr_id i (d_proposals db) = Some p" "pr_status p = PPending" "pr_id p = i"
        "activate_locked en late db p = Inr (db', out)"
  using assms by (auto simp: activateWithManager_def dest: find_by_Some split: option.splits if_splits)

lemma plans_ok_propose:
  assumes "plans_ok coll db" and "propose en db e patch source = Inr (db', q)"
  shows "plans_ok coll db'"
proof -
  from assms(2) obtain p where "parsePlanPatch patch = Inr p" "insertProposal en db e p source = Inr (db', q)"
    by (auto simp: propose_def bindE_Inr_iff split: option.splits)
  with assms(1) show ?thesis using plans_ok_insertProposal parsePlanPatch_ok(1) by blast
qed

lemma plans_ok_proposeWithManager:
  assumes "plans_ok coll db" and "proposeWithManager en db e patch source = Inr (db', q)"
  shows "plans_ok coll db'"
proof -
  from assms(2) obtain p n where "parsePlanPatch patch = Inr p"
    "insertProposal en db e (p\<lparr>pp_baseRevision := n\<rparr>) source = Inr (db', q)"
    by (rule proposeWithManager_Inr)
  with assms(1) show ?thesis using plans_ok_insertProposal [of _ _ _ _ "p\<lparr>pp_baseRevision := n\<rparr>"] parsePlanPatch_ok(1)
    by fastforce
qed

lemma plans_ok_activateWithManager:
  assumes "plans_ok (en_coll en) db" and "activateWithManager en late seen db i = Inr (db', out)"
  shows "plans_ok (en_coll en) db'"
  using assms(2)
  by (cases rule: activateWithManager_cases) (use assms(1) plans_ok_activate in blast)+

text \<open>The stored plans stay sound: whatever proposals are recorded and activated, every plan revision is a
  valid graph of steps that would be accepted again as they are stored, the active revision of every execution
  exists and each of its steps has its row, and the proposals have ids of their own and patches whose
  replacements keep the id of their target.\<close>

theorem plans_ok_preserved:
  assumes "plans_ok (en_coll en) db"
    and "propose en db e patch source = Inr (db', q) \<or> proposeWithManager en db e patch source = Inr (db', q) \<or>
      activateWithManager en late seen db i = Inr (db', out)"
  shows "plans_ok (en_coll en) db'"
  using assms(2) plans_ok_propose [OF assms(1)] plans_ok_proposeWithManager [OF assms(1)]
    plans_ok_activateWithManager [OF assms(1)] by blast

text \<open>C15: an activation that installs a revision starts from the active revision that the proposal names, of an
  execution that is not over, and makes its successor the active one: a valid graph, in which every step of the
  base plan keeps its place and its id and every started step is unchanged, and to which a planner's proposal
  has added no planner.\<close>

theorem activation_installs_valid_plan:
  assumes "plans_ok (en_coll en) db" and "activateWithManager en late seen db i = Inr (db', out)"
    and "d_revisions db' \<noteq> d_revisions db"
  shows "\<exists>p x active x' r. find_by pr_id i (d_proposals db) = Some p \<and> pr_status p = PPending \<and> fst out = PAccepted \<and>
    lockExecution db (pr_executionId p) = Some x \<and> is_live x \<and> active_revision db x = Some active \<and>
    rv_number active = pr_base p \<and> lockExecution db' (pr_executionId p) = Some x' \<and>
    active_revision db' x' = Some r \<and> rv_number r = pr_base p + 1 \<and> rv_parent r = Some (rv_id active) \<and>
    graph_valid (rv_steps r) \<and> extends_plan (frozenStepIds db (pr_executionId p)) (rv_steps active) (rv_steps r) \<and>
    (pr_source p = ''planner'' \<longrightarrow> planner_ids (rv_steps r) \<subseteq> planner_ids (rv_steps active))"
  using assms(2)
proof (cases rule: activateWithManager_cases)
  case already
  with assms(3) show ?thesis by simp
next
  case (pending p)
  from pending(4) show ?thesis
  proof (cases rule: activate_locked_cases)
    case (reject st reason db1)
    from same_plan_trans [OF reject(1) decide_same_plan [OF reject(4)]] assms(3) show ?thesis
      by (simp add: same_plan_def)
  next
    case waits
    with assms(3) show ?thesis by (simp add: same_plan_def)
  next
    case (installs x active cand steps db1)
    note g = policy_gate_effect(1) [OF installs(7)]
    note i = install_Inr [OF installs(9)]
    let ?r = "new_revision en active p steps"
    let ?x = "x\<lparr>xr_activeRevision := Some (rv_id ?r)\<rparr>"
    from installs(1) i(4) g have x': "lockExecution db' (pr_executionId p) = Some ?x"
      by (auto simp: lockExecution_def same_plan_def find_by_save dest: find_by_Some)
    from i(2,3) have r: "active_revision db' ?x = Some ?r" by (simp add: active_revision_def find_by_append)
        (simp add: find_by_def)
    from pending(1) assms(1) have "list_all operation_ok (pp_operations (pr_patch p))"
      by (auto simp: plans_ok_def dest: find_by_Some)
    moreover from active_in [OF installs(3)] assms(1) have "s \<in> set (rv_steps active) \<Longrightarrow> step_valid (en_coll en) s" for s
      by (auto simp: plans_ok_def plan_ok_def)
    ultimately have "extends_plan (frozenStepIds db (pr_executionId p)) (rv_steps active) steps"
      by (intro candidate_extends [OF _ installs(5,6)])
    with validateSteps_Inr(1) [OF installs(6)] installs(4,8) have
      "rv_number ?r = pr_base p + 1" "rv_parent ?r = Some (rv_id active)" "graph_valid (rv_steps ?r)"
      "extends_plan (frozenStepIds db (pr_executionId p)) (rv_steps active) (rv_steps ?r)"
      "pr_source p = ''planner'' \<longrightarrow> planner_ids (rv_steps ?r) \<subseteq> planner_ids (rv_steps active)"
      by (auto simp: new_revision_def)
    with pending(1,2) i(1) installs(1-4) x' r show ?thesis by blast
  qed
qed

lemma find_set_decision:
  "find_by pr_id i (d_proposals (set_decision en i' st reason db)) =
     map_option (\<lambda>p. if is_pending i' p then decided en st reason p else p) (find_by pr_id i (d_proposals db))"
proof -
  have "find_by pr_id i (update_where (is_pending i') (decided en st reason) ps) =
      map_option (\<lambda>p. if is_pending i' p then decided en st reason p else p) (find_by pr_id i ps)" for ps
    by (induction ps) (auto simp: find_by_def update_where_def decided_def)
  then show ?thesis by (simp add: set_decision_def)
qed

lemma decide_accepted:
  assumes dec: "decide en late db i PAccepted reason = (db', out)" and acc: "fst out = PAccepted"
    and ids: "distinct (map pr_id (d_proposals db))"
  shows "\<exists>p. find_by pr_id i (d_proposals db') = Some p \<and> pr_status p = PAccepted"
proof (cases "affected (is_pending i) (d_proposals (interfere en i late db)) = 1")
  case True
  let ?db = "interfere en i late db"
  from True have "filter (is_pending i) (d_proposals ?db) \<noteq> []" by (auto simp: affected_def)
  then obtain p where p: "p \<in> set (d_proposals ?db)" "is_pending i p" by (auto simp: filter_empty_conv)
  from ids have "distinct (map pr_id (d_proposals ?db))" by simp
  from find_by_unique [OF this p(1)] p(2) have "find_by pr_id i (d_proposals ?db) = Some p"
    by (simp add: is_pending_def)
  moreover from dec True have "db' = set_decision en i PAccepted reason ?db" by (simp add: decide_def)
  ultimately show ?thesis using p(2) by (simp add: find_set_decision decided_def)
next
  case False
  with dec acc show ?thesis by (auto simp: decide_def stored_decision_def Let_def split: option.splits)
qed

lemma install_accepted:
  assumes inst: "install en late db x active p steps = Inr (db', out)" and ids: "distinct (map pr_id (d_proposals db))"
  shows "\<exists>q. find_by pr_id (pr_id p) (d_proposals db') = Some q \<and> pr_status q = PAccepted"
  using inst by (rule install_parts) (use ids in \<open>auto dest!: decide_accepted\<close>)

text \<open>C16: a decision is final and an activation is one with it: a decided proposal keeps its row, and a plan
  changes only in a transaction that ends with the proposal accepted; a decision that comes in between from
  elsewhere rolls the revision back.\<close>

theorem decision_final:
  assumes "plans_ok coll db" and "activateWithManager en late seen db i = Inr (db', out)"
  shows "(same_plan db db' \<or> (\<exists>p. find_by pr_id i (d_proposals db') = Some p \<and> pr_status p = PAccepted)) \<and>
    (\<forall>q \<in> set (d_proposals db). pr_status q \<noteq> PPending \<longrightarrow> q \<in> set (d_proposals db'))"
  using assms(2)
proof (cases rule: activateWithManager_cases)
  case (pending p)
  from pending(4) show ?thesis
  proof (cases rule: activate_locked_cases)
    case (reject st reason db1)
    from same_plan_trans [OF reject(1) decide_same_plan [OF reject(4)]] decide_keeps_decided [OF reject(4)] reject(2)
    show ?thesis by auto
  next
    case waits
    then show ?thesis by auto
  next
    case (installs x active cand steps db1)
    note g = policy_gate_effect [OF installs(7)]
    from assms(1) g(2) have "distinct (map pr_id (d_proposals db1))" by (simp add: plans_ok_def)
    from install_accepted [OF installs(9) this] install_Inr(9) [OF installs(9)] g(2) pending(3) show ?thesis by auto
  qed
qed simp

subsection \<open>A concrete activation\<close>

definition ex_env :: env where
  "ex_env = \<lparr>en_sha = (\<lambda>s. s), en_coll = ex_coll, en_now = 5, en_policy = EnvUnset, en_race = None, en_newId = (\<lambda>k. k),
     en_modes = (\<lambda>_. None), en_kind = (\<lambda>_. ''http''), en_snapshot = (\<lambda>_ _ _. Inr JNull), en_workspace = (\<lambda>_. None),
     en_executionWorkspace = (\<lambda>_. None), en_connected = (\<lambda>_. True), en_fits = (\<lambda>_. True), en_text = (\<lambda>f. case f of Message s \<Rightarrow> s | _ \<Rightarrow> [])\<rparr>"

definition ex_plan_step :: "string \<Rightarrow> string list option \<Rightarrow> bool \<Rightarrow> step" where
  "ex_plan_step i ds planner = \<lparr>st_id = i, st_agent = ''x'', st_input = None, st_dependsOn = ds, st_condition = None,
     st_timeout = None, st_retries = None, st_onFailure = None, st_metadata = None, st_projection = None,
     st_stateWrites = None, st_budget = None, st_planner = planner, st_delegation = None\<rparr>"

definition ex_base :: "step list" where
  "ex_base = [ex_plan_step ''a'' None True, ex_plan_step ''b'' (Some [''a'']) False]"

definition ex_run :: run_row where
  "ex_run = \<lparr>x_id = ''e'', x_status = Running, x_state = None, x_version = 0, x_updatedAt = None, xr_pipeline = JNull, xr_input = JNull,
     xr_output = JNull, xr_activeRevision = Some ''r1'', xr_terminationReason = None, xr_startTime = None, xr_endTime = None,
     xr_authorityDeadlineAt = None\<rparr>"

definition ex_revision :: revision where
  "ex_revision = \<lparr>rv_id = ''r1'', rv_executionId = ''e'', rv_number = 1, rv_parent = None, rv_base = None,
     rv_budget = JUndef, rv_steps = ex_base, rv_planHash = [], rv_source = ''user'', rv_reason = [], rv_validation = JNull\<rparr>"

definition ex_attempt :: attempt where
  "ex_attempt = \<lparr>at_id = ''t1'', at_executionId = ''e'', at_logicalStepId = ''step:a'', at_planRevisionId = ''r1'',
     at_attemptNumber = 1, at_invocationId = ''i1'', at_frozenSpecHash = None, at_inputSnapshot = JNull,
     at_contextSnapshot = JNull, at_efficiency = JNull, at_executorSnapshot = JNull,
     at_status = ASuccess, at_createdAt = 0, at_startTime = None, at_deadlineAt = None, at_dispatchedAt = None, at_terminalAt = None,
     at_acceptedAt = None, at_lastEventAt = None, at_lastHeartbeatAt = None, at_lastProgressAt = None, at_result = JNull,
     at_error = None, at_terminationReason = None\<rparr>"

definition ex_proposal :: proposal_row where
  "ex_proposal = \<lparr>pr_id = ''p1'', pr_executionId = ''e'', pr_number = 1, pr_base = 1, pr_patch =
     \<lparr>pp_baseRevision = 1, pp_operations = [AddStep (JObj [(''id'', JStr ''c''), (''agent'', JStr ''y''),
       (''dependsOn'', JArr [JStr ''b''])])]\<rparr>, pr_hash = [], pr_status = PPending, pr_reason = None,
     pr_source = ''planner'', pr_decidedAt = None\<rparr>"

definition ex_plan_db :: runtime_db where
  "ex_plan_db = \<lparr>d_runs = [ex_run], d_revisions = [ex_revision],
     d_steps = [new_logical_step ex_env ''e'' (ex_plan_step ''a'' None True),
       new_logical_step ex_env ''e'' (ex_plan_step ''b'' None False)], d_attempts = [ex_attempt], d_outbox = [],
     d_inbox = [], d_conflicts = [], d_artifacts = [], d_evidence = [], d_exposures = [], d_observations = [],
     d_observationConflicts = [], d_events = [], d_eventConflicts = [], d_proposals = [ex_proposal], d_approvals = [],
     d_ledger = \<lparr>accounts = [], reservations = [], ledger = []\<rparr>, d_policy = \<lparr>snapshots = [], decisions = []\<rparr>\<rparr>"

lemma ex_activation:
  "(case activateWithManager ex_env None ex_plan_db ex_plan_db ''p1'' of
      Inl _ \<Rightarrow> False | Inr (db', out) \<Rightarrow> length (d_revisions db') = 2)"
  by code_simp

lemma ex_plan_ok: "plans_ok ex_coll ex_plan_db"
  by code_simp

lemma ex_activation_run:
  obtains db' out where "activateWithManager ex_env None ex_plan_db ex_plan_db ''p1'' = Inr (db', out)"
    "length (d_revisions db') = 2"
  using ex_activation by (auto split: sum.splits prod.splits)

lemma ex_plan_ok_env: "plans_ok (en_coll ex_env) ex_plan_db"
  using ex_plan_ok by (simp add: ex_env_def)

theorem plans_ok_preserved_witness:
  "\<exists>db' out. activateWithManager ex_env None ex_plan_db ex_plan_db ''p1'' = Inr (db', out) \<and> plans_ok ex_coll db'"
proof -
  obtain db' out where run: "activateWithManager ex_env None ex_plan_db ex_plan_db ''p1'' = Inr (db', out)"
    by (rule ex_activation_run)
  from plans_ok_preserved [OF ex_plan_ok_env disjI2, OF disjI2, OF run] have "plans_ok ex_coll db'"
    by (simp add: ex_env_def)
  with run show ?thesis by blast
qed

theorem activation_installs_valid_plan_witness:
  "\<exists>db' out x' r. activateWithManager ex_env None ex_plan_db ex_plan_db ''p1'' = Inr (db', out) \<and>
     active_revision db' x' = Some r \<and> rv_number r = 2 \<and> graph_valid (rv_steps r)"
proof -
  obtain db' out where run: "activateWithManager ex_env None ex_plan_db ex_plan_db ''p1'' = Inr (db', out)"
    "length (d_revisions db') = 2"
    by (rule ex_activation_run)
  then have "d_revisions db' \<noteq> d_revisions ex_plan_db" by (auto simp: ex_plan_db_def)
  from activation_installs_valid_plan [OF ex_plan_ok_env run(1) this] run(1) show ?thesis
    by (auto simp: ex_plan_db_def ex_proposal_def find_by_def)
qed

theorem decision_final_witness:
  "\<exists>db' out p. activateWithManager ex_env None ex_plan_db ex_plan_db ''p1'' = Inr (db', out) \<and>
     find_by pr_id ''p1'' (d_proposals db') = Some p \<and> pr_status p = PAccepted"
proof -
  obtain db' out where run: "activateWithManager ex_env None ex_plan_db ex_plan_db ''p1'' = Inr (db', out)"
    "length (d_revisions db') = 2"
    by (rule ex_activation_run)
  then have "\<not> same_plan ex_plan_db db'" by (auto simp: ex_plan_db_def same_plan_def)
  with decision_final [OF ex_plan_ok run(1)] run(1) show ?thesis by auto
qed

end
