(* ===== verification/ProjectionCache_Properties.thy ===== *)
theory ProjectionCache_Properties
  imports ProjectionCache PlanProposal_Properties
begin

text \<open>
  The cache stays within its two bounds, and a projection through it is the projection without it: what a claim is
  served was built from the same bundle. The contract between the cache and its client is the locale
  \<open>content_store\<close>.
\<close>

subsection \<open>A content-addressed store\<close>

locale content_store =
  fixes get :: "'k \<Rightarrow> 's \<Rightarrow> 's \<times> 'v option" and put_new :: "'k \<Rightarrow> 'v \<Rightarrow> 's \<Rightarrow> 's"
    and view :: "'s \<Rightarrow> 'k \<Rightarrow> 'v option" and ok :: "'s \<Rightarrow> bool"
  assumes get_view: "ok s \<Longrightarrow> snd (get k s) = view s k"
    and get_keeps: "ok s \<Longrightarrow> view (fst (get k s)) = view s"
    and get_ok: "ok s \<Longrightarrow> ok (fst (get k s))"
    and put_view: "ok s \<Longrightarrow> view (put_new k v s) k' = Some w \<Longrightarrow> view s k' = Some w \<or> k' = k \<and> w = v"
    and put_ok: "ok s \<Longrightarrow> ok (put_new k v s)"
begin

text \<open>The client: it asks for a key, and on a miss offers what it has computed, if it could.\<close>

definition ask :: "'s \<Rightarrow> 'k \<times> 'v option \<Rightarrow> 's" where
  "ask s q = (case get (fst q) s of
     (s1, Some v) \<Rightarrow> s1
   | (s1, None) \<Rightarrow> (case snd q of None \<Rightarrow> s1 | Some v \<Rightarrow> put_new (fst q) v s1))"

definition holds_only :: "('k \<Rightarrow> 'v \<Rightarrow> bool) \<Rightarrow> 's \<Rightarrow> bool" where
  "holds_only P s \<longleftrightarrow> ok s \<and> (\<forall>k v. view s k = Some v \<longrightarrow> P k v)"

lemma holds_only_get:
  assumes "holds_only P s"
  shows "holds_only P (fst (get k s))"
  using assms get_keeps get_ok by (simp add: holds_only_def)

lemma holds_only_put:
  assumes "holds_only P s" and "P k v"
  shows "holds_only P (put_new k v s)"
  unfolding holds_only_def
proof (intro conjI allI impI)
  have ok: "ok s" using assms(1) by (simp add: holds_only_def)
  then show "ok (put_new k v s)" by (rule put_ok)
  show "P k' w" if "view (put_new k v s) k' = Some w" for k' w
    using put_view [OF ok that] assms by (auto simp: holds_only_def)
qed

lemma holds_only_ask:
  assumes "holds_only P s" and "\<And>v. snd q = Some v \<Longrightarrow> P (fst q) v"
  shows "holds_only P (ask s q)"
  using holds_only_get [OF assms(1), of "fst q"] assms(2) holds_only_put
  by (auto simp: ask_def split: prod.split option.split)

lemma holds_only_asks:
  "holds_only P s \<Longrightarrow> (\<And>q v. q \<in> set qs \<Longrightarrow> snd q = Some v \<Longrightarrow> P (fst q) v) \<Longrightarrow> holds_only P (foldl ask s qs)"
proof (induction qs arbitrary: s)
  case (Cons q qs)
  then show ?case using holds_only_ask [of P s q] by simp
qed simp

lemma served:
  assumes "holds_only P s" and "snd (get k s) = Some v"
  shows "P k v"
  using assms get_view by (auto simp: holds_only_def)

end

subsection \<open>Bounds\<close>

definition cache_ok :: "projection_cache \<Rightarrow> bool" where
  "cache_ok c \<longleftrightarrow> distinct (map fst (pc_entries c)) \<and> \<not> oversized (pc_entries c)"

lemma cache_ok_empty [simp]: "cache_ok empty_cache"
  by (simp add: cache_ok_def empty_cache_def oversized_def cache_bytes_def maxTotalBytes_def)

lemma evict_suffix: "\<exists>ds. es = ds @ evict es"
proof (induction es)
  case (Cons e es)
  then obtain ds where "es = ds @ evict es" by blast
  then have "e # es = (e # ds) @ evict es" by simp
  moreover have "e # es = [] @ (e # es)" by simp
  ultimately show ?case unfolding evict.simps by metis
qed simp

lemma evict_fits: "\<not> oversized (evict es)"
  by (induction es) (auto simp: oversized_def cache_bytes_def maxTotalBytes_def)

lemma evict_last: "\<not> oversized [e] \<Longrightarrow> e \<in> set (evict (es @ [e]))"
  by (induction es) auto

text \<open>Taking an entry out and adding it at the end keeps the entries.\<close>

lemma touch_mset:
  assumes "distinct (map fst es)" and "map_of es h = Some e"
  shows "mset (filter (\<lambda>p. fst p \<noteq> h) es @ [(h, e)]) = mset es"
  using assms
proof (induction es)
  case (Cons p es)
  show ?case
  proof (cases "fst p = h")
    case True
    with Cons.prems have "filter (\<lambda>p. fst p \<noteq> h) es = es" by (auto simp: filter_id_conv rev_image_eqI)
    moreover have "p = (h, e)" using True Cons.prems(2) by (cases p) auto
    ultimately show ?thesis using True by simp
  qed (use Cons in \<open>cases p; auto\<close>)
qed simp

lemma same_mset:
  assumes "mset es = mset es'" and "distinct (map fst es')"
  shows "map_of es = map_of es'" and "oversized es = oversized es'" and "distinct (map fst es)"
proof -
  have keys: "mset (map fst es) = mset (map fst es')" using assms(1) by (metis mset_map)
  then show dist: "distinct (map fst es)" using assms(2) mset_eq_imp_distinct_iff by blast
  have "set es = set es'" using assms(1) by (rule mset_eq_setD)
  with dist assms(2) show "map_of es = map_of es'" by (metis map_of_inject_set)
  have "length es = length es'" using assms(1) by (metis size_mset)
  moreover have "cache_bytes es = cache_bytes es'"
    using assms(1) by (simp add: cache_bytes_def) (metis mset_map sum_mset_sum_list)
  ultimately show "oversized es = oversized es'" by (simp add: oversized_def)
qed

lemma cache_get_same:
  assumes "cache_ok c" and "cache_get h c = (c', r)"
  shows "r = map_of (pc_entries c) h" and "mset (pc_entries c') = mset (pc_entries c)"
  using assms touch_mset [of "pc_entries c" h]
  by (auto simp: cache_get_def cache_ok_def split: option.splits)

lemma cache_get_ok:
  assumes "cache_ok c" and "cache_get h c = (c', r)"
  shows "cache_ok c'" and "map_of (pc_entries c') = map_of (pc_entries c)"
  using same_mset [OF cache_get_same(2) [OF assms]] assms(1) by (auto simp: cache_ok_def)

lemma cache_add_entries:
  assumes "cache_add h e c = c'"
  obtains (same) "c' = c" | (stored) ds where "map_of (pc_entries c) h = None"
    "pc_entries c @ [(h, e)] = ds @ pc_entries c'" "pc_entries c' = evict (pc_entries c @ [(h, e)])" "(h, e) \<in> set (pc_entries c')"
proof -
  show ?thesis
  proof (cases "map_of (pc_entries c) h = None \<and> ce_bytes e \<le> maxTotalBytes")
    case True
    with assms have es: "pc_entries c' = evict (pc_entries c @ [(h, e)])" by (auto simp: cache_add_def)
    have none: "map_of (pc_entries c) h = None" using True by blast
    have "\<not> oversized [(h, e)]" using True by (simp add: oversized_def cache_bytes_def maxEntries_def)
    from evict_last [OF this] have last: "(h, e) \<in> set (pc_entries c')" by (simp only: es)
     obtain ds where "pc_entries c @ [(h, e)] = ds @ evict (pc_entries c @ [(h, e)])"
      using evict_suffix by blast
    then have "pc_entries c @ [(h, e)] = ds @ pc_entries c'" by (simp only: es)
    from stored [OF none this es last] show ?thesis .
  next
    case False
    with assms have "c' = c" by (auto simp: cache_add_def)
    then show ?thesis by (rule same)
  qed
qed

lemma cache_add_ok:
  assumes "cache_ok c"
  shows "cache_ok (cache_add h e c)"
proof (cases rule: cache_add_entries [OF refl, of h e c])
  case (2 ds)
  have "h \<notin> fst ` set (pc_entries c)" using 2(1) by (simp add: map_of_eq_None_iff)
  then have "distinct (map fst (pc_entries c @ [(h, e)]))" using assms by (auto simp: cache_ok_def)
  with 2(2) have "distinct (map fst (pc_entries (cache_add h e c)))" by (metis distinct_append map_append)
  with 2(3) evict_fits show ?thesis by (simp add: cache_ok_def)
qed (use assms in simp)

lemma cache_add_view:
  assumes "cache_ok c" and "map_of (pc_entries (cache_add h e c)) h' = Some w"
  shows "map_of (pc_entries c) h' = Some w \<or> h' = h \<and> w = e"
proof (cases rule: cache_add_entries [OF refl, of h e c])
  case (2 ds)
  from assms(2) have "(h', w) \<in> set (ds @ pc_entries (cache_add h e c))" by (simp add: map_of_SomeD)
  then have "(h', w) \<in> set (pc_entries c) \<or> (h', w) = (h, e)" by (auto simp: 2(2) [symmetric])
  with assms(1) show ?thesis by (auto simp: cache_ok_def)
qed (use assms(2) in simp)

interpretation bundles: content_store cache_get cache_add "\<lambda>c. map_of (pc_entries c)" cache_ok
proof
  fix k k' c and v w :: cached
  assume ok: "cache_ok c"
  obtain c' r where run: "cache_get k c = (c', r)" by fastforce
  from cache_get_same(1) [OF ok run] run show "snd (cache_get k c) = map_of (pc_entries c) k" by simp
  from cache_get_ok [OF ok run] run show "map_of (pc_entries (fst (cache_get k c))) = map_of (pc_entries c)"
    "cache_ok (fst (cache_get k c))" by simp_all
  show "cache_ok (cache_add k v c)" by (rule cache_add_ok [OF ok])
  show "map_of (pc_entries c) k' = Some w \<or> k' = k \<and> w = v" if "map_of (pc_entries (cache_add k v c)) k' = Some w"
    by (rule cache_add_view [OF ok that])
qed

subsection \<open>A projection through the cache\<close>

text \<open>What is stored for a bundle is what its envelope and the metrics of it are.\<close>

definition built :: "(string \<Rightarrow> string \<Rightarrow> bool) \<Rightarrow> bundle_inputs \<Rightarrow> cached \<Rightarrow> bool" where
  "built coll b e \<longleftrightarrow> (let env = envelope (bi_stateValues b) (bi_stateVersion b) (bi_artifacts b)
     in \<exists>n. jsonValueUtf8Size env = Inr n \<and> n \<le> maxEnvelopeBytes \<and> ce_envelope e = env \<and>
       ce_metrics e = \<lparr>em_projectedBytes = int n, em_projectedCharacters = int (length (canonicalJson coll env)),
         em_selectedItems = int (length (bi_stateValues b)), em_selectedArtifacts = int (length (bi_artifacts b))\<rparr>)"

definition values_of :: "(string \<Rightarrow> string \<Rightarrow> bool) \<Rightarrow> projection_inputs \<Rightarrow> context_error + (string \<times> jsv) list" where
  "values_of coll p = selectProjectedValues coll (projection_js (pi_projection p)) (pi_state p)"

text \<open>The projection without a cache.\<close>

definition direct ::
  "(string \<Rightarrow> string) \<Rightarrow> (string \<Rightarrow> string \<Rightarrow> bool) \<Rightarrow> projection_inputs \<Rightarrow> projection_fault + projected" where
  "direct sha coll p =
     (case values_of coll p of
        Inl e \<Rightarrow> Inl (Projected e)
      | Inr vals \<Rightarrow> bindE (materialize_miss coll p vals) (\<lambda>(env, m).
          Inr \<lparr>pj_envelope = env, pj_metrics = m, pj_hash = computeContextBundleHash sha coll (bundle_of p vals)\<rparr>))"

lemma materialize_miss_Inr:
  assumes "materialize_miss coll p vals = Inr (env, m)" and "values_of coll p = Inr vals"
  shows "built coll (bundle_of p vals) (cached_of env m)"
    and "env = envelope vals (pi_version p) (pi_references p)"
  using assms
  by (auto simp: materialize_miss_def values_of_def materializeContextSnapshot_def measureContextEnvelope_def bindE_Inr_iff built_def
      bundle_of_def cached_of_def envelope_metrics_of_def Let_def split: sum.splits if_splits)

lemma materialize_miss_built:
  assumes "built coll (bundle_of p vals) e" and "values_of coll p = Inr vals"
  shows "materialize_miss coll p vals = bindE (mapL Aborting (jsonValueUtf8Size (JObj (pi_state p)))) (\<lambda>n.
     Inr (ce_envelope e, with_state_bytes (ce_metrics e) (int n)))"
  using assms
  by (auto simp: materialize_miss_def values_of_def materializeContextSnapshot_def measureContextEnvelope_def built_def bundle_of_def
      with_state_bytes_def Let_def mapL_def bindE_def split: sum.splits)

text \<open>What one claim asks the cache for.\<close>

definition request_of ::
  "(string \<Rightarrow> string) \<Rightarrow> (string \<Rightarrow> string \<Rightarrow> bool) \<Rightarrow> projection_inputs \<Rightarrow> (string \<times> cached option) option" where
  "request_of sha coll p =
     (case values_of coll p of
        Inl _ \<Rightarrow> None
      | Inr vals \<Rightarrow> Some (computeContextBundleHash sha coll (bundle_of p vals),
          case materialize_miss coll p vals of Inl _ \<Rightarrow> None | Inr (env, m) \<Rightarrow> Some (cached_of env m)))"

lemma claim_asks:
  "fst (materializeProjectedContext sha coll c p) = (case request_of sha coll p of None \<Rightarrow> c | Some q \<Rightarrow> bundles.ask c q)"
  by (auto simp: materializeProjectedContext_def request_of_def values_of_def bundles.ask_def Let_def cache_set_def
      split: sum.splits prod.splits option.splits)

definition after_claims ::
  "(string \<Rightarrow> string) \<Rightarrow> (string \<Rightarrow> string \<Rightarrow> bool) \<Rightarrow> projection_inputs list \<Rightarrow> projection_cache" where
  "after_claims sha coll ps = foldl (\<lambda>c p. fst (materializeProjectedContext sha coll c p)) empty_cache ps"

definition bundles_of :: "(string \<Rightarrow> string \<Rightarrow> bool) \<Rightarrow> projection_inputs list \<Rightarrow> bundle_inputs list" where
  "bundles_of coll ps = concat (map (\<lambda>p. case values_of coll p of Inl _ \<Rightarrow> [] | Inr vals \<Rightarrow> [bundle_of p vals]) ps)"

lemma after_claims_holds:
  "bundles.holds_only (\<lambda>h e. \<exists>b \<in> set (bundles_of coll ps). h = computeContextBundleHash sha coll b \<and> built coll b e)
     (after_claims sha coll ps)"
proof (induction ps rule: rev_induct)
  case Nil
  show ?case by (simp add: after_claims_def bundles.holds_only_def) (simp add: empty_cache_def)
next
  case (snoc p ps)
  let ?P = "\<lambda>ps h e. \<exists>b \<in> set (bundles_of coll ps). h = computeContextBundleHash sha coll b \<and> built coll b e"
  have "set (bundles_of coll ps) \<subseteq> set (bundles_of coll (ps @ [p]))" by (auto simp: bundles_of_def)
  with snoc have IH: "bundles.holds_only (?P (ps @ [p])) (after_claims sha coll ps)"
    by (simp add: bundles.holds_only_def) blast
  have step: "after_claims sha coll (ps @ [p]) =
      (case request_of sha coll p of None \<Rightarrow> after_claims sha coll ps | Some q \<Rightarrow> bundles.ask (after_claims sha coll ps) q)"
    by (simp only: after_claims_def foldl_append foldl_Cons foldl_Nil claim_asks)
  show ?case
  proof (cases "request_of sha coll p")
    case (Some q)
    have "?P (ps @ [p]) (fst q) e" if "snd q = Some e" for e
      using Some that materialize_miss_Inr(1)
      by (force simp: request_of_def bundles_of_def split: sum.splits prod.splits)
    with bundles.holds_only_ask [OF IH] Some step show ?thesis by simp
  qed (use IH step in simp)
qed


text \<open>C29: the cache stays bounded: after any claims it has at most 64 entries of at most 4 MiB together, each hash once, and
  what was just stored is found.\<close>

theorem cache_bounded:
  assumes "ce_bytes e \<le> 4 * 1024 * 1024" and "cache_get h (after_claims sha coll ps) = (c, None)"
  shows "let c' = cache_add h e c in length (pc_entries c') \<le> 64 \<and> st_bytes (cache_stats_of c') \<le> 4 * 1024 * 1024 \<and>
     distinct (map fst (pc_entries c')) \<and> snd (cache_get h c') = Some e"
proof -
  have ok: "cache_ok (after_claims sha coll ps)"
    using after_claims_holds [of coll ps sha] by (simp add: bundles.holds_only_def)
  from cache_get_ok [OF this assms(2)] cache_get_same(1) [OF this assms(2)]
  have c: "cache_ok c" "map_of (pc_entries c) h = None" by simp_all
  note ok' = cache_add_ok [OF c(1), of h e]
  have "snd (cache_get h (cache_add h e c)) = Some e"
  proof (cases rule: cache_add_entries [OF refl, of h e c])
    case 1
    with c(2) assms(1) have "pc_entries c = evict (pc_entries c @ [(h, e)])"
      by (simp add: cache_add_def maxTotalBytes_def) (metis projection_cache.select_convs(1) projection_cache.surjective projection_cache.update_convs(1))
    moreover have "(h, e) \<in> set (evict (pc_entries c @ [(h, e)]))"
      using assms(1) by (intro evict_last) (simp add: oversized_def cache_bytes_def maxEntries_def maxTotalBytes_def)
    ultimately show ?thesis using c(2) by (metis map_of_eq_None_iff image_eqI fst_conv)
  next
    case (2 ds)
    then have "map_of (pc_entries (cache_add h e c)) h = Some e" using ok' by (simp add: cache_ok_def)
    then show ?thesis by (simp add: bundles.get_view [OF ok'])
  qed
  with ok' show ?thesis
    by (simp add: Let_def cache_ok_def oversized_def maxEntries_def maxTotalBytes_def cache_stats_of_def)
qed

subsection \<open>Concrete runs\<close>

definition ex_inputs :: projection_inputs where
  "ex_inputs = \<lparr>pi_projection = \<lparr>cp_stateKeys = [''k''], cp_artifacts = None\<rparr>, pi_state = [(''k'', JStr ''v''), (''l'', JNull)],
     pi_version = 3, pi_references = [], pi_harness = \<lparr>hn_agent = ''x'', hn_executorKind = ''http'', hn_configHash = ''h'',
       hn_connectionId = None, hn_connectionRevision = None, hn_requestedModelId = None\<rparr>, pi_planHash = None, pi_workspace = None\<rparr>"

lemma ex_values: "values_of ex_coll ex_inputs = Inr [(''k'', JStr ''v'')]"
proof -
  have "case values_of ex_coll ex_inputs of Inr v \<Rightarrow> v = [(''k'', JStr ''v'')] | _ \<Rightarrow> False" by code_simp
  then show ?thesis by (simp split: sum.splits)
qed

lemma ex_built:
  obtains m where "materialize_miss ex_coll ex_inputs [(''k'', JStr ''v'')] = Inr (envelope [(''k'', JStr ''v'')] 3 [], m)"
    and "cm_projectedBytes m \<le> 100"
proof -
  have "jsonValueUtf8Size (envelope [(''k'', JStr ''v'')] 3 []) = Inr 95" by code_simp
  moreover have "jsonValueUtf8Size (JObj (pi_state ex_inputs)) = Inr 18" by code_simp
  ultimately have "\<exists>m. materialize_miss ex_coll ex_inputs [(''k'', JStr ''v'')] = Inr (envelope [(''k'', JStr ''v'')] 3 [], m) \<and>
      cm_projectedBytes m \<le> 100"
    using ex_values by (simp add: materialize_miss_def materializeContextSnapshot_def values_of_def measureContextEnvelope_def
      maxEnvelopeBytes_def) (simp add: ex_inputs_def ContextSnapshot.maxEnvelopeBytes_def)
  then show ?thesis using that by blast
qed

lemma ex_reuse:
  "case snd (materializeProjectedContext (\<lambda>_. []) ex_coll (after_claims (\<lambda>_. []) ex_coll [ex_inputs]) ex_inputs) of
     Inl _ \<Rightarrow> False | Inr (r, reused) \<Rightarrow> reused"
proof -
  obtain m where m: "materialize_miss ex_coll ex_inputs [(''k'', JStr ''v'')] = Inr (envelope [(''k'', JStr ''v'')] 3 [], m)"
    "cm_projectedBytes m \<le> 100" by (rule ex_built)
  let ?h = "computeContextBundleHash (\<lambda>_. []) ex_coll (bundle_of ex_inputs [(''k'', JStr ''v'')])"
  let ?e = "cached_of (envelope [(''k'', JStr ''v'')] 3 []) m"
  have "pc_entries (after_claims (\<lambda>_. []) ex_coll [ex_inputs]) = [(?h, ?e)]"
    using m ex_values by (simp add: after_claims_def materializeProjectedContext_def values_of_def Let_def cache_get_def empty_cache_def
      cache_set_def cache_add_def cached_of_def maxTotalBytes_def oversized_def maxEntries_def cache_bytes_def)
  moreover have "jsonValueUtf8Size (JObj (pi_state ex_inputs)) = Inr 18" by code_simp
  ultimately show ?thesis
    using ex_values by (simp add: materializeProjectedContext_def values_of_def Let_def cache_get_def)
qed


theorem cache_bounded_witness:
  "snd (cache_get ''h'' (cache_add ''h'' \<lparr>ce_envelope = JNull, ce_metrics = envelope_metrics_of
       \<lparr>cm_projectedBytes = 4, cm_projectedCharacters = 4, cm_selectedItems = 0, cm_selectedArtifacts = 0, cm_stateBytes = 2\<rparr>,
     ce_bytes = 4\<rparr> (fst (cache_get ''h'' (after_claims (\<lambda>_. []) ex_coll []))))) \<noteq> None"
  (is "snd (cache_get ''h'' (cache_add ''h'' ?e (fst (cache_get ''h'' ?c)))) \<noteq> None")
proof -
  have get: "cache_get ''h'' ?c = (fst (cache_get ''h'' ?c), None)"
    by (simp add: after_claims_def empty_cache_def cache_get_def)
  have "ce_bytes ?e \<le> 4 * 1024 * 1024" by simp
  from cache_bounded [OF this get] show ?thesis by (simp add: Let_def)
qed

end
