(* ===== verification/ResultInbox.thy ===== *)
theory ResultInbox
  imports PlanProposal
begin

text \<open>
  services/orchestrator/src/services/result-inbox.service.ts: one transaction takes a delivered result to its
  inbox row, or to a conflict row, and from there to the attempt, the state, the step, the execution, the
  budget and the evidence. The result is the JSON that was delivered.
\<close>

datatype application = RApplied string string | RDuplicate string string | RConflict | RIgnored

record write_application =
  wa_disposition :: write_disposition
  wa_prior :: int
  wa_result :: int
  wa_mappingHash :: "string option"
  wa_code :: "string option"

subsection \<open>Reading a result\<close>

definition truthy :: "jsv \<Rightarrow> bool" where
  "truthy v = (case v of JUndef \<Rightarrow> False | JNull \<Rightarrow> False | JBool b \<Rightarrow> b | JNum n \<Rightarrow> n \<noteq> NaN \<and> n \<noteq> Fin 0
     | JStr s \<Rightarrow> s \<noteq> [] | JArr _ \<Rightarrow> True | JObj _ \<Rightarrow> True)"

definition js_list :: "jsv \<Rightarrow> jsv list" where
  "js_list v = (case v of JArr vs \<Rightarrow> vs | _ \<Rightarrow> [])"

definition attemptStatus :: "jsv \<Rightarrow> attempt_status" where
  "attemptStatus status =
     (if status = JStr ''succeeded'' then ASuccess
      else if status = JStr ''cancelled'' then ACancelled
      else if status = JStr ''timed_out'' then ATimedOut
      else AFailed)"

definition result_error :: "jsv \<Rightarrow> failure option" where
  "result_error result =
     (let e = getp result ''error''
      in if truthy e then Some (Reported (js_String (getp e ''code'') @ '': '' @ js_String (getp e ''message'')))
         else None)"

definition terminationReason :: "jsv \<Rightarrow> failure option" where
  "terminationReason result =
     (if getp result ''status'' = JStr ''cancelled'' then Some (Message ''Worker cancelled the attempt'')
      else if getp result ''status'' = JStr ''timed_out'' then Some (Message ''Worker reported a timeout'')
      else result_error result)"

definition completeEfficiency :: "env \<Rightarrow> jsv \<Rightarrow> jsv \<Rightarrow> attempt \<Rightarrow> jsv" where
  "completeEfficiency en stored result a =
     (if nullish stored then JNull
      else case parseEfficiencyEvidence stored of
        Inl _ \<Rightarrow> stored
      | Inr evidence \<Rightarrow> efficiency_js (completeEfficiencyEvidence evidence (getp result ''usage'') (en_now en)
          (case at_dispatchedAt a of None \<Rightarrow> at_createdAt a | Some t \<Rightarrow> t)))"

definition either :: "'a option \<Rightarrow> 'a option \<Rightarrow> 'a option" where
  "either a b = (case a of None \<Rightarrow> b | Some _ \<Rightarrow> a)"

subsection \<open>Inbox and conflict rows\<close>

text \<open>
  The unique index on the transport identity has no entry without a message id, and a missing scope is never
  equal to another.
\<close>

definition same_delivery :: "transport_identity \<Rightarrow> transport_identity \<Rightarrow> bool" where
  "same_delivery s t \<longleftrightarrow> ti_adapter s = ti_adapter t \<and> ti_scope s = ti_scope t \<and> ti_scope s \<noteq> None \<and>
     ti_messageId s = ti_messageId t \<and> ti_messageId s \<noteq> None"

definition new_inbox :: "env \<Rightarrow> attempt \<Rightarrow> jsv \<Rightarrow> transport_identity \<Rightarrow> inbox_row" where
  "new_inbox en a result source =
     \<lparr>ib_id = en_newId en ''inbox'', ib_invocationId = at_invocationId a, ib_attempt = at_id a,
      ib_hash = sha256Json (en_sha en) (en_coll en) result, ib_payload = result, ib_source = source,
      ib_status = IReceived, ib_receivedAt = en_now en, ib_appliedAt = None, ib_error = None\<rparr>"

definition insert_inbox :: "inbox_row \<Rightarrow> inbox_row list \<Rightarrow> inbox_row list" where
  "insert_inbox r rows =
     (if \<exists>q \<in> set rows. ib_id q = ib_id r \<or> ib_invocationId q = ib_invocationId r \<or>
         same_delivery (ib_source q) (ib_source r)
      then rows else rows @ [r])"

definition received :: "env \<Rightarrow> runtime_db \<Rightarrow> attempt \<Rightarrow> jsv \<Rightarrow> transport_identity \<Rightarrow> runtime_db" where
  "received en db a result source = db\<lparr>d_inbox := insert_inbox (new_inbox en a result source) (d_inbox db)\<rparr>"

definition insert_conflict :: "conflict_row \<Rightarrow> conflict_row list \<Rightarrow> conflict_row list" where
  "insert_conflict r rows =
     (if \<exists>q \<in> set rows. same_delivery (cf_source q) (cf_source r) \<and> cf_hash q = cf_hash r
      then rows else rows @ [r])"

definition add_conflict :: "env \<Rightarrow> runtime_db \<Rightarrow> attempt \<Rightarrow> inbox_row \<Rightarrow> jsv \<Rightarrow> transport_identity \<Rightarrow> runtime_db" where
  "add_conflict en db a inbox result source =
     db\<lparr>d_conflicts := insert_conflict
       \<lparr>cf_invocationId = at_invocationId a, cf_inbox = ib_id inbox,
        cf_hash = sha256Json (en_sha en) (en_coll en) result, cf_payload = result, cf_source = source,
        cf_receivedAt = en_now en\<rparr> (d_conflicts db)\<rparr>"

definition transport_inbox :: "runtime_db \<Rightarrow> transport_identity \<Rightarrow> inbox_row option" where
  "transport_inbox db source =
     (if ti_messageId source = None \<or> ti_messageId source = Some [] then None
      else find (\<lambda>r. same_delivery (ib_source r) source) (d_inbox db))"

definition reject_inbox :: "runtime_db \<Rightarrow> inbox_row \<Rightarrow> string \<Rightarrow> runtime_db" where
  "reject_inbox db inbox text =
     db\<lparr>d_inbox := save_by ib_id (inbox\<lparr>ib_status := IRejected, ib_error := Some (Message text)\<rparr>) (d_inbox db)\<rparr>"

subsection \<open>State writes\<close>

definition rejected_write :: "run_row \<Rightarrow> string \<Rightarrow> write_application" where
  "rejected_write x code = \<lparr>wa_disposition = WRejected, wa_prior = x_version x, wa_result = x_version x,
     wa_mappingHash = None, wa_code = Some code\<rparr>"

definition validated_js :: "state_patch \<Rightarrow> jsv" where
  "validated_js p = JObj [(''set'', JObj (pt_set p)), (''delete'', JArr (map JStr (pt_delete p)))]"

definition run_state :: "run_row \<Rightarrow> (string \<times> jsv) list" where
  "run_state x = (case x_state x of None \<Rightarrow> [] | Some s \<Rightarrow> s)"

definition applyControlledStateWrites ::
  "env \<Rightarrow> runtime_db \<Rightarrow> run_row \<Rightarrow> state_write list \<Rightarrow> jsv \<Rightarrow> runtime_db \<times> run_row \<times> write_application" where
  "applyControlledStateWrites en db x mappings out =
     (let reject = (\<lambda>code. (db, x, rejected_write x code))
      in case buildStateWritesPatch out mappings of
           Inl PointerMissing \<Rightarrow> reject ''TENVYR_STATE_WRITE_POINTER_MISSING''
         | Inl _ \<Rightarrow> reject ''TENVYR_STATE_WRITE_INVALID_PATCH''
         | Inr kvs \<Rightarrow>
             (case validateStatePatch (JObj [(''set'', JObj (js_object kvs))]) of
                Inl _ \<Rightarrow> reject ''TENVYR_STATE_WRITE_INVALID_PATCH''
              | Inr p \<Rightarrow>
                  let hash = sha256Json (en_sha en) (en_coll en) (validated_js p);
                      (state, changed) = applyStatePatch (en_coll en) (run_state x) p
                  in if \<not> changed
                     then (db, x, \<lparr>wa_disposition = WNoop, wa_prior = x_version x, wa_result = x_version x,
                             wa_mappingHash = Some hash, wa_code = None\<rparr>)
                     else (case jsonValueUtf8Size (JObj state) of
                         Inl _ \<Rightarrow> reject ''TENVYR_STATE_WRITE_UNSAFE_VALUE''
                       | Inr n \<Rightarrow>
                           if n > maxStateBytes \<or> length state > maxStateKeys
                           then reject ''TENVYR_STATE_WRITE_BOUNDS''
                           else let x' = x\<lparr>x_state := Some state, x_version := x_version x + 1,
                                          x_updatedAt := Some (en_now en)\<rparr>
                                in (db\<lparr>d_runs := save_by x_id x' (d_runs db)\<rparr>, x',
                                    \<lparr>wa_disposition = WApplied, wa_prior = x_version x, wa_result = x_version x + 1,
                                     wa_mappingHash = Some hash, wa_code = None\<rparr>))))"

subsection \<open>The terminal transition\<close>

text \<open>What is decided before the attempt is touched: the status that the attempt gets and why it failed.\<close>

record verdict =
  vd_status :: attempt_status
  vd_failure :: "failure option"
  vd_write :: "write_application option"

definition step_config :: "runtime_db \<Rightarrow> attempt \<Rightarrow> logical_step \<Rightarrow> step option" where
  "step_config db a l = (case find_by rv_id (at_planRevisionId a) (d_revisions db) of
     None \<Rightarrow> None | Some r \<Rightarrow> find_by st_id (ls_stepId l) (rv_steps r))"

definition succeeded :: "jsv \<Rightarrow> bool" where
  "succeeded result \<longleftrightarrow> getp result ''status'' = JStr ''succeeded''"

definition write_state ::
  "env \<Rightarrow> runtime_db \<Rightarrow> run_row \<Rightarrow> step option \<Rightarrow> jsv \<Rightarrow> runtime_db \<times> run_row \<times> verdict" where
  "write_state en db x config result =
     (let status = attemptStatus (getp result ''status'');
          mappings = (case config of None \<Rightarrow> [] | Some s \<Rightarrow> writes_of s)
      in if x_status x = Running \<and> succeeded result \<and> mappings \<noteq> []
         then (case applyControlledStateWrites en db x mappings (getp result ''output'') of (db1, x1, w) \<Rightarrow>
           if wa_disposition w = WRejected
           then (db1, x1, \<lparr>vd_status = AFailed,
                  vd_failure = Some (StateWriteRejected (case wa_code w of None \<Rightarrow> [] | Some c \<Rightarrow> c)),
                  vd_write = Some w\<rparr>)
           else (db1, x1, \<lparr>vd_status = status, vd_failure = None, vd_write = Some w\<rparr>))
         else (db, x, \<lparr>vd_status = status, vd_failure = None, vd_write = None\<rparr>))"

text \<open>
  The output of a planner becomes a pending proposal. A thrown error of the code is caught; an error of the
  database has aborted the transaction.
\<close>

definition propose_plan ::
  "env \<Rightarrow> runtime_db \<Rightarrow> run_row \<Rightarrow> step option \<Rightarrow> attempt \<Rightarrow> jsv \<Rightarrow> verdict \<Rightarrow> runtime_error + runtime_db \<times> verdict" where
  "propose_plan en db x config a result v =
     (if x_status x = Running \<and> succeeded result \<and> (case config of None \<Rightarrow> False | Some s \<Rightarrow> st_planner s) \<and>
         vd_failure v = None \<and> at_status a \<notin> set TERMINAL_ATTEMPTS
      then (case proposeWithManager en db (x_id x) (getp result ''output'') ''planner'' of
          Inr (db1, p) \<Rightarrow> Inr (db1, v)
        | Inl (UniqueError c) \<Rightarrow> Inl (UniqueError c)
        | Inl e \<Rightarrow> Inr (db, v\<lparr>vd_status := AFailed, vd_failure := Some (PlannerProposalInvalid e)\<rparr>))
      else Inr (db, v))"

definition not_terminal :: "string \<Rightarrow> attempt \<Rightarrow> bool" where
  "not_terminal i a \<longleftrightarrow> at_id a = i \<and> at_status a \<notin> set TERMINAL_ATTEMPTS"

definition settled_attempt :: "env \<Rightarrow> jsv \<Rightarrow> verdict \<Rightarrow> attempt \<Rightarrow> attempt \<Rightarrow> attempt" where
  "settled_attempt en result v locked a =
     a\<lparr>at_status := vd_status v, at_terminalAt := Some (en_now en),
       at_result := (if succeeded result then getp result ''output'' else JNull),
       at_error := either (vd_failure v) (result_error result),
       at_terminationReason := either (vd_failure v) (terminationReason result),
       at_efficiency := completeEfficiency en (at_efficiency locked) result locked\<rparr>"

definition usage_of :: "jsv \<Rightarrow> usage_observation list" where
  "usage_of result = (case usageFromResult (getp result ''usage'') of Inl _ \<Rightarrow> [] | Inr us \<Rightarrow> us)"

definition settle_attempt ::
  "env \<Rightarrow> runtime_db \<Rightarrow> attempt \<Rightarrow> jsv \<Rightarrow> verdict \<Rightarrow> runtime_error + runtime_db" where
  "settle_attempt en db a result v =
     (if at_status a \<in> set TERMINAL_ATTEMPTS then Inr db
      else if affected (not_terminal (at_id a)) (d_attempts db) \<noteq> 1 then Inl (GuardLost ''attempt'')
      else bindE (mapL LedgerError (reconcileTerminal (d_ledger db) (at_invocationId a) (usage_of result)))
        (\<lambda>ledger. Inr (db\<lparr>d_attempts :=
             update_where (not_terminal (at_id a)) (settled_attempt en result v a) (d_attempts db),
           d_ledger := ledger\<rparr>)))"

definition retire :: "outbox_row \<Rightarrow> outbox_row" where
  "retire b = b\<lparr>ob_status := OCompleted, ob_leaseExpiresAt := None, ob_leaseToken := None\<rparr>"

definition retire_delivery :: "attempt \<Rightarrow> runtime_db \<Rightarrow> runtime_db" where
  "retire_delivery a db = db\<lparr>d_outbox := update_where
     (\<lambda>b. ob_attempt b = at_id a \<and> ob_status b \<in> set [OPending, OLeased, ODispatched]) retire (d_outbox db)\<rparr>"

definition on_failure :: "step option \<Rightarrow> string \<Rightarrow> bool" where
  "on_failure config s \<longleftrightarrow> (case config of None \<Rightarrow> False | Some c \<Rightarrow> st_onFailure c = Some (JStr s))"

definition retries :: "run_row \<Rightarrow> step option \<Rightarrow> attempt \<Rightarrow> logical_step \<Rightarrow> verdict \<Rightarrow> bool" where
  "retries x config a l v \<longleftrightarrow> x_status x = Running \<and> vd_status v \<in> set [AFailed, ATimedOut] \<and>
     on_failure config ''retry'' \<and> at_attemptNumber a < ls_maxAttempts l"

definition settled_step ::
  "env \<Rightarrow> run_row \<Rightarrow> step option \<Rightarrow> attempt \<Rightarrow> jsv \<Rightarrow> verdict \<Rightarrow> logical_step \<Rightarrow> logical_step" where
  "settled_step en x config a result v l =
     (let retry = retries x config a l v
      in l\<lparr>ls_status := (if vd_status v = ASuccess then SCompleted
             else if vd_status v = ACancelled then SCancelled
             else if retry then SRetrying else SFailed),
           ls_output := (if vd_status v = ASuccess then getp result ''output'' else JNull),
           ls_error := either (vd_failure v) (result_error result),
           ls_endTime := (if retry then None else Some (en_now en)),
           ls_nextAttemptAt := (if retry then Some (en_now en) else None)\<rparr>)"

text \<open>The transition of the execution, guarded by its own terminal status.\<close>

definition settled_run ::
  "env \<Rightarrow> run_row \<Rightarrow> step option \<Rightarrow> jsv \<Rightarrow> verdict \<Rightarrow> logical_step \<Rightarrow> run_row" where
  "settled_run en x config result v l =
     (if x_status x \<in> set TERMINAL_EXECUTION_STATUSES then x
      else if ls_status l = SFailed \<and> \<not> on_failure config ''continue''
      then x\<lparr>x_status := Failed, xr_endTime := Some (en_now en),
             xr_terminationReason := either (vd_failure v) (result_error result)\<rparr>
      else if ls_status l = SCancelled
      then x\<lparr>x_status := Cancelled, xr_endTime := Some (en_now en),
             xr_terminationReason := terminationReason result\<rparr>
      else x)"

definition settle_step ::
  "env \<Rightarrow> run_row \<Rightarrow> step option \<Rightarrow> attempt \<Rightarrow> logical_step \<Rightarrow> jsv \<Rightarrow> verdict \<Rightarrow> runtime_db \<Rightarrow> runtime_db" where
  "settle_step en x config a l result v db =
     (let l' = settled_step en x config a result v l; x' = settled_run en x config result v l'
      in db\<lparr>d_steps := save_by ls_id l' (d_steps db),
            d_runs := (if x' = x then d_runs db else save_by x_id x' (d_runs db))\<rparr>)"

subsection \<open>Evidence\<close>

definition add_artifact :: "env \<Rightarrow> inbox_row \<Rightarrow> artifact_row list \<Rightarrow> nat \<times> jsv \<Rightarrow> artifact_row list" where
  "add_artifact en inbox rows d =
     (if \<exists>r \<in> set rows. af_inbox r = ib_id inbox \<and> af_ordinal r = fst d then rows
      else rows @ [\<lparr>af_id = en_newId en (''artifact:'' @ nat_str (fst d)), af_inbox = ib_id inbox, af_ordinal = fst d,
                    af_hash = sha256Json (en_sha en) (en_coll en) (snd d)\<rparr>])"

definition record_artifacts :: "env \<Rightarrow> inbox_row \<Rightarrow> jsv \<Rightarrow> runtime_db \<Rightarrow> runtime_db" where
  "record_artifacts en inbox result db =
     db\<lparr>d_artifacts := foldl (add_artifact en inbox) (d_artifacts db)
       (List.enumerate 0 (js_list (getp result ''artifacts'')))\<rparr>"

definition record_evidence :: "run_row \<Rightarrow> attempt \<Rightarrow> inbox_row \<Rightarrow> verdict \<Rightarrow> runtime_db \<Rightarrow> runtime_db" where
  "record_evidence x a inbox v db =
     (case vd_write v of None \<Rightarrow> db
      | Some w \<Rightarrow>
          if \<exists>r \<in> set (d_evidence db). ev_inbox r = ib_id inbox then db
          else db\<lparr>d_evidence := d_evidence db @ [\<lparr>ev_execution = x_id x, ev_attempt = at_id a, ev_inbox = ib_id inbox,
                 ev_prior = wa_prior w, ev_result = wa_result w, ev_disposition = wa_disposition w,
                 ev_mappingHash = wa_mappingHash w, ev_rejectionCode = wa_code w\<rparr>]\<rparr>)"

definition observation_of :: "env \<Rightarrow> attempt \<Rightarrow> jsv \<Rightarrow> observation_row" where
  "observation_of en a v =
     \<lparr>on_attempt = at_id a, on_execution = at_executionId a,
      on_observationId = js_String (getp v ''provider'') @ '':'' @ js_String (getp v ''childId''),
      on_hash = sha256Json (en_sha en) (en_coll en) v, on_payload = v\<rparr>"

definition observe :: "env \<Rightarrow> attempt \<Rightarrow> runtime_db \<Rightarrow> jsv \<Rightarrow> runtime_db" where
  "observe en a db v =
     (let r = observation_of en a v;
          same = (\<lambda>q. on_attempt q = on_attempt r \<and> on_observationId q = on_observationId r);
          db1 = (if \<exists>q \<in> set (d_observations db). same q then db
                 else db\<lparr>d_observations := d_observations db @ [r]\<rparr>)
      in case find same (d_observations db1) of
           None \<Rightarrow> db1
         | Some q \<Rightarrow> if on_hash q = on_hash r then db1
             else db1\<lparr>d_observationConflicts := d_observationConflicts db1 @ [r]\<rparr>)"

definition record_observations :: "env \<Rightarrow> attempt \<Rightarrow> step option \<Rightarrow> jsv \<Rightarrow> runtime_db \<Rightarrow> runtime_db" where
  "record_observations en a config result db =
     (if (case config of None \<Rightarrow> False | Some s \<Rightarrow> st_delegation s = Some ''observed'')
      then foldl (observe en a) db (js_list (getp result ''delegation'')) else db)"

definition finish_inbox :: "env \<Rightarrow> inbox_row \<Rightarrow> verdict \<Rightarrow> runtime_db \<Rightarrow> runtime_db" where
  "finish_inbox en inbox v db =
     db\<lparr>d_inbox := save_by ib_id (inbox\<lparr>ib_status := IApplied, ib_appliedAt := Some (en_now en),
       ib_error := vd_failure v\<rparr>) (d_inbox db)\<rparr>"

subsection \<open>The transaction\<close>

text \<open>From the locked rows on: the first application of a canonical result.\<close>

definition apply_canonical ::
  "env \<Rightarrow> runtime_db \<Rightarrow> attempt \<Rightarrow> inbox_row \<Rightarrow> logical_step \<Rightarrow> run_row \<Rightarrow> jsv \<Rightarrow>
     runtime_error + runtime_db \<times> application" where
  "apply_canonical en db a inbox l x result =
     (if x_status x = Cancelled
      then Inr (reject_inbox db inbox ''Execution cancellation is already authoritative'', RConflict)
      else if at_status a \<in> set TERMINAL_ATTEMPTS \<and> at_status a \<noteq> attemptStatus (getp result ''status'')
      then Inr (reject_inbox db inbox ''A different terminal outcome is already authoritative'', RConflict)
      else
        let config = step_config db a l; (db1, x1, v1) = write_state en db x config result
        in bindE (propose_plan en db1 x1 config a result v1) (\<lambda>(db2, v).
           bindE (settle_attempt en db2 a result v) (\<lambda>db3.
             Inr (finish_inbox en inbox v
                   (record_observations en a config result
                   (record_evidence x1 a inbox v
                   (record_artifacts en inbox result
                   (settle_step en x1 config a l result v
                   (retire_delivery a db3))))),
                  RApplied (at_executionId a) (ls_stepId l)))))"

definition apply_locked ::
  "env \<Rightarrow> runtime_db \<Rightarrow> attempt \<Rightarrow> inbox_row \<Rightarrow> jsv \<Rightarrow> transport_identity \<Rightarrow>
     runtime_error + runtime_db \<times> application" where
  "apply_locked en db a inbox result source =
     (if ib_hash inbox \<noteq> sha256Json (en_sha en) (en_coll en) result
      then Inr (add_conflict en db a inbox result source, RConflict)
      else case find_by ls_id (at_logicalStepId a) (d_steps db) of
        None \<Rightarrow> Inl (RowMissing ''step'')
      | Some l \<Rightarrow>
          if ib_status inbox = IApplied then Inr (db, RDuplicate (at_executionId a) (ls_stepId l))
          else (case find_by x_id (at_executionId a) (d_runs db) of
              None \<Rightarrow> Inl (RowMissing ''execution'')
            | Some x \<Rightarrow> apply_canonical en db a inbox l x result))"

definition apply_result :: "env \<Rightarrow> runtime_db \<Rightarrow> jsv \<Rightarrow> transport \<Rightarrow> runtime_error + runtime_db \<times> application" where
  "apply_result en db result transport =
     bindE (mapL TransportError (durableTransportIdentity (en_sha en) transport)) (\<lambda>source.
       case find (\<lambda>a. JStr (at_invocationId a) = getp result ''invocationId'') (d_attempts db) of
         None \<Rightarrow> Inr (db, RIgnored)
       | Some a \<Rightarrow>
           if JStr (at_executionId a) \<noteq> getp result ''executionId'' \<or>
              JStr (at_logicalStepId a) \<noteq> getp result ''stepExecutionId''
           then Inr (db, RIgnored)
           else
             let db1 = received en db a result source
             in case find_by ib_invocationId (at_invocationId a) (d_inbox db1) of
                  Some inbox \<Rightarrow> apply_locked en db1 a inbox result source
                | None \<Rightarrow>
                    (case transport_inbox db1 source of
                       Some inbox \<Rightarrow> Inr (add_conflict en db1 a inbox result source, RConflict)
                     | None \<Rightarrow> Inl (RowMissing ''inbox'')))"

end
