(* ===== verification/DispatchOutbox.thy ===== *)
theory DispatchOutbox
  imports ResultInbox
begin

text \<open>
  services/orchestrator/src/services/dispatch-outbox.service.ts: outbox rows are leased, delivered to an executor
  outside of any transaction, and completed under the lease token: dispatched, refused for good, or put back.
  The executor side (parsing of an invocation, the frozen descriptor, the adapter) is a parameter.
\<close>

definition DISPATCH_LEASE_MS :: int where "DISPATCH_LEASE_MS = 60000"
definition MAX_DISPATCH_RECOVERY_BATCH :: nat where "MAX_DISPATCH_RECOVERY_BATCH = 100"

text \<open>A throw during a delivery: an adapter error that must not be retried, or anything else.\<close>

datatype delivery_error = Refused string | Faulted string

datatype disposition = Idle | Dispatched | TerminalFailure string | Thrown string | Aborted runtime_error

record descriptor =
  dc_connection :: "string option"
  dc_cancel :: bool

record cancel_request =
  cq_invocationId :: string
  cq_executionId :: string
  cq_dispatchId :: "string option"
  cq_reason :: string

text \<open>A cancel request throws, or is answered with whether it was delivered and a message.\<close>

record executor_port =
  ep_parse :: "jsv \<Rightarrow> delivery_error + jsv"
  ep_descriptor :: "jsv \<Rightarrow> delivery_error + descriptor"
  ep_invoke :: "jsv \<Rightarrow> descriptor \<Rightarrow> delivery_error + jsv"
  ep_cancel :: "(cancel_request \<Rightarrow> string + bool \<times> string) option"

subsection \<open>Leasing\<close>

definition due :: "int \<Rightarrow> outbox_row \<Rightarrow> bool" where
  "due now b \<longleftrightarrow> ob_status b = OPending \<and> ob_nextDispatchAt b \<le> now \<or>
     ob_status b = OLeased \<and> (case ob_leaseExpiresAt b of None \<Rightarrow> False | Some t \<Rightarrow> t \<le> now)"

definition deliverable :: "runtime_db \<Rightarrow> outbox_row \<Rightarrow> bool" where
  "deliverable db b \<longleftrightarrow> (\<exists>a \<in> set (d_attempts db). at_id a = ob_attempt b \<and> at_status a \<notin> set TERMINAL_ATTEMPTS \<and>
     (\<exists>x \<in> set (d_runs db). x_id x = at_executionId a \<and> is_live x))"

definition leased :: "env \<Rightarrow> outbox_row \<Rightarrow> outbox_row" where
  "leased en b = b\<lparr>ob_status := OLeased, ob_leaseExpiresAt := Some (en_now en + DISPATCH_LEASE_MS),
     ob_leaseToken := Some (en_newId en ''lease''), ob_count := ob_count b + 1\<rparr>"

text \<open>\<open>locked\<close> are the rows that other transactions hold at this moment; they are skipped.\<close>

definition leaseOutboxRow ::
  "env \<Rightarrow> string list \<Rightarrow> runtime_db \<Rightarrow> outbox_row list \<Rightarrow> runtime_db \<times> outbox_row option" where
  "leaseOutboxRow en locked db rows =
     (case find (\<lambda>b. ob_id b \<notin> set locked \<and> due (en_now en) b \<and> deliverable db b) rows of
        None \<Rightarrow> (db, None)
      | Some b \<Rightarrow> (db\<lparr>d_outbox := save_by ob_id (leased en b) (d_outbox db)\<rparr>, Some (leased en b)))"

definition claimNext :: "env \<Rightarrow> string list \<Rightarrow> runtime_db \<Rightarrow> runtime_db \<times> outbox_row option" where
  "claimNext en locked db =
     leaseOutboxRow en locked db (sort_by (\<lambda>x y. ob_nextDispatchAt x \<le> ob_nextDispatchAt y) (d_outbox db))"

definition claimAttempt :: "env \<Rightarrow> string list \<Rightarrow> runtime_db \<Rightarrow> string \<Rightarrow> runtime_db \<times> outbox_row option" where
  "claimAttempt en locked db attemptId =
     leaseOutboxRow en locked db (filter (\<lambda>b. ob_attempt b = attemptId) (d_outbox db))"

subsection \<open>Delivering\<close>

definition assertConnectionNotRevoked :: "env \<Rightarrow> descriptor \<Rightarrow> delivery_error + unit" where
  "assertConnectionNotRevoked en d =
     (case dc_connection d of
        None \<Rightarrow> Inr ()
      | Some c \<Rightarrow> if en_connected en c then Inr ()
          else Inl (Refused (''Runtime connection \"'' @ c @ ''\" is revoked or no longer exists; pending delivery denied'')))"

definition frozenDescriptor :: "executor_port \<Rightarrow> runtime_db \<Rightarrow> string \<Rightarrow> delivery_error + descriptor" where
  "frozenDescriptor port db attemptId =
     (case find_by at_id attemptId (d_attempts db) of
        None \<Rightarrow> Inl (Refused ''Dispatch outbox references a missing step attempt'')
      | Some a \<Rightarrow> ep_descriptor port (at_executorSnapshot a))"

definition deliver :: "env \<Rightarrow> executor_port \<Rightarrow> runtime_db \<Rightarrow> outbox_row \<Rightarrow> delivery_error + jsv" where
  "deliver en port db claimed =
     bindE (ep_parse port (ob_invocation claimed)) (\<lambda>invocation.
     bindE (frozenDescriptor port db (ob_attempt claimed)) (\<lambda>pinned.
     bindE (assertConnectionNotRevoked en pinned) (\<lambda>_. ep_invoke port invocation pinned)))"

text \<open>The row is still leased under the token of the claim.\<close>

definition holds :: "outbox_row \<Rightarrow> outbox_row \<Rightarrow> bool" where
  "holds claimed b \<longleftrightarrow> ob_id b = ob_id claimed \<and> ob_status b = OLeased \<and>
     ob_leaseToken b = ob_leaseToken claimed \<and> ob_leaseToken claimed \<noteq> None"

definition unleased :: "outbox_status \<Rightarrow> failure option \<Rightarrow> outbox_row \<Rightarrow> outbox_row" where
  "unleased st err b = b\<lparr>ob_status := st, ob_leaseExpiresAt := None, ob_leaseToken := None, ob_error := err\<rparr>"

definition markDispatched :: "env \<Rightarrow> runtime_db \<Rightarrow> outbox_row \<Rightarrow> jsv \<Rightarrow> runtime_db" where
  "markDispatched en db claimed receipt =
     (case find_by at_id (ob_attempt claimed) (d_attempts db) of
        None \<Rightarrow> db
      | Some a \<Rightarrow>
          if at_status a \<in> set TERMINAL_ATTEMPTS then db
          else if affected (holds claimed) (d_outbox db) \<noteq> 1 then db
          else
            let db1 = db\<lparr>d_outbox := update_where (holds claimed)
                  (\<lambda>b. (unleased ODispatched None b)\<lparr>ob_receipt := receipt\<rparr>) (d_outbox db)\<rparr>
            in if at_status a = ACreated
               then db1\<lparr>d_attempts := save_by at_id (a\<lparr>at_status := ADispatched, at_dispatchedAt := Some (en_now en)\<rparr>)
                      (d_attempts db1)\<rparr>
               else db1)"

definition putBack :: "env \<Rightarrow> runtime_db \<Rightarrow> outbox_row \<Rightarrow> string \<Rightarrow> runtime_db" where
  "putBack en db claimed msg = db\<lparr>d_outbox := update_where (holds claimed)
     (\<lambda>b. (unleased OPending (Some (Message msg)) b)\<lparr>ob_nextDispatchAt := en_now en + 1000\<rparr>) (d_outbox db)\<rparr>"

definition failed_attempt :: "env \<Rightarrow> failure \<Rightarrow> attempt \<Rightarrow> attempt" where
  "failed_attempt en reason a = a\<lparr>at_status := AFailed, at_terminalAt := Some (en_now en), at_result := JNull,
     at_error := Some reason, at_terminationReason := Some reason\<rparr>"

definition failed_step :: "env \<Rightarrow> failure \<Rightarrow> bool \<Rightarrow> logical_step \<Rightarrow> logical_step" where
  "failed_step en reason retry l = l\<lparr>ls_status := (if retry then SRetrying else SFailed), ls_error := Some reason,
     ls_endTime := (if retry then None else Some (en_now en)),
     ls_nextAttemptAt := (if retry then Some (en_now en) else None)\<rparr>"

definition fail_run :: "env \<Rightarrow> failure \<Rightarrow> string \<Rightarrow> runtime_db \<Rightarrow> runtime_db" where
  "fail_run en reason executionId db =
     (case find_by x_id executionId (d_runs db) of
        None \<Rightarrow> db
      | Some x \<Rightarrow> if is_live x
          then db\<lparr>d_runs := save_by x_id (x\<lparr>x_status := Failed, xr_endTime := Some (en_now en),
                 xr_terminationReason := Some reason\<rparr>) (d_runs db)\<rparr>
          else db)"

text \<open>After the attempt was failed: the failure policy of its step.\<close>

definition settle_refusal :: "env \<Rightarrow> failure \<Rightarrow> attempt \<Rightarrow> runtime_db \<Rightarrow> runtime_db" where
  "settle_refusal en reason a db =
     (case find_by ls_id (at_logicalStepId a) (d_steps db) of
        None \<Rightarrow> db
      | Some l \<Rightarrow>
          if ls_status l \<in> set TERMINAL_STEPS then db
          else
            let config = step_config db a l;
                retry = (on_failure config ''retry'' \<and> at_attemptNumber a < ls_maxAttempts l);
                db1 = db\<lparr>d_steps := save_by ls_id (failed_step en reason retry l) (d_steps db)\<rparr>
            in if retry \<or> on_failure config ''continue'' then db1 else fail_run en reason (at_executionId a) db1)"

definition refusal :: "string \<Rightarrow> failure" where
  "refusal msg = Message (''Non-retryable dispatch failure: '' @ msg)"

definition refuse_attempt :: "env \<Rightarrow> string \<Rightarrow> attempt \<Rightarrow> runtime_db \<Rightarrow> runtime_error + runtime_db" where
  "refuse_attempt en msg a db =
     (if affected (not_terminal (at_id a)) (d_attempts db) \<noteq> 1 then Inr db
      else bindE (mapL LedgerError (releaseForAction (d_ledger db) (at_invocationId a) ''non-retryable dispatch failure''))
        (\<lambda>ledger. Inr (settle_refusal en (refusal msg) a (db\<lparr>
           d_attempts := update_where (not_terminal (at_id a)) (failed_attempt en (refusal msg)) (d_attempts db),
           d_ledger := ledger\<rparr>))))"

definition failNonRetryable ::
  "env \<Rightarrow> runtime_db \<Rightarrow> outbox_row \<Rightarrow> string \<Rightarrow> runtime_error + runtime_db" where
  "failNonRetryable en db claimed msg =
     (case find_by at_id (ob_attempt claimed) (d_attempts db) of
        None \<Rightarrow> Inr db
      | Some a \<Rightarrow>
          if affected (holds claimed) (d_outbox db) \<noteq> 1 then Inr db
          else refuse_attempt en msg a (db\<lparr>d_outbox := update_where (holds claimed)
                 (unleased OFailed (Some (Message msg))) (d_outbox db)\<rparr>))"

text \<open>
  \<open>Thrown\<close> is the error that is thrown on after the record was put back; \<open>Aborted\<close> the error of a transaction
  that was rolled back.
\<close>

definition complete ::
  "env \<Rightarrow> runtime_db \<Rightarrow> outbox_row \<Rightarrow> delivery_error + jsv \<Rightarrow> runtime_db \<times> disposition" where
  "complete en db claimed delivery =
     (case delivery of
        Inr receipt \<Rightarrow> (markDispatched en db claimed receipt, Dispatched)
      | Inl (Refused msg) \<Rightarrow>
          (case failNonRetryable en db claimed msg of
             Inl e \<Rightarrow> (db, Aborted e)
           | Inr db' \<Rightarrow> (db', TerminalFailure (case getp (ob_invocation claimed) ''executionId'' of
               JUndef \<Rightarrow> [] | JNull \<Rightarrow> [] | v \<Rightarrow> js_String v)))
      | Inl (Faulted msg) \<Rightarrow> (putBack en db claimed msg, Thrown msg))"

definition dispatchClaimed ::
  "env \<Rightarrow> executor_port \<Rightarrow> runtime_db \<Rightarrow> outbox_row \<Rightarrow> runtime_db \<times> disposition" where
  "dispatchClaimed en port db claimed = complete en db claimed (deliver en port db claimed)"

definition dispatch_claim ::
  "env \<Rightarrow> executor_port \<Rightarrow> runtime_db \<times> outbox_row option \<Rightarrow> runtime_db \<times> disposition" where
  "dispatch_claim en port c = (case c of (db, None) \<Rightarrow> (db, Idle) | (db, Some b) \<Rightarrow> dispatchClaimed en port db b)"

definition dispatchNext ::
  "env \<Rightarrow> executor_port \<Rightarrow> string list \<Rightarrow> runtime_db \<Rightarrow> runtime_db \<times> disposition" where
  "dispatchNext en port locked db = dispatch_claim en port (claimNext en locked db)"

definition dispatchAttempt ::
  "env \<Rightarrow> executor_port \<Rightarrow> string list \<Rightarrow> runtime_db \<Rightarrow> string \<Rightarrow> runtime_db \<times> disposition" where
  "dispatchAttempt en port locked db attemptId = dispatch_claim en port (claimAttempt en locked db attemptId)"

subsection \<open>The recovery drain\<close>

record recovery =
  rc_dispatched :: nat
  rc_terminal :: "string list"
  rc_retryable :: nat

text \<open>A throw in the delivery is counted and does not stop the drain.\<close>

definition count_drained :: "disposition \<Rightarrow> recovery \<Rightarrow> recovery" where
  "count_drained d s =
     (case d of
        Dispatched \<Rightarrow> s\<lparr>rc_dispatched := rc_dispatched s + 1\<rparr>
      | TerminalFailure e \<Rightarrow> if e \<in> set (rc_terminal s) then s else s\<lparr>rc_terminal := rc_terminal s @ [e]\<rparr>
      | Thrown _ \<Rightarrow> s\<lparr>rc_retryable := rc_retryable s + 1\<rparr>
      | Aborted _ \<Rightarrow> s\<lparr>rc_retryable := rc_retryable s + 1\<rparr>
      | Idle \<Rightarrow> s)"

text \<open>The \<open>n\<close>-th iteration from the end has its own environment and its own rows that others hold.\<close>

fun drain ::
  "(nat \<Rightarrow> env) \<Rightarrow> executor_port \<Rightarrow> (nat \<Rightarrow> string list) \<Rightarrow> nat \<Rightarrow> runtime_db \<Rightarrow> recovery \<Rightarrow> runtime_db \<times> recovery" where
  "drain en port locked 0 db s = (db, s)"
| "drain en port locked (Suc n) db s =
     (case claimNext (en n) (locked n) db of
        (db1, None) \<Rightarrow> (db1, s)
      | (db1, Some claimed) \<Rightarrow>
          (case dispatchClaimed (en n) port db1 claimed of
             (db2, d) \<Rightarrow> drain en port locked n db2 (count_drained d s)))"

definition recover ::
  "(nat \<Rightarrow> env) \<Rightarrow> executor_port \<Rightarrow> (nat \<Rightarrow> string list) \<Rightarrow> runtime_db \<Rightarrow> runtime_db \<times> recovery" where
  "recover en port locked db =
     drain en port locked MAX_DISPATCH_RECOVERY_BATCH db \<lparr>rc_dispatched = 0, rc_terminal = [], rc_retryable = 0\<rparr>"

subsection \<open>Cancel notifications\<close>

record cancel_summary =
  cs_notified :: nat
  cs_unsupported :: nat
  cs_unreachable :: nat

datatype cancel_outcome = Notified | Unsupported string | Unreachable string

definition recordCancelOutcome :: "runtime_db \<Rightarrow> string \<Rightarrow> string \<Rightarrow> runtime_db" where
  "recordCancelOutcome db outboxId outcome = db\<lparr>d_outbox := update_where (\<lambda>b. ob_id b = outboxId)
     (\<lambda>b. b\<lparr>ob_error := Some (Message outcome)\<rparr>) (d_outbox db)\<rparr>"

definition text_or :: "string \<Rightarrow> jsv \<Rightarrow> string" where
  "text_or d v = (case v of JStr s \<Rightarrow> s | _ \<Rightarrow> d)"

definition cancel_of :: "outbox_row \<Rightarrow> string \<Rightarrow> string \<Rightarrow> cancel_request" where
  "cancel_of b executionId reason =
     \<lparr>cq_invocationId = (case getp (ob_invocation b) ''invocationId'' of JUndef \<Rightarrow> [] | JNull \<Rightarrow> [] | v \<Rightarrow> js_String v),
      cq_executionId = executionId,
      cq_dispatchId = (case getp (ob_receipt b) ''dispatchId'' of JStr s \<Rightarrow> Some s | _ \<Rightarrow> None),
      cq_reason = reason\<rparr>"

definition notify_row :: "executor_port \<Rightarrow> string \<Rightarrow> string \<Rightarrow> jsv \<Rightarrow> outbox_row \<Rightarrow> cancel_outcome" where
  "notify_row port executionId reason snapshot b =
     (let agent = text_or [] (getp (getp (ob_invocation b) ''target'') ''agent'');
          cannot = Unsupported (''agent \"'' @ agent @ ''\" executor cannot cancel'')
      in if \<not> truthy snapshot then cannot
         else (case ep_descriptor port snapshot of
            Inl _ \<Rightarrow> Unsupported ''frozen executor snapshot unreadable''
          | Inr d \<Rightarrow>
              (case ep_cancel port of
                 None \<Rightarrow> cannot
               | Some cancel \<Rightarrow>
                   if \<not> dc_cancel d then cannot
                   else (case cancel (cancel_of b executionId reason) of
                       Inl msg \<Rightarrow> Unreachable msg
                     | Inr (delivered, msg) \<Rightarrow>
                         if delivered then Notified
                         else Unreachable (''executor did not acknowledge: '' @ msg)))))"

fun outcome_text :: "cancel_outcome \<Rightarrow> string" where
  "outcome_text Notified = ''cancel notification: delivered''"
| "outcome_text (Unsupported why) = ''cancel notification: unsupported ('' @ why @ '')''"
| "outcome_text (Unreachable why) = ''cancel notification: unreachable ('' @ why @ '')''"

fun count_outcome :: "cancel_outcome \<Rightarrow> cancel_summary \<Rightarrow> cancel_summary" where
  "count_outcome Notified s = s\<lparr>cs_notified := cs_notified s + 1\<rparr>"
| "count_outcome (Unsupported _) s = s\<lparr>cs_unsupported := cs_unsupported s + 1\<rparr>"
| "count_outcome (Unreachable _) s = s\<lparr>cs_unreachable := cs_unreachable s + 1\<rparr>"

definition cancelled_attempts :: "runtime_db \<Rightarrow> string \<Rightarrow> attempt list" where
  "cancelled_attempts db executionId =
     filter (\<lambda>a. at_executionId a = executionId \<and> at_status a = ACancelled) (d_attempts db)"

definition notifiable :: "runtime_db \<Rightarrow> string \<Rightarrow> outbox_row list" where
  "notifiable db executionId = filter (\<lambda>b. ob_attempt b \<in> set (map at_id (cancelled_attempts db executionId)) \<and>
     ob_status b = OCompleted \<and> ob_receipt b \<noteq> JNull \<and> ob_error b = None) (d_outbox db)"

definition notify_step ::
  "executor_port \<Rightarrow> string \<Rightarrow> string \<Rightarrow> attempt list \<Rightarrow> runtime_db \<times> cancel_summary \<Rightarrow> outbox_row \<Rightarrow>
     runtime_db \<times> cancel_summary" where
  "notify_step port executionId reason attempts acc b =
     (let snapshot = (case find_by at_id (ob_attempt b) attempts of None \<Rightarrow> JUndef | Some a \<Rightarrow> at_executorSnapshot a);
          outcome = notify_row port executionId reason snapshot b
      in (recordCancelOutcome (fst acc) (ob_id b) (outcome_text outcome), count_outcome outcome (snd acc)))"

text \<open>Without a cancelled attempt the query has an empty list of ids, which is not a statement.\<close>

definition notifyCancel ::
  "executor_port \<Rightarrow> runtime_db \<Rightarrow> string \<Rightarrow> string \<Rightarrow> runtime_error + runtime_db \<times> cancel_summary" where
  "notifyCancel port db executionId reason =
     (let attempts = cancelled_attempts db executionId
      in if attempts = [] then Inl (RowMissing ''IN ()'')
         else Inr (foldl (notify_step port executionId reason attempts)
            (db, \<lparr>cs_notified = 0, cs_unsupported = 0, cs_unreachable = 0\<rparr>) (notifiable db executionId)))"

end
