(* ===== verification/WorkAuthority.thy ===== *)
theory WorkAuthority
  imports DispatchOutbox
begin

text \<open>
  What the claim of a step (execution.service.ts) and the resumption of an approved attempt (approval.service.ts)
  share: the negotiation of the delegation mode, the budget gate, and the outbox row with its invocation.
\<close>

subsection \<open>Delegation\<close>

definition negotiated :: "env \<Rightarrow> step \<Rightarrow> bool" where
  "negotiated en config \<longleftrightarrow> st_delegation config \<noteq> Some ''observed'' \<or>
     (case en_modes en (st_agent config) of None \<Rightarrow> True | Some modes \<Rightarrow> ''observed'' \<in> set modes)"

definition capability_failure :: "step \<Rightarrow> string" where
  "capability_failure config =
     ''Runtime for agent \"'' @ st_agent config @ ''\" does not support observed delegation''"

subsection \<open>The budget gate\<close>

fun budget_code :: "budget_error \<Rightarrow> string" where
  "budget_code DIMENSION_UNKNOWN = ''DIMENSION_UNKNOWN''"
| "budget_code AMOUNT_INVALID = ''AMOUNT_INVALID''"
| "budget_code AMOUNT_OVERFLOW = ''AMOUNT_OVERFLOW''"
| "budget_code EVIDENCE_TOO_LARGE = ''EVIDENCE_TOO_LARGE''"
| "budget_code INSUFFICIENT_BUDGET = ''INSUFFICIENT_BUDGET''"
| "budget_code IDEMPOTENCY_CONFLICT = ''IDEMPOTENCY_CONFLICT''"
| "budget_code RESERVATION_NOT_ACTIVE = ''RESERVATION_NOT_ACTIVE''"
| "budget_code RESERVATION_AMOUNT_EXCEEDED = ''RESERVATION_AMOUNT_EXCEEDED''"
| "budget_code SCOPE_ALREADY_EXISTS = ''SCOPE_ALREADY_EXISTS''"
| "budget_code ACCOUNT_NOT_FOUND = ''ACCOUNT_NOT_FOUND''"
| "budget_code CHAIN_TOO_DEEP = ''CHAIN_TOO_DEEP''"
| "budget_code CHILD_CEILING_EXCEEDS_PARENT = ''CHILD_CEILING_EXCEEDS_PARENT''"
| "budget_code DIMENSION_MISSING = ''DIMENSION_MISSING''"
| "budget_code CONFIDENCE_INVALID = ''CONFIDENCE_INVALID''"
| "budget_code DELTA_INVALID = ''DELTA_INVALID''"
| "budget_code AVAILABILITY_NEGATIVE = ''AVAILABILITY_NEGATIVE''"
| "budget_code PROJECTION_TOO_LARGE = ''PROJECTION_TOO_LARGE''"
| "budget_code INPUT_INVALID = ''INPUT_INVALID''"

definition budget_failure :: "budget_error \<Rightarrow> string" where
  "budget_failure e = ''Budget reservation failed: '' @ budget_code e"

text \<open>
  A budget error is caught inside the transaction: what was written before it stays, the account and the
  reservations of the dimensions before the one that failed. Any other error rolls the transaction back.
\<close>

fun reserve_dimensions ::
  "(dimension \<Rightarrow> string) \<Rightarrow> attempt_budget \<Rightarrow> ledger_db \<Rightarrow> (dimension \<times> int) list \<Rightarrow>
     ledger_error + ledger_db \<times> budget_error option" where
  "reserve_dimensions newId inp db [] = Inr (db, None)"
| "reserve_dimensions newId inp db (dn # dns) =
     (case reserve True db (newId (fst dn)) (attempt_reservation inp dn) of
        Inl (Budget e) \<Rightarrow> Inr (db, Some e)
      | Inl e \<Rightarrow> Inl e
      | Inr (db', r) \<Rightarrow> reserve_dimensions newId inp db' dns)"

text \<open>The envelope of a stored plan was normalised when the execution was created.\<close>

definition stored_budget :: "jsv \<Rightarrow> pipeline_budget option" where
  "stored_budget v = (case parsePipelineBudget v of Inl _ \<Rightarrow> None | Inr b \<Rightarrow> b)"

definition attempt_budget_of :: "attempt \<Rightarrow> string \<Rightarrow> amounts \<Rightarrow> attempt_budget" where
  "attempt_budget_of a accountId budget =
     \<lparr>ab_executionId = at_executionId a, ab_logicalStepId = at_logicalStepId a, ab_attemptNumber = at_attemptNumber a,
      ab_invocationId = at_invocationId a, ab_accountId = accountId, ab_budget = budget\<rparr>"

definition budget_gate ::
  "env \<Rightarrow> ledger_db \<Rightarrow> jsv \<Rightarrow> attempt \<Rightarrow> step \<Rightarrow> ledger_error + ledger_db \<times> budget_error option" where
  "budget_gate en db planBudget a config =
     (case st_budget config of
        None \<Rightarrow> Inr (db, None)
      | Some budget \<Rightarrow>
          (case ensureExecutionAccount db (en_newId en ''account'') (at_executionId a) (stored_budget planBudget)
             (Some budget) of
             Inl (Budget e) \<Rightarrow> Inr (db, Some e)
           | Inl e \<Rightarrow> Inl e
           | Inr (db1, account) \<Rightarrow>
               reserve_dimensions (\<lambda>d. en_newId en (''reservation:'' @ dimension_str d))
                 (attempt_budget_of a (a_id account) budget) db1 budget))"

subsection \<open>The delivery of an attempt\<close>

definition maxAttempts_of :: "step \<Rightarrow> int" where
  "maxAttempts_of config = (case st_retries config of None \<Rightarrow> 0 | Some n \<Rightarrow> n) + 1"

definition execution_workspace :: "env \<Rightarrow> string \<Rightarrow> (string \<times> jsv) list" where
  "execution_workspace en executionId =
     opt_member ''tenvyr'' (\<lambda>w. JObj [(''executionWorkspace'', w)]) (en_executionWorkspace en executionId)"

definition invocation_of :: "env \<Rightarrow> attempt \<Rightarrow> step \<Rightarrow> int \<Rightarrow> (string \<times> jsv) list \<Rightarrow> jsv" where
  "invocation_of en a config maxAttempts frozen =
     JObj ([(''schemaVersion'', JStr ''1''), (''invocationId'', JStr (at_invocationId a)),
        (''executionId'', JStr (at_executionId a)), (''stepExecutionId'', JStr (at_logicalStepId a)),
        (''stepId'', JStr (st_id config)), (''target'', JObj [(''agent'', JStr (st_agent config))]),
        (''input'', at_inputSnapshot a), (''attempt'', jint (at_attemptNumber a)),
        (''createdAt'', JStr (toISOString (en_now en)))]
      @ opt_member ''deadlineAt'' (\<lambda>t. JStr (toISOString t)) (at_deadlineAt a)
      @ (if truthy (at_contextSnapshot a) then [(''context'', at_contextSnapshot a)] else [])
      @ [(''trace'', JObj [(''traceId'', JStr (at_executionId a)), (''correlationId'', JStr (at_invocationId a))]),
         (''metadata'', JObj ((''orchestration'', JObj [(''maxAttempts'', jint maxAttempts)])
            # execution_workspace en (at_executionId a)))]
      @ frozen)"

definition new_outbox :: "env \<Rightarrow> attempt \<Rightarrow> jsv \<Rightarrow> outbox_row" where
  "new_outbox en a invocation = \<lparr>ob_id = en_newId en ''outbox'', ob_attempt = at_id a, ob_invocation = invocation, ob_status = OPending,
     ob_nextDispatchAt = en_now en, ob_leaseExpiresAt = None, ob_leaseToken = None, ob_count = 0, ob_receipt = JNull,
     ob_error = None\<rparr>"

definition insert_outbox :: "runtime_db \<Rightarrow> outbox_row \<Rightarrow> runtime_error + runtime_db" where
  "insert_outbox db b =
     (if \<exists>b' \<in> set (d_outbox db). ob_id b' = ob_id b then Inl (UniqueError ''PK_dispatch_outbox'')
      else if \<exists>b' \<in> set (d_outbox db). ob_attempt b' = ob_attempt b then Inl (UniqueError ''UQ_dispatch_outbox_attempt'')
      else Inr (db\<lparr>d_outbox := d_outbox db @ [b]\<rparr>))"

text \<open>At most one attempt of a step is created, dispatched or running: a partial unique index.\<close>

definition ACTIVE_STATUSES :: "attempt_status list" where
  "ACTIVE_STATUSES = [ACreated, ADispatched, ARunning]"

definition active_other :: "runtime_db \<Rightarrow> attempt \<Rightarrow> bool" where
  "active_other db a \<longleftrightarrow> (\<exists>b \<in> set (d_attempts db). at_id b \<noteq> at_id a \<and> at_logicalStepId b = at_logicalStepId a \<and>
     at_status b \<in> set ACTIVE_STATUSES)"

end
