(* ===== verification/Approvals.thy ===== *)
theory Approvals
  imports WorkAuthority
begin

text \<open>
  services/orchestrator/src/services/approval.service.ts: durable approval requests. Approving resumes the same
  waiting attempt, or activates the plan proposal again; denying and expiring fail the attempt or reject the
  proposal; every decision is made once, under the lock of the request.
\<close>

definition expireSweepBatch :: nat where "expireSweepBatch = 100"

definition config_invalid :: runtime_error where
  "config_invalid = PolicyError (Policy POLICY_CONFIG_INVALID)"

subsection \<open>Requesting\<close>

definition new_request :: "action_proposal \<Rightarrow> int \<Rightarrow> approval_row" where
  "new_request p expiresAt =
     \<lparr>aq_proposalId = p_id p, aq_hash = p_hash p, aq_actionType = p_actionType p,
      aq_executionId = sc_executionId (p_scope p),
      aq_logicalStepId = (case sc_logicalStepId (p_scope p) of None \<Rightarrow> [] | Some i \<Rightarrow> i),
      aq_attemptNumber = (case sc_attemptNumber (p_scope p) of None \<Rightarrow> 1 | Some n \<Rightarrow> n),
      aq_agent = (case p_target p of None \<Rightarrow> None | Some t \<Rightarrow> tg_agent t),
      aq_executor = (case p_target p of None \<Rightarrow> None | Some t \<Rightarrow> tg_executor t),
      aq_status = PENDING, aq_expiresAt = expiresAt, aq_decidedAt = None, aq_note = None\<rparr>"

definition request ::
  "env \<Rightarrow> runtime_db \<Rightarrow> action_proposal \<Rightarrow> jsv \<Rightarrow> runtime_error + runtime_db \<times> approval_row" where
  "request en db p expiresInMs =
     bindE (mapL (PolicyError \<circ> Policy) (approvalExpiry (en_now en) expiresInMs)) (\<lambda>expiresAt.
       let db1 = insert_approval db (new_request p expiresAt)
       in case find_by aq_proposalId (p_id p) (d_approvals db1) of
            None \<Rightarrow> Inl config_invalid
          | Some q \<Rightarrow> Inr (db1, q))"

subsection \<open>Locking\<close>

definition lockRequest :: "runtime_db \<Rightarrow> string \<Rightarrow> runtime_error + approval_row" where
  "lockRequest db proposalId =
     (case find_by aq_proposalId proposalId (d_approvals db) of None \<Rightarrow> Inl config_invalid | Some q \<Rightarrow> Inr q)"

definition lockAttempt :: "runtime_db \<Rightarrow> approval_row \<Rightarrow> runtime_error + attempt" where
  "lockAttempt db q =
     (case find (\<lambda>a. at_executionId a = aq_executionId q \<and> at_logicalStepId a = aq_logicalStepId q \<and>
         at_attemptNumber a = aq_attemptNumber q) (d_attempts db) of
        None \<Rightarrow> Inl config_invalid | Some a \<Rightarrow> Inr a)"

definition lockStep :: "runtime_db \<Rightarrow> string \<Rightarrow> string \<Rightarrow> runtime_error + logical_step" where
  "lockStep db executionId logicalStepId =
     (case find (\<lambda>l. ls_id l = logicalStepId \<and> ls_executionId l = executionId) (d_steps db) of
        None \<Rightarrow> Inl config_invalid | Some l \<Rightarrow> Inr l)"

definition stepConfig :: "runtime_db \<Rightarrow> attempt \<Rightarrow> logical_step \<Rightarrow> runtime_error + step" where
  "stepConfig db a l =
     (case find_by rv_id (at_planRevisionId a) (d_revisions db) of
        None \<Rightarrow> Inl config_invalid
      | Some r \<Rightarrow> (case find_by st_id (ls_stepId l) (rv_steps r) of None \<Rightarrow> Inl config_invalid | Some s \<Rightarrow> Inr s))"

definition revisionBudget :: "runtime_db \<Rightarrow> attempt \<Rightarrow> jsv" where
  "revisionBudget db a =
     (case find_by rv_id (at_planRevisionId a) (d_revisions db) of None \<Rightarrow> JUndef | Some r \<Rightarrow> rv_budget r)"

subsection \<open>Failing the waiting attempt\<close>

definition waits :: "string \<Rightarrow> attempt \<Rightarrow> bool" where
  "waits i a \<longleftrightarrow> at_id a = i \<and> at_status a = AWaiting"

definition step_waits :: "string \<Rightarrow> logical_step \<Rightarrow> bool" where
  "step_waits i l \<longleftrightarrow> ls_id l = i \<and> ls_status l = SWaiting"

definition running :: "string \<Rightarrow> run_row \<Rightarrow> bool" where
  "running i x \<longleftrightarrow> x_id x = i \<and> x_status x = Running"

definition failed_run :: "env \<Rightarrow> string \<Rightarrow> string \<Rightarrow> run_row \<Rightarrow> run_row" where
  "failed_run en stepId msg x = x\<lparr>x_status := Failed, xr_endTime := Some (en_now en),
     xr_terminationReason := Some (Message msg),
     xr_output := JObj [(''failedStep'', JStr stepId), (''error'', JStr msg)]\<rparr>"

definition fail_waiting :: "env \<Rightarrow> runtime_db \<Rightarrow> attempt \<Rightarrow> logical_step \<Rightarrow> step \<Rightarrow> string \<Rightarrow> runtime_db" where
  "fail_waiting en db a l config msg =
     (let retry = (on_failure (Some config) ''retry'' \<and> at_attemptNumber a < maxAttempts_of config);
          db1 = db\<lparr>d_attempts := update_where (waits (at_id a)) (failed_attempt en (Message msg)) (d_attempts db),
                   d_steps := update_where (step_waits (ls_id l)) (failed_step en (Message msg) retry) (d_steps db)\<rparr>
      in if \<not> retry \<and> \<not> on_failure (Some config) ''continue'' \<and> affected (step_waits (ls_id l)) (d_steps db) = 1
         then db1\<lparr>d_runs := update_where (running (at_executionId a)) (failed_run en (st_id config) msg) (d_runs db1)\<rparr>
         else db1)"

definition failAttemptDurably ::
  "env \<Rightarrow> runtime_db \<Rightarrow> attempt \<Rightarrow> logical_step \<Rightarrow> string \<Rightarrow> runtime_error + runtime_db" where
  "failAttemptDurably en db a l msg =
     bindE (stepConfig db a l) (\<lambda>config.
       if affected (waits (at_id a)) (d_attempts db) \<noteq> 1 then Inr db else Inr (fail_waiting en db a l config msg))"

subsection \<open>Approving\<close>

definition plan_id :: "string \<Rightarrow> string" where
  "plan_id s = (if take 5 s = ''plan:'' then drop 5 s else s)"

definition resolved_request :: "env \<Rightarrow> approval_status \<Rightarrow> approval_note option \<Rightarrow> approval_row \<Rightarrow> approval_row" where
  "resolved_request en st note q = q\<lparr>aq_status := st, aq_decidedAt := Some (en_now en), aq_note := note\<rparr>"

definition save_request :: "runtime_db \<Rightarrow> approval_row \<Rightarrow> runtime_db" where
  "save_request db q = db\<lparr>d_approvals := save_by aq_proposalId q (d_approvals db)\<rparr>"

definition settle_request ::
  "env \<Rightarrow> runtime_db \<Rightarrow> approval_row \<Rightarrow> approval_status \<Rightarrow> approval_note option \<Rightarrow> runtime_db \<times> approval_row" where
  "settle_request en db q st note = (let q' = resolved_request en st note q in (save_request db q', q'))"

definition note_or :: "string option \<Rightarrow> string \<Rightarrow> approval_note option" where
  "note_or n d = Some (Note (case n of None \<Rightarrow> d | Some s \<Rightarrow> s))"

text \<open>A plan patch is activated again, with every check, in the transaction of the approval.\<close>

definition approve_plan ::
  "env \<Rightarrow> activation option \<Rightarrow> runtime_db \<Rightarrow> approval_row \<Rightarrow> string option \<Rightarrow>
     runtime_error + runtime_db \<times> approval_row" where
  "approve_plan en late db q n =
     (let db1 = fst (settle_request en db q APPROVED (note_or n ''approved''))
      in bindE (activateWithManager en late db1 db1 (plan_id (aq_proposalId q))) (\<lambda>(db2, st, reason).
           if n = None \<and> st \<noteq> PAccepted \<and> \<not> en_fits en reason then Inl (TooLong ''decisionNote'')
           else Inr (settle_request en db2 q APPROVED
              (if n = None \<and> st \<noteq> PAccepted then Some (PlanNote st reason)
               else note_or n ''approved; plan activated''))))"

text \<open>The same attempt gets its work authority: no new invocation, one outbox row.\<close>

definition resume ::
  "env \<Rightarrow> runtime_db \<Rightarrow> attempt \<Rightarrow> logical_step \<Rightarrow> step \<Rightarrow> runtime_error + runtime_db" where
  "resume en db a l config =
     (if active_other db a then Inl (UniqueError ''UQ_step_attempt_active'')
      else insert_outbox (db\<lparr>d_attempts := save_by at_id (a\<lparr>at_status := ACreated\<rparr>) (d_attempts db),
             d_steps := save_by ls_id (l\<lparr>ls_status := SRunning\<rparr>) (d_steps db)\<rparr>)
           (new_outbox en a (invocation_of en a config (maxAttempts_of config) [])))"

definition resume_within_budget ::
  "env \<Rightarrow> runtime_db \<Rightarrow> approval_row \<Rightarrow> string option \<Rightarrow> attempt \<Rightarrow> logical_step \<Rightarrow> step \<Rightarrow>
     runtime_error + runtime_db \<times> approval_row" where
  "resume_within_budget en db q n a l config =
     bindE (mapL LedgerError (budget_gate en (d_ledger db) (revisionBudget db a) a config)) (\<lambda>(ledger, refused).
       let db1 = db\<lparr>d_ledger := ledger\<rparr>
       in case refused of
            Some e \<Rightarrow> bindE (failAttemptDurably en db1 a l (budget_failure e)) (\<lambda>db2.
              Inr (settle_request en db2 q APPROVED (note_or n ''budget insufficient'')))
          | None \<Rightarrow> bindE (resume en db1 a l config) (\<lambda>db2.
              Inr (settle_request en db2 q APPROVED (map_option Note n))))"

definition approve_attempt ::
  "env \<Rightarrow> runtime_db \<Rightarrow> approval_row \<Rightarrow> string option \<Rightarrow> runtime_error + runtime_db \<times> approval_row" where
  "approve_attempt en db q n =
     bindE (lockAttempt db q) (\<lambda>a.
     bindE (lockStep db (aq_executionId q) (aq_logicalStepId q)) (\<lambda>l.
       if at_status a \<noteq> AWaiting
       then Inr (settle_request en db q APPROVED (note_or n ''attempt already terminal''))
       else bindE (stepConfig db a l) (\<lambda>config.
         if \<not> negotiated en config
         then bindE (failAttemptDurably en db a l (capability_failure config)) (\<lambda>db1.
           Inr (settle_request en db1 q APPROVED (note_or n ''runtime capability changed; dispatch not granted'')))
         else resume_within_budget en db q n a l config)))"

definition approve ::
  "env \<Rightarrow> activation option \<Rightarrow> runtime_db \<Rightarrow> string \<Rightarrow> jsv \<Rightarrow> runtime_error + runtime_db \<times> approval_row" where
  "approve en late db proposalId note =
     bindE (mapL (PolicyError \<circ> Policy) (boundedApprovalNote note)) (\<lambda>n.
     bindE (lockRequest db proposalId) (\<lambda>q.
       if aq_status q \<noteq> PENDING then Inr (db, q)
       else if aq_actionType q = Policy.PlanPatch then approve_plan en late db q n
       else approve_attempt en db q n))"

subsection \<open>Denying and expiring\<close>

definition terminalizePlanProposal :: "env \<Rightarrow> decision_reason \<Rightarrow> string \<Rightarrow> runtime_db \<Rightarrow> runtime_db" where
  "terminalizePlanProposal en reason proposalId db = set_decision en (plan_id proposalId) PRejected reason db"

definition close_request ::
  "env \<Rightarrow> runtime_db \<Rightarrow> approval_row \<Rightarrow> approval_status \<Rightarrow> decision_reason \<Rightarrow> string \<Rightarrow> approval_note option \<Rightarrow>
     runtime_error + runtime_db \<times> approval_row" where
  "close_request en db q st reason msg note =
     (if aq_actionType q = Policy.PlanPatch
      then Inr (settle_request en (terminalizePlanProposal en reason (aq_proposalId q) db) q st note)
      else bindE (lockAttempt db q) (\<lambda>a.
        bindE (lockStep db (aq_executionId q) (aq_logicalStepId q)) (\<lambda>l.
        bindE (failAttemptDurably en db a l msg) (\<lambda>db1. Inr (settle_request en db1 q st note)))))"

definition deny :: "env \<Rightarrow> runtime_db \<Rightarrow> string \<Rightarrow> jsv \<Rightarrow> runtime_error + runtime_db \<times> approval_row" where
  "deny en db proposalId note =
     bindE (mapL (PolicyError \<circ> Policy) (boundedApprovalNote note)) (\<lambda>n.
     bindE (lockRequest db proposalId) (\<lambda>q.
       if aq_status q \<noteq> PENDING then Inr (db, q)
       else close_request en db q DENIED ApprovalDenied ''Approval denied'' (map_option Note n)))"

definition expire_one :: "env \<Rightarrow> runtime_db \<Rightarrow> approval_row \<Rightarrow> runtime_error + runtime_db \<times> approval_row" where
  "expire_one en db q = close_request en db q EXPIRED ApprovalExpired ''Approval expired'' (aq_note q)"

definition expire :: "env \<Rightarrow> runtime_db \<Rightarrow> string \<Rightarrow> runtime_error + runtime_db \<times> approval_row option" where
  "expire en db proposalId =
     bindE (lockRequest db proposalId) (\<lambda>q.
       if aq_status q \<noteq> PENDING \<or> aq_expiresAt q > en_now en then Inr (db, None)
       else bindE (expire_one en db q) (\<lambda>(db', q'). Inr (db', Some q')))"

definition expire_step :: "env \<Rightarrow> runtime_db \<Rightarrow> approval_row \<Rightarrow> runtime_error + runtime_db" where
  "expire_step en db q = bindE (expire_one en db q) (\<lambda>(db', q'). Inr db')"

definition expired_requests :: "env \<Rightarrow> nat \<Rightarrow> runtime_db \<Rightarrow> approval_row list" where
  "expired_requests en limit db =
     take limit (filter (\<lambda>q. aq_status q = PENDING \<and> aq_expiresAt q \<le> en_now en) (d_approvals db))"

definition expireDue :: "env \<Rightarrow> runtime_db \<Rightarrow> nat \<Rightarrow> runtime_error + runtime_db \<times> nat" where
  "expireDue en db limit =
     bindE (foldE (expire_step en) db (expired_requests en limit db))
       (\<lambda>db'. Inr (db', length (expired_requests en limit db)))"

end
