(* ===== verification/ResultInbox_Properties.thy ===== *)
theory ResultInbox_Properties
  imports ResultInbox PlanProposal_Properties
begin

text \<open>
  What the application of a result promises: a redelivery changes nothing, a different result for the same
  invocation is only recorded, terminal facts stay, and a state changes once per result, within its bounds and
  with evidence of its versions.
\<close>

subsection \<open>What each part of the transaction touches\<close>

definition written :: "env \<Rightarrow> run_row \<Rightarrow> (string \<times> jsv) list \<Rightarrow> run_row" where
  "written en x state = x\<lparr>x_state := Some state, x_version := x_version x + 1, x_updatedAt := Some (en_now en)\<rparr>"

text \<open>A write that is applied: the state is the patched one and is within the bounds.\<close>

definition write_applied :: "env \<Rightarrow> run_row \<Rightarrow> run_row \<Rightarrow> write_application \<Rightarrow> bool" where
  "write_applied en x x' w \<longleftrightarrow> (\<exists>p state n. applyStatePatch (en_coll en) (run_state x) p = (state, True) \<and>
     x' = written en x state \<and> jsonValueUtf8Size (JObj state) = Inr n \<and> n \<le> maxStateBytes \<and>
     length state \<le> maxStateKeys \<and> wa_disposition w = WApplied \<and> wa_prior w = x_version x \<and>
     wa_result w = x_version x + 1)"

definition write_idle :: "run_row \<Rightarrow> write_application \<Rightarrow> bool" where
  "write_idle x w \<longleftrightarrow> wa_disposition w \<noteq> WApplied \<and> wa_prior w = x_version x \<and> wa_result w = x_version x"

lemma write_idle_rejected [simp]: "write_idle x (rejected_write x code)"
  by (simp add: write_idle_def rejected_write_def)

lemma applyControlledStateWrites_effect:
  assumes "applyControlledStateWrites en db x mappings out = (db', x', w)"
  shows "db' = db \<and> x' = x \<and> write_idle x w \<or>
    db' = db\<lparr>d_runs := save_by x_id x' (d_runs db)\<rparr> \<and> write_applied en x x' w"
proof (cases "buildStateWritesPatch out mappings")
  case (Inl e)
  with assms show ?thesis by (cases e) (auto simp: applyControlledStateWrites_def)
next
  case (Inr kvs)
  show ?thesis
  proof (cases "validateStatePatch (JObj [(''set'', JObj (js_object kvs))])")
    case (Inl e)
    with assms Inr show ?thesis by (auto simp: applyControlledStateWrites_def)
  next
    case p: (Inr p)
    obtain state changed where s: "applyStatePatch (en_coll en) (run_state x) p = (state, changed)" by fastforce
    show ?thesis
    proof (cases "changed \<and> (\<exists>n. jsonValueUtf8Size (JObj state) = Inr n \<and> n \<le> maxStateBytes \<and> length state \<le> maxStateKeys)")
      case True
      then obtain n where n: "changed" "jsonValueUtf8Size (JObj state) = Inr n" "n \<le> maxStateBytes"
        "length state \<le> maxStateKeys" by blast
      with assms Inr p s have "x' = written en x state" "db' = db\<lparr>d_runs := save_by x_id x' (d_runs db)\<rparr>"
        "wa_disposition w = WApplied" "wa_prior w = x_version x" "wa_result w = x_version x + 1"
        by (auto simp: applyControlledStateWrites_def written_def Let_def)
      with n s have "write_applied en x x' w"
        unfolding write_applied_def by (intro exI [of _ p] exI [of _ state] exI [of _ n]) simp
      with \<open>db' = _\<close> show ?thesis by blast
    next
      case False
      with assms Inr p s show ?thesis
        by (auto simp: applyControlledStateWrites_def write_idle_def rejected_write_def Let_def split: if_splits sum.splits)
    qed
  qed
qed

lemma write_state_effect:
  assumes "write_state en db x config result = (db', x', v)"
  shows "db' = db \<and> x' = x \<and> (\<forall>w. vd_write v = Some w \<longrightarrow> write_idle x w) \<or>
    db' = db\<lparr>d_runs := save_by x_id x' (d_runs db)\<rparr> \<and> x_status x = Running \<and>
    (\<exists>w. vd_write v = Some w \<and> write_applied en x x' w)"
proof (cases "x_status x = Running \<and> succeeded result \<and> (case config of None \<Rightarrow> [] | Some s \<Rightarrow> writes_of s) \<noteq> []")
  case True
  obtain db1 x1 w where w: "applyControlledStateWrites en db x (case config of None \<Rightarrow> [] | Some s \<Rightarrow> writes_of s)
      (getp result ''output'') = (db1, x1, w)" by (metis prod_cases3)
  from True assms w have "db1 = db'" "x1 = x'" "vd_write v = Some w"
    by (auto simp: write_state_def Let_def split: if_splits)
  with applyControlledStateWrites_effect [OF w] True show ?thesis by auto
qed (use assms in \<open>auto simp: write_state_def Let_def\<close>)

lemma propose_plan_effect:
  assumes "propose_plan en db x config a result v = Inr (db', v')"
  shows "vd_write v' = vd_write v" and "db' = db \<or>
    (\<exists>p. proposeWithManager en db (x_id x) (getp result ''output'') ''planner'' = Inr (db', p))"
  using assms by (auto simp: propose_plan_def split: if_splits sum.splits runtime_error.splits)

lemma proposeWithManager_effect:
  assumes "proposeWithManager en db e patch source = Inr (db', p)"
  shows "db' = db\<lparr>d_proposals := d_proposals db @ [p]\<rparr>"
  using assms by (rule proposeWithManager_Inr) (blast dest: insertProposal_Inr)

lemma settle_attempt_effect:
  assumes "settle_attempt en db a result v = Inr db'"
  shows "at_status a \<in> set TERMINAL_ATTEMPTS \<and> db' = db \<or>
    (\<exists>ledger. reconcileTerminal (d_ledger db) (at_invocationId a) (usage_of result) = Inr ledger \<and>
      affected (not_terminal (at_id a)) (d_attempts db) = 1 \<and>
      db' = db\<lparr>d_attempts := update_where (not_terminal (at_id a)) (settled_attempt en result v a) (d_attempts db),
               d_ledger := ledger\<rparr>)"
  using assms by (auto simp: settle_attempt_def bindE_Inr_iff split: if_splits)

lemma apply_canonical_cases:
  assumes "apply_canonical en db a inbox l x result = Inr (db', out)"
  obtains (rejected) msg where "db' = reject_inbox db inbox msg" "out = RConflict"
    | (applied) db1 x1 v1 db2 v db3 where "x_status x \<noteq> Cancelled"
      "at_status a \<in> set TERMINAL_ATTEMPTS \<Longrightarrow> at_status a = attemptStatus (getp result ''status'')"
      "write_state en db x (step_config db a l) result = (db1, x1, v1)"
      "propose_plan en db1 x1 (step_config db a l) a result v1 = Inr (db2, v)"
      "settle_attempt en db2 a result v = Inr db3"
      "db' = finish_inbox en inbox v (record_observations en a (step_config db a l) result
        (record_evidence x1 a inbox v (record_artifacts en inbox result
        (settle_step en x1 (step_config db a l) a l result v (retire_delivery a db3)))))"
      "out = RApplied (at_executionId a) (ls_stepId l)"
proof -
  obtain db1 x1 v1 where w: "write_state en db x (step_config db a l) result = (db1, x1, v1)" by (metis prod_cases3)
  show ?thesis
  proof (cases "x_status x = Cancelled \<or>
      at_status a \<in> set TERMINAL_ATTEMPTS \<and> at_status a \<noteq> attemptStatus (getp result ''status'')")
    case True
    with assms have "\<exists>msg. db' = reject_inbox db inbox msg \<and> out = RConflict"
      by (auto simp: apply_canonical_def split: if_splits)
    then show ?thesis using rejected by blast
  next
    case False
    with assms w obtain db2 v db3 where
      "propose_plan en db1 x1 (step_config db a l) a result v1 = Inr (db2, v)"
      "settle_attempt en db2 a result v = Inr db3"
      "db' = finish_inbox en inbox v (record_observations en a (step_config db a l) result
        (record_evidence x1 a inbox v (record_artifacts en inbox result
        (settle_step en x1 (step_config db a l) a l result v (retire_delivery a db3)))))"
      "out = RApplied (at_executionId a) (ls_stepId l)"
      by (auto simp: apply_canonical_def Let_def bindE_Inr_iff)
    with w False show ?thesis by (intro applied) auto
  qed
qed

text \<open>The fields that each later part writes.\<close>

definition observed :: "runtime_db \<Rightarrow> observation_row list \<Rightarrow> observation_row list \<Rightarrow> runtime_db" where
  "observed db os cs = db\<lparr>d_observations := d_observations db @ os,
     d_observationConflicts := d_observationConflicts db @ cs\<rparr>"

lemma observed_Nil: "db = observed db [] []"
  by (simp add: observed_def)

lemma observed_trans: "observed (observed db os cs) os' cs' = observed db (os @ os') (cs @ cs')"
  by (simp add: observed_def)

lemma observe_observed: "\<exists>os cs. observe en a db v = observed db os cs"
proof -
  let ?r = "observation_of en a v"
  have "observe en a db v \<in> {observed db [] [], observed db [] [?r], observed db [?r] [], observed db [?r] [?r]}"
    by (auto simp: observe_def observed_def Let_def split: option.split)
  then show ?thesis by blast
qed

lemma record_observations_observed: "\<exists>os cs. record_observations en a config result db = observed db os cs"
proof -
  have "\<exists>os cs. foldl (observe en a) db vs = observed db os cs" for vs
  proof (induction vs rule: rev_induct)
    case Nil
    show ?case using observed_Nil by auto
  next
    case (snoc v vs)
    then obtain os cs where "foldl (observe en a) db vs = observed db os cs" by blast
    with observe_observed [of en a "observed db os cs" v] show ?case by (auto simp: observed_trans)
  qed
  then show ?thesis using observed_Nil by (auto simp: record_observations_def)
qed

definition evidences :: "run_row \<Rightarrow> inbox_row \<Rightarrow> verdict \<Rightarrow> evidence_row list \<Rightarrow> evidence_row list \<Rightarrow> bool" where
  "evidences x inbox v old es \<longleftrightarrow> (\<forall>e \<in> set es. ev_inbox e = ib_id inbox) \<and> (\<forall>w. vd_write v = Some w \<longrightarrow> ib_id inbox \<notin> ev_inbox ` set old \<longrightarrow>
     (\<exists>e. es = [e] \<and> ev_execution e = x_id x \<and> ev_inbox e = ib_id inbox \<and> ev_disposition e = wa_disposition w \<and>
        ev_prior e = wa_prior w \<and> ev_result e = wa_result w))"

lemma record_evidence_frame: "\<exists>es. record_evidence x a inbox v db = db\<lparr>d_evidence := d_evidence db @ es\<rparr> \<and>
    evidences x inbox v (d_evidence db) es"
proof (cases "\<exists>w. vd_write v = Some w \<and> ib_id inbox \<notin> ev_inbox ` set (d_evidence db)")
  case True
  then show ?thesis by (force simp: record_evidence_def evidences_def)
next
  case False
  then have "record_evidence x a inbox v db = db\<lparr>d_evidence := d_evidence db @ []\<rparr>"
    by (auto simp: record_evidence_def split: option.split)
  with False show ?thesis unfolding evidences_def by (intro exI [of _ "[]"]) auto
qed

lemma add_artifact_frame: "\<exists>rs. foldl (add_artifact en inbox) rows ds = rows @ rs"
proof (induction ds rule: rev_induct)
  case (snoc d ds)
  then show ?case by (auto simp: add_artifact_def)
qed simp

lemma record_artifacts_frame: "\<exists>rs. record_artifacts en inbox result db = db\<lparr>d_artifacts := d_artifacts db @ rs\<rparr>"
proof -
  obtain rs where "foldl (add_artifact en inbox) (d_artifacts db) (List.enumerate 0 (js_list (getp result ''artifacts''))) =
      d_artifacts db @ rs" using add_artifact_frame by blast
  then show ?thesis by (auto simp: record_artifacts_def)
qed

lemma settled_run_id [simp]: "x_id (settled_run en x config result v l) = x_id x"
  by (simp add: settled_run_def)

lemma written_id [simp]: "x_id (written en x state) = x_id x" "x_status (written en x state) = x_status x"
  by (simp_all add: written_def)

lemma write_applied_written: "write_applied en x x' w \<Longrightarrow> \<exists>state. x' = written en x state"
  by (auto simp: write_applied_def)

lemma write_state_saved:
  assumes "write_state en db x config result = (db', x', v)" and "x \<in> set (d_runs db)" "distinct (map x_id (d_runs db))"
  shows "db' = db\<lparr>d_runs := save_by x_id x' (d_runs db)\<rparr>" and "x' = x \<or> (\<exists>state. x' = written en x state)"
  using write_state_effect [OF assms(1)] save_by_self [OF assms(3,2)] write_applied_written by fastforce+

definition with_proposals :: "runtime_db \<Rightarrow> proposal_row list \<Rightarrow> runtime_db" where
  "with_proposals db ps = db\<lparr>d_proposals := d_proposals db @ ps\<rparr>"

lemma propose_plan_proposals:
  assumes "propose_plan en db x config a result v = Inr (db', v')"
  shows "\<exists>ps. db' = with_proposals db ps \<and> (ps = [] \<or>
    (\<exists>p. ps = [p] \<and> proposeWithManager en db (x_id x) (getp result ''output'') ''planner'' = Inr (db', p)))"
  using propose_plan_effect(2) [OF assms]
proof (elim disjE exE)
  assume "db' = db"
  then show ?thesis by (intro exI [of _ "[]"]) (simp add: with_proposals_def)
next
  fix p
  assume p: "proposeWithManager en db (x_id x) (getp result ''output'') ''planner'' = Inr (db', p)"
  with proposeWithManager_effect [OF p] show ?thesis by (intro exI [of _ "[p]"]) (simp add: with_proposals_def)
qed

definition with_settled :: "runtime_db \<Rightarrow> attempt list \<Rightarrow> ledger_db \<Rightarrow> runtime_db" where
  "with_settled db ats led = db\<lparr>d_attempts := ats, d_ledger := led\<rparr>"

lemma settle_attempt_settled:
  assumes "settle_attempt en db a result v = Inr db'"
  shows "\<exists>ats led. db' = with_settled db ats led \<and>
    (attempt_final a \<and> ats = d_attempts db \<and> led = d_ledger db \<or>
     \<not> attempt_final a \<and> ats = update_where (not_terminal (at_id a)) (settled_attempt en result v a) (d_attempts db) \<and>
     reconcileTerminal (d_ledger db) (at_invocationId a) (usage_of result) = Inr led)"
  using assms by (auto simp: settle_attempt_def attempt_final_def with_settled_def bindE_Inr_iff split: if_splits)

text \<open>The rows after the first application of a result.\<close>

lemma applied_rows:
  assumes w: "write_state en db x config result = (db1, x1, v1)"
    and pr: "propose_plan en db1 x1 config a result v1 = Inr (db2, v)"
    and at: "settle_attempt en db2 a result v = Inr db3"
    and db': "db' = finish_inbox en inbox v (record_observations en a config result
        (record_evidence x1 a inbox v (record_artifacts en inbox result
        (settle_step en x1 config a l result v (retire_delivery a db3)))))"
    and x: "x \<in> set (d_runs db)" "distinct (map x_id (d_runs db))"
  shows "d_inbox db' = save_by ib_id (inbox\<lparr>ib_status := IApplied, ib_appliedAt := Some (en_now en),
      ib_error := vd_failure v\<rparr>) (d_inbox db)"
    and "d_steps db' = save_by ls_id (settled_step en x1 config a result v l) (d_steps db)"
    and "d_attempts db' = (if attempt_final a then d_attempts db
      else update_where (not_terminal (at_id a)) (settled_attempt en result v a) (d_attempts db))"
    and "d_runs db' = save_by x_id (settled_run en x1 config result v (settled_step en x1 config a result v l)) (d_runs db)"
    and "d_revisions db' = d_revisions db" "d_approvals db' = d_approvals db" "d_conflicts db' = d_conflicts db"
    and "d_policy db' = d_policy db" "d_exposures db' = d_exposures db" "map ob_id (d_outbox db') = map ob_id (d_outbox db)"
    and "d_proposals db' = d_proposals db \<or>
      (\<exists>p. proposeWithManager en db1 (x_id x1) (getp result ''output'') ''planner'' = Inr (db2, p) \<and>
           d_proposals db' = d_proposals db @ [p])"
    and "d_ledger db' = d_ledger db \<or>
      reconcileTerminal (d_ledger db) (at_invocationId a) (usage_of result) = Inr (d_ledger db') \<and> \<not> attempt_final a"
    and "\<exists>es. d_evidence db' = d_evidence db @ es \<and> evidences x inbox v (d_evidence db) es"
    and "\<exists>rs. d_artifacts db' = d_artifacts db @ rs"
    and "\<exists>os. d_observations db' = d_observations db @ os"
    and "d_events db' = d_events db" "d_eventConflicts db' = d_eventConflicts db"
proof -
  let ?l = "settled_step en x1 config a result v l"
  let ?x = "settled_run en x1 config result v ?l"
  obtain ps where ps: "db2 = with_proposals db1 ps" "ps = [] \<or>
      (\<exists>p. ps = [p] \<and> proposeWithManager en db1 (x_id x1) (getp result ''output'') ''planner'' = Inr (db2, p))"
    using propose_plan_proposals [OF pr] by blast
  obtain ats led where st: "db3 = with_settled db2 ats led"
    "attempt_final a \<and> ats = d_attempts db2 \<and> led = d_ledger db2 \<or>
     \<not> attempt_final a \<and> ats = update_where (not_terminal (at_id a)) (settled_attempt en result v a) (d_attempts db2) \<and>
     reconcileTerminal (d_ledger db2) (at_invocationId a) (usage_of result) = Inr led"
    using settle_attempt_settled [OF at] by blast
  let ?db4 = "settle_step en x1 config a l result v (retire_delivery a db3)"
  obtain rs where rs: "record_artifacts en inbox result ?db4 = ?db4\<lparr>d_artifacts := d_artifacts ?db4 @ rs\<rparr>"
    using record_artifacts_frame by blast
  let ?db5 = "?db4\<lparr>d_artifacts := d_artifacts ?db4 @ rs\<rparr>"
  obtain es where es: "record_evidence x1 a inbox v ?db5 = ?db5\<lparr>d_evidence := d_evidence ?db5 @ es\<rparr>"
    "evidences x1 inbox v (d_evidence ?db5) es"
    using record_evidence_frame [of x1 a inbox v ?db5] by (elim exE conjE) (rule that)
  let ?db6 = "?db5\<lparr>d_evidence := d_evidence ?db5 @ es\<rparr>"
  obtain os cs where os: "record_observations en a config result ?db6 = observed ?db6 os cs"
    using record_observations_observed by blast
  have db'': "db' = finish_inbox en inbox v (observed ?db6 os cs)" unfolding db' rs es(1) os ..
  note run = write_state_saved [OF w x]
  have same: "x_id x1 = x_id x" using run(2) by auto
  note parts = db'' finish_inbox_def observed_def settle_step_def retire_delivery_def st(1) with_settled_def ps(1)
    with_proposals_def run(1) Let_def
  show "d_runs db' = save_by x_id ?x (d_runs db)" by (simp add: parts save_by_save)
  show "d_attempts db' = (if attempt_final a then d_attempts db
      else update_where (not_terminal (at_id a)) (settled_attempt en result v a) (d_attempts db))"
    using st(2) by (auto simp: parts)
  show "d_ledger db' = d_ledger db \<or>
      reconcileTerminal (d_ledger db) (at_invocationId a) (usage_of result) = Inr (d_ledger db') \<and> \<not> attempt_final a"
    using st(2) by (auto simp: parts)
  show "d_proposals db' = d_proposals db \<or>
      (\<exists>p. proposeWithManager en db1 (x_id x1) (getp result ''output'') ''planner'' = Inr (db2, p) \<and>
           d_proposals db' = d_proposals db @ [p])"
    using ps(2) by (auto simp: parts)
  show "d_inbox db' = save_by ib_id (inbox\<lparr>ib_status := IApplied, ib_appliedAt := Some (en_now en),
      ib_error := vd_failure v\<rparr>) (d_inbox db)" by (simp add: parts)
  show "d_steps db' = save_by ls_id ?l (d_steps db)" by (simp add: parts)
  show "\<exists>es. d_evidence db' = d_evidence db @ es \<and> evidences x inbox v (d_evidence db) es"
    using es(2) by (simp add: parts evidences_def same)
  show "d_revisions db' = d_revisions db" "d_approvals db' = d_approvals db" "d_conflicts db' = d_conflicts db"
    "d_policy db' = d_policy db" "d_exposures db' = d_exposures db" "map ob_id (d_outbox db') = map ob_id (d_outbox db)"
    "\<exists>rs. d_artifacts db' = d_artifacts db @ rs" "\<exists>os. d_observations db' = d_observations db @ os"
    "d_events db' = d_events db" "d_eventConflicts db' = d_eventConflicts db"
    by (simp_all add: parts map_update_where retire_def)
qed

subsection \<open>The cases of a delivery\<close>

lemma apply_result_cases:
  assumes "apply_result en db result t = Inr (db', out)"
  obtains (ignored) "db' = db" "out = RIgnored"
    | (recorded) a source inbox where "a \<in> set (d_attempts db)" "JStr (at_invocationId a) = getp result ''invocationId''"
        "db' = add_conflict en (received en db a result source) a inbox result source" "out = RConflict"
    | (duplicate) a source inbox l where "a \<in> set (d_attempts db)" "JStr (at_invocationId a) = getp result ''invocationId''"
        "find_by ib_invocationId (at_invocationId a) (d_inbox db') = Some inbox"
        "ib_status inbox = IApplied" "db' = received en db a result source"
        "find_by ls_id (at_logicalStepId a) (d_steps db) = Some l" "out = RDuplicate (at_executionId a) (ls_stepId l)"
    | (canonical) a source inbox l x where "a \<in> set (d_attempts db)"
        "JStr (at_invocationId a) = getp result ''invocationId''"
        "find_by ib_invocationId (at_invocationId a) (d_inbox (received en db a result source)) = Some inbox"
        "ib_hash inbox = sha256Json (en_sha en) (en_coll en) result"
        "ib_status inbox \<noteq> IApplied" "find_by ls_id (at_logicalStepId a) (d_steps db) = Some l"
        "find_by x_id (at_executionId a) (d_runs db) = Some x"
        "apply_canonical en (received en db a result source) a inbox l x result = Inr (db', out)"
        "JStr (at_executionId a) = getp result ''executionId''" "JStr (at_logicalStepId a) = getp result ''stepExecutionId''"
proof -
  from assms obtain source where src: "durableTransportIdentity (en_sha en) t = Inr source"
    by (auto simp: apply_result_def bindE_Inr_iff)
  show ?thesis
  proof (cases "find (\<lambda>a. JStr (at_invocationId a) = getp result ''invocationId'') (d_attempts db)")
    case None
    with assms src show ?thesis by (intro ignored) (auto simp: apply_result_def)
  next
    case (Some a)
    then have a: "a \<in> set (d_attempts db)" "JStr (at_invocationId a) = getp result ''invocationId''"
      by (auto simp: find_Some_iff)
    let ?db = "received en db a result source"
    show ?thesis
    proof (cases "JStr (at_executionId a) \<noteq> getp result ''executionId'' \<or>
              JStr (at_logicalStepId a) \<noteq> getp result ''stepExecutionId''")
      case True
      with assms src Some show ?thesis by (intro ignored) (auto simp: apply_result_def)
    next
      case False
      then have ids: "JStr (at_executionId a) = getp result ''executionId''"
        "JStr (at_logicalStepId a) = getp result ''stepExecutionId''" by auto
      from False assms src Some have run: "(case find_by ib_invocationId (at_invocationId a) (d_inbox ?db) of
          Some inbox \<Rightarrow> apply_locked en ?db a inbox result source
        | None \<Rightarrow> (case transport_inbox ?db source of
             Some inbox \<Rightarrow> Inr (add_conflict en ?db a inbox result source, RConflict)
           | None \<Rightarrow> Inl (RowMissing ''inbox''))) = Inr (db', out)"
        by (simp add: apply_result_def Let_def)
      show ?thesis
      proof (cases "find_by ib_invocationId (at_invocationId a) (d_inbox ?db)")
        case None
        with run obtain inbox where "db' = add_conflict en ?db a inbox result source" "out = RConflict"
          by (auto split: option.splits)
        with a show ?thesis by (rule recorded)
      next
        case inbox: (Some inbox)
        with run have locked: "apply_locked en ?db a inbox result source = Inr (db', out)" by simp
        have steps: "d_steps ?db = d_steps db" "d_runs ?db = d_runs db" by (simp_all add: received_def)
        show ?thesis
        proof (cases "ib_hash inbox = sha256Json (en_sha en) (en_coll en) result")
          case False
          with locked have "db' = add_conflict en ?db a inbox result source" "out = RConflict"
            by (auto simp: apply_locked_def)
          with a show ?thesis by (rule recorded)
        next
          case True
          with locked obtain l where l: "find_by ls_id (at_logicalStepId a) (d_steps db) = Some l"
            by (auto simp: apply_locked_def steps split: option.splits)
          show ?thesis
          proof (cases "ib_status inbox = IApplied")
            case True
            with locked l \<open>ib_hash inbox = _\<close> have "db' = ?db" "out = RDuplicate (at_executionId a) (ls_stepId l)"
              by (auto simp: apply_locked_def steps)
            with True a inbox l show ?thesis by (intro duplicate) auto
          next
            case False
            with locked l \<open>ib_hash inbox = _\<close> obtain x where "find_by x_id (at_executionId a) (d_runs db) = Some x"
              "apply_canonical en ?db a inbox l x result = Inr (db', out)"
              by (auto simp: apply_locked_def steps split: option.splits)
            with False \<open>ib_hash inbox = _\<close> a inbox l ids show ?thesis by (intro canonical) auto
          qed
        qed
      qed
    qed
  qed
qed

subsection \<open>What stays\<close>

lemma insert_inbox_keeps [simp]: "keeps P rows (insert_inbox r rows)"
  by (simp add: insert_inbox_def)

lemma insert_conflict_keeps [simp]: "keeps P rows (insert_conflict r rows)"
  by (simp add: insert_conflict_def)

lemma insert_inbox_keys:
  "distinct (map ib_id rows) \<Longrightarrow> distinct (map ib_id (insert_inbox r rows))"
  "distinct (map ib_invocationId rows) \<Longrightarrow> distinct (map ib_invocationId (insert_inbox r rows))"
  by (auto simp: insert_inbox_def)

lemma received_kept: "facts_kept db (received en db a result source)"
  by (simp add: facts_kept_def received_def)

lemma received_keys: "keys_ok db \<Longrightarrow> keys_ok (received en db a result source)"
  by (simp add: keys_ok_def received_def insert_inbox_keys)

lemma add_conflict_kept: "facts_kept db (add_conflict en db a inbox result source)"
  by (simp add: facts_kept_def add_conflict_def)

lemma add_conflict_keys [simp]: "keys_ok (add_conflict en db a inbox result source) = keys_ok db"
  by (simp add: keys_ok_def add_conflict_def)

lemma settled_run_live: "\<not> is_live x \<Longrightarrow> settled_run en x config result v l = x"
  by (simp add: settled_run_def is_live_def)

lemma canonical_kept:
  assumes keys: "keys_ok db" and inbox: "inbox \<in> set (d_inbox db)" "ib_status inbox \<noteq> IApplied"
    and a: "a \<in> set (d_attempts db)" and x: "x \<in> set (d_runs db)"
    and run: "apply_canonical en db a inbox l x result = Inr (db', out)"
  shows "facts_kept db db'"
  using run
proof (cases rule: apply_canonical_cases)
  case (rejected msg)
  with keys inbox show ?thesis
    by (auto simp: facts_kept_def reject_inbox_def keys_ok_def intro!: keeps_save)
next
  case (applied db1 x1 v1 db2 v db3)
  from keys have ids: "distinct (map x_id (d_runs db))" "distinct (map ib_id (d_inbox db))"
    "distinct (map at_id (d_attempts db))" by (auto simp: keys_ok_def)
  note rows = applied_rows [OF applied(3-6) x ids(1)]
  let ?x = "settled_run en x1 (step_config db a l) result v (settled_step en x1 (step_config db a l) a result v l)"
  have "keeps (\<lambda>x. \<not> is_live x) (d_runs db) (save_by x_id ?x (d_runs db))"
  proof (cases "is_live x")
    case True
    then show ?thesis using write_state_saved(2) [OF applied(3) x ids(1)]
      by (intro keeps_save [OF ids(1) x]) auto
  next
    case False
    then have "x_status x \<noteq> Running" by (auto simp: is_live_def TERMINAL_EXECUTION_STATUSES_def)
    with write_state_effect [OF applied(3)] have "x1 = x" by auto
    with False have "?x = x" by (simp add: settled_run_live)
    then show ?thesis using save_by_self [OF ids(1) x] by simp
  qed
  moreover have "keeps attempt_final (d_attempts db) (d_attempts db')"
    unfolding rows(3) by (auto simp: attempt_final_def not_terminal_def intro!: keeps_update)
  moreover have "keeps (\<lambda>r. ib_status r = IApplied) (d_inbox db) (d_inbox db')"
    unfolding rows(1) using inbox by (intro keeps_save [OF ids(2)]) auto
  moreover have "keeps (\<lambda>p. pr_status p \<noteq> PPending) (d_proposals db) (d_proposals db')"
    using rows(11) by auto
  moreover have "keeps (\<lambda>_. True) (d_evidence db) (d_evidence db')"
    "keeps (\<lambda>_. True) (d_artifacts db) (d_artifacts db')" "keeps (\<lambda>_. True) (d_observations db) (d_observations db')"
    using rows(13-15) by auto
  ultimately show ?thesis by (simp add: facts_kept_def rows(4-7,9,16,17))
qed

lemma canonical_keys:
  assumes keys: "keys_ok db" and inbox: "inbox \<in> set (d_inbox db)"
    and x: "x \<in> set (d_runs db)" and l: "l \<in> set (d_steps db)"
    and run: "apply_canonical en db a inbox l x result = Inr (db', out)"
  shows "keys_ok db'"
  using run
proof (cases rule: apply_canonical_cases)
  case (rejected msg)
  with keys inbox show ?thesis
    by (simp add: reject_inbox_def keys_ok_def map_save_by map_save_same [of ib_id _ inbox])
next
  case (applied db1 x1 v1 db2 v db3)
  from keys have ids: "distinct (map x_id (d_runs db))" "distinct (map ib_id (d_inbox db))" by (auto simp: keys_ok_def)
  note rows = applied_rows [OF applied(3-6) x ids(1)]
  have "map at_id (d_attempts db') = map at_id (d_attempts db)"
    "map at_invocationId (d_attempts db') = map at_invocationId (d_attempts db)"
    by (simp_all add: rows(3) map_update_where settled_attempt_def)
  with keys inbox show ?thesis
    by (simp add: keys_ok_def rows(1,2,4,6,10) map_save_by map_save_same [OF ids(2) inbox])
qed

lemma apply_result_invs:
  assumes keys: "keys_ok db" and run: "apply_result en db result t = Inr (db', out)"
  shows "facts_kept db db'" and "keys_ok db'"
proof -
  have "facts_kept db db' \<and> keys_ok db'"
    using run
  proof (cases rule: apply_result_cases)
    case ignored
    with keys show ?thesis by simp
  next
    case (recorded a source inbox)
    with keys show ?thesis
      using facts_kept_trans [OF received_kept add_conflict_kept] by (simp add: received_keys)
  next
    case (duplicate a source inbox l)
    with keys show ?thesis using received_kept by (simp add: received_keys)
  next
    case (canonical a source inbox l x)
    let ?db = "received en db a result source"
    have "inbox \<in> set (d_inbox ?db)" "a \<in> set (d_attempts ?db)" "x \<in> set (d_runs ?db)" "l \<in> set (d_steps ?db)"
      using find_by_Some [OF canonical(3)] canonical(1) find_by_Some [OF canonical(6)] find_by_Some [OF canonical(7)]
      by (simp_all add: received_def)
    note rows = this received_keys [OF keys, of en a result source] canonical(8)
    have "facts_kept ?db db'"
      using canonical_kept [OF rows(5) rows(1) canonical(5) rows(2,3,6)] .
    then have "facts_kept db db'" by (rule facts_kept_trans [OF received_kept])
    moreover have "keys_ok db'" using canonical_keys [OF rows(5) rows(1) rows(3,4,6)] .
    ultimately show ?thesis by simp
  qed
  then show "facts_kept db db'" and "keys_ok db'" by auto
qed

subsection \<open>Redelivery\<close>

lemma insert_inbox_again:
  assumes "find_by ib_invocationId (at_invocationId a) rows = Some r"
  shows "insert_inbox (new_inbox en a result source) rows = rows"
  using find_by_Some [OF assms] by (auto simp: insert_inbox_def new_inbox_def)

lemma find_attempt:
  assumes "distinct (map at_invocationId (d_attempts db))" and "a \<in> set (d_attempts db)"
    and "JStr (at_invocationId a) = getp result ''invocationId''"
  shows "find (\<lambda>a. JStr (at_invocationId a) = getp result ''invocationId'') (d_attempts db) = Some a"
proof -
  have "(\<lambda>b :: attempt. JStr (at_invocationId b) = getp result ''invocationId'') = (\<lambda>b. at_invocationId b = at_invocationId a)"
    using assms(3) [symmetric] by auto
  then show ?thesis using find_by_unique [OF assms(1,2)] by (simp only: find_by_def)
qed

text \<open>What the rows of an applied result look like: the attempt and its step are there, the inbox row is applied.\<close>

definition has_applied :: "env \<Rightarrow> runtime_db \<Rightarrow> jsv \<Rightarrow> string \<Rightarrow> string \<Rightarrow> bool" where
  "has_applied en db result e s \<longleftrightarrow> (\<exists>a l inbox. a \<in> set (d_attempts db) \<and>
     JStr (at_invocationId a) = getp result ''invocationId'' \<and> JStr (at_executionId a) = getp result ''executionId'' \<and>
     JStr (at_logicalStepId a) = getp result ''stepExecutionId'' \<and> at_executionId a = e \<and> ls_stepId l = s \<and>
     find_by ls_id (at_logicalStepId a) (d_steps db) = Some l \<and>
     find_by ib_invocationId (at_invocationId a) (d_inbox db) = Some inbox \<and> ib_status inbox = IApplied \<and>
     ib_hash inbox = sha256Json (en_sha en) (en_coll en) result)"

lemma has_applied_duplicate:
  assumes "has_applied en db result e s" and "keys_ok db" and "durableTransportIdentity (en_sha en) t = Inr source"
  shows "apply_result en db result t = Inr (db, RDuplicate e s)"
proof -
  from assms(1) obtain a l inbox where a: "a \<in> set (d_attempts db)"
      "JStr (at_invocationId a) = getp result ''invocationId''" "JStr (at_executionId a) = getp result ''executionId''"
      "JStr (at_logicalStepId a) = getp result ''stepExecutionId''" "at_executionId a = e"
    and l: "ls_stepId l = s" "find_by ls_id (at_logicalStepId a) (d_steps db) = Some l"
    and inbox: "find_by ib_invocationId (at_invocationId a) (d_inbox db) = Some inbox" "ib_status inbox = IApplied"
      "ib_hash inbox = sha256Json (en_sha en) (en_coll en) result"
    unfolding has_applied_def by blast
  have "received en db a result source = db" by (simp add: received_def insert_inbox_again [OF inbox(1)])
  with a l inbox assms(2,3) show ?thesis
    by (simp add: apply_result_def find_attempt keys_ok_def apply_locked_def)
qed

lemma find_step_save:
  assumes "find_by ls_id i rows = Some l" and "ls_id l' = ls_id l"
  shows "find_by ls_id i (save_by ls_id l' rows) = Some l'"
  using assms find_by_Some [OF assms(1)] by (simp add: find_by_save)

lemma settled_step_ids [simp]: "ls_id (settled_step en x config a result v l) = ls_id l"
  "ls_stepId (settled_step en x config a result v l) = ls_stepId l"
  "ls_executionId (settled_step en x config a result v l) = ls_executionId l"
  by (simp_all add: settled_step_def Let_def)

lemma settled_attempt_ids [simp]: "at_id (settled_attempt en result v locked a) = at_id a"
  "at_invocationId (settled_attempt en result v locked a) = at_invocationId a"
  "at_executionId (settled_attempt en result v locked a) = at_executionId a"
  "at_logicalStepId (settled_attempt en result v locked a) = at_logicalStepId a"
  by (simp_all add: settled_attempt_def)

lemma canonical_applied:
  assumes keys: "keys_ok db" and x: "x \<in> set (d_runs db)" and a: "a \<in> set (d_attempts db)"
    and ids: "JStr (at_invocationId a) = getp result ''invocationId''" "JStr (at_executionId a) = getp result ''executionId''"
      "JStr (at_logicalStepId a) = getp result ''stepExecutionId''"
    and inbox: "find_by ib_invocationId (at_invocationId a) (d_inbox db) = Some inbox"
      "ib_hash inbox = sha256Json (en_sha en) (en_coll en) result"
    and l: "find_by ls_id (at_logicalStepId a) (d_steps db) = Some l"
    and run: "apply_canonical en db a inbox l x result = Inr (db', RApplied e s)"
  shows "has_applied en db' result e s"
  using run
proof (cases rule: apply_canonical_cases)
  case (rejected msg)
  then show ?thesis by simp
next
  case (applied db1 x1 v1 db2 v db3)
  from keys have "distinct (map x_id (d_runs db))" by (simp add: keys_ok_def)
  note rows = applied_rows [OF applied(3-6) x this]
  let ?a = "if attempt_final a then a else settled_attempt en result v a a"
  let ?l = "settled_step en x1 (step_config db a l) a result v l"
  have "?a \<in> set (d_attempts db')"
    using a by (auto simp: rows(3) set_update_where not_terminal_def attempt_final_def image_iff)
  moreover have "find_by ls_id (at_logicalStepId a) (d_steps db') = Some ?l"
    unfolding rows(2) by (rule find_step_save [OF l]) simp
  moreover have "find_by ib_invocationId (at_invocationId a) (d_inbox db') = Some (inbox\<lparr>ib_status := IApplied,
      ib_appliedAt := Some (en_now en), ib_error := vd_failure v\<rparr>)"
    unfolding rows(1) using find_by_Some [OF inbox(1)] by (intro find_by_save_other [OF inbox(1)]) auto
  ultimately show ?thesis
    unfolding has_applied_def using applied(7) ids inbox(2) by (intro exI [of _ ?a] exI [of _ ?l]) auto
qed

text \<open>C13: applying a result is idempotent: once it was applied, delivering the same result again, at another
  time and by any transport whose identity fits, reports a duplicate and leaves the whole database as it is.\<close>

theorem redelivery_is_duplicate:
  assumes "keys_ok db" and "apply_result en db result t = Inr (db', RApplied e s)"
    and "en_sha en' = en_sha en" and "en_coll en' = en_coll en" and "durableTransportIdentity (en_sha en') t' = Inr source"
  shows "apply_result en' db' result t' = Inr (db', RDuplicate e s)"
proof (rule has_applied_duplicate)
  show "keys_ok db'" using apply_result_invs(2) [OF assms(1,2)] .
  show "durableTransportIdentity (en_sha en') t' = Inr source" by (fact assms(5))
  from assms(2) have "has_applied en db' result e s"
  proof (cases rule: apply_result_cases)
    case (canonical a source inbox l x)
    let ?db = "received en db a result source"
    have "x \<in> set (d_runs ?db)" "a \<in> set (d_attempts ?db)" "find_by ls_id (at_logicalStepId a) (d_steps ?db) = Some l"
      using canonical(1,6) find_by_Some [OF canonical(7)] by (simp_all add: received_def)
    from canonical_applied [OF received_keys [OF assms(1)] this(1,2) canonical(2,9,10,3,4) this(3) canonical(8)]
    show ?thesis .
  qed auto
  with assms(3,4) show "has_applied en' db' result e s" by (simp add: has_applied_def)
qed

text \<open>A different result for an invocation that has its result is only recorded: the delivery ends as a
  conflict, adds at most one conflict row, which carries its hash, and changes nothing else.\<close>

theorem conflicting_result_recorded:
  assumes "keys_ok db" and "a \<in> set (d_attempts db)" and "JStr (at_invocationId a) = getp result ''invocationId''"
    and "find_by ib_invocationId (at_invocationId a) (d_inbox db) = Some inbox"
    and "ib_hash inbox \<noteq> sha256Json (en_sha en) (en_coll en) result"
    and "JStr (at_executionId a) = getp result ''executionId''" "JStr (at_logicalStepId a) = getp result ''stepExecutionId''"
    and "durableTransportIdentity (en_sha en) t = Inr source"
  shows "\<exists>cs. apply_result en db result t = Inr (db\<lparr>d_conflicts := d_conflicts db @ cs\<rparr>, RConflict) \<and>
    (cs = [] \<or> (\<exists>c. cs = [c] \<and> cf_hash c = sha256Json (en_sha en) (en_coll en) result \<and> cf_inbox c = ib_id inbox))"
proof -
  have "received en db a result source = db" by (simp add: received_def insert_inbox_again [OF assms(4)])
  then have run: "apply_result en db result t = Inr (add_conflict en db a inbox result source, RConflict)"
    using assms by (simp add: apply_result_def find_attempt keys_ok_def apply_locked_def)
  obtain cs where cs: "cs = [] \<or> (\<exists>c. cs = [c] \<and> cf_hash c = sha256Json (en_sha en) (en_coll en) result \<and> cf_inbox c = ib_id inbox)"
    "add_conflict en db a inbox result source = db\<lparr>d_conflicts := d_conflicts db @ cs\<rparr>"
  proof (rule that)
    let ?c = "\<lparr>cf_invocationId = at_invocationId a, cf_inbox = ib_id inbox, cf_hash = sha256Json (en_sha en) (en_coll en) result,
       cf_payload = result, cf_source = source, cf_receivedAt = en_now en\<rparr>"
    let ?cs = "if \<exists>q \<in> set (d_conflicts db). same_delivery (cf_source q) (cf_source ?c) \<and> cf_hash q = cf_hash ?c then [] else [?c]"
    show "?cs = [] \<or> (\<exists>c. ?cs = [c] \<and> cf_hash c = sha256Json (en_sha en) (en_coll en) result \<and> cf_inbox c = ib_id inbox)"
      by simp
    show "add_conflict en db a inbox result source = db\<lparr>d_conflicts := d_conflicts db @ ?cs\<rparr>"
      by (simp add: add_conflict_def insert_conflict_def)
  qed
  with run show ?thesis by auto
qed

subsection \<open>A concrete delivery\<close>

definition ex_task :: attempt where
  "ex_task = ex_attempt\<lparr>at_id := ''t2'', at_logicalStepId := ''step:b'', at_invocationId := ''i2'', at_status := ARunning\<rparr>"

definition ex_transport :: transport where
  "ex_transport = \<lparr>tm_adapter = ''http'', tm_topic = None, tm_partition = None, tm_offset = None,
     tm_keyId = Some ''k'', tm_deliveryId = Some ''d''\<rparr>"

definition ex_result :: "string \<Rightarrow> jsv" where
  "ex_result out = JObj [(''invocationId'', JStr ''i2''), (''executionId'', JStr ''e''),
     (''stepExecutionId'', JStr ''step:b''), (''status'', JStr ''succeeded''), (''output'', JStr out)]"

definition ex_task_db :: runtime_db where
  "ex_task_db = ex_plan_db\<lparr>d_attempts := [ex_attempt, ex_task]\<rparr>"

definition ex_inbox :: inbox_row where
  "ex_inbox = \<lparr>ib_id = ''n'', ib_invocationId = ''i2'', ib_attempt = ''t2'', ib_hash = ''h'', ib_payload = JNull,
     ib_source = \<lparr>ti_adapter = ''kafka'', ti_scope = None, ti_messageId = None\<rparr>, ib_status = IApplied,
     ib_receivedAt = 0, ib_appliedAt = Some 0, ib_error = None\<rparr>"

definition ex_done_db :: runtime_db where
  "ex_done_db = ex_task_db\<lparr>d_inbox := [ex_inbox]\<rparr>"

lemma ex_delivery: "case apply_result ex_env ex_task_db (ex_result ''x'') ex_transport of
    Inr (db', RApplied e s) \<Rightarrow> e = ''e'' \<and> s = ''b'' | _ \<Rightarrow> False"
  by code_simp

lemma ex_delivery_run:
  obtains db' where "apply_result ex_env ex_task_db (ex_result ''x'') ex_transport = Inr (db', RApplied ''e'' ''b'')"
  using ex_delivery by (auto split: sum.splits prod.splits application.splits)

lemma ex_task_keys: "keys_ok ex_task_db" "keys_ok ex_done_db"
  by code_simp+

lemma ex_transport_identity: "\<exists>source. durableTransportIdentity (en_sha ex_env) ex_transport = Inr source"
  by (simp add: ex_transport_def durableTransportIdentity_def too_long_def MAX_SOURCE_ADAPTER_LENGTH_def
    MAX_SOURCE_SCOPE_LENGTH_def MAX_SOURCE_MESSAGE_ID_LENGTH_def)

theorem redelivery_is_duplicate_witness:
  "\<exists>db'. apply_result ex_env ex_task_db (ex_result ''x'') ex_transport = Inr (db', RApplied ''e'' ''b'') \<and>
     apply_result (ex_env\<lparr>en_now := 9\<rparr>) db' (ex_result ''x'') ex_transport = Inr (db', RDuplicate ''e'' ''b'')"
proof -
  obtain db' where run: "apply_result ex_env ex_task_db (ex_result ''x'') ex_transport = Inr (db', RApplied ''e'' ''b'')"
    by (rule ex_delivery_run)
  obtain source where "durableTransportIdentity (en_sha (ex_env\<lparr>en_now := 9\<rparr>)) ex_transport = Inr source"
    using ex_transport_identity by auto
  from run redelivery_is_duplicate [OF ex_task_keys(1) run _ _ this] show ?thesis by auto
qed

theorem conflicting_result_recorded_witness:
  "\<exists>cs. apply_result ex_env ex_done_db (ex_result ''x'') ex_transport =
     Inr (ex_done_db\<lparr>d_conflicts := d_conflicts ex_done_db @ cs\<rparr>, RConflict)"
proof -
  obtain source where source: "durableTransportIdentity (en_sha ex_env) ex_transport = Inr source"
    using ex_transport_identity by blast
  have "ib_hash ex_inbox \<noteq> sha256Json (en_sha ex_env) (en_coll ex_env) (ex_result ''x'')" by code_simp
  from conflicting_result_recorded [OF ex_task_keys(2) _ _ _ this _ _ source, of ex_task] show ?thesis
    by (auto simp: ex_done_db_def ex_task_db_def ex_task_def ex_attempt_def ex_result_def ex_inbox_def find_by_def)
qed

end
