(* ===== verification/Runtime_Soundness.thy ===== *)
theory Runtime_Soundness
  imports ResultInbox_Properties
begin

text \<open>
  The invariant of the runtime tables as a whole (\<open>runtime_ok\<close>), the interface that each service offers to the
  others (locale \<open>runtime_service\<close>: a committed transaction keeps the invariant and the facts), and its
  instances for the plan proposals and the result inbox.
\<close>

subsection \<open>The invariant\<close>

definition states_ok :: "runtime_db \<Rightarrow> bool" where
  "states_ok db \<longleftrightarrow> list_all (\<lambda>x. state_ok (run_state x)) (d_runs db)"

definition evidence_ok :: "runtime_db \<Rightarrow> bool" where
  "evidence_ok db \<longleftrightarrow> list_all (\<lambda>e. \<exists>r \<in> set (d_inbox db). ib_id r = ev_inbox e \<and> ib_status r = IApplied) (d_evidence db)"

definition runtime_ok :: "(string \<Rightarrow> string \<Rightarrow> bool) \<Rightarrow> runtime_db \<Rightarrow> bool" where
  "runtime_ok coll db \<longleftrightarrow> keys_ok db \<and> plans_ok coll db \<and> ledger_ok (d_ledger db) \<and> states_ok db \<and> evidence_ok db"

lemma runtime_okD:
  assumes "runtime_ok coll db"
  shows "keys_ok db" "plans_ok coll db" "ledger_ok (d_ledger db)" "states_ok db" "evidence_ok db"
  using assms by (simp_all add: runtime_ok_def)

text \<open>What the invariant reads of a row.\<close>

definition run_view :: "run_row \<Rightarrow> string \<times> string option" where
  "run_view x = (x_id x, xr_activeRevision x)"

definition step_view :: "logical_step \<Rightarrow> string \<times> string \<times> string" where
  "step_view l = (ls_id l, ls_executionId l, ls_stepId l)"

lemma plans_ok_frame:
  assumes ok: "plans_ok coll db" and same: "d_revisions db' = d_revisions db"
      "map pr_id (d_proposals db') = map pr_id (d_proposals db)" "map pr_patch (d_proposals db') = map pr_patch (d_proposals db)"
    and runs: "run_view ` set (d_runs db') \<subseteq> run_view ` set (d_runs db)"
    and steps: "step_view ` set (d_steps db) \<subseteq> step_view ` set (d_steps db')"
  shows "plans_ok coll db'"
proof -
  have mat: "materialized db' e ss" if m: "materialized db e ss" for e ss
    unfolding materialized_def
  proof
    fix s
    assume "s \<in> set ss"
    with m obtain l where l: "l \<in> set (d_steps db)" "ls_executionId l = e" "ls_stepId l = st_id s"
      by (auto simp: materialized_def)
    then have "step_view l \<in> step_view ` set (d_steps db')" using steps by blast
    with l show "\<exists>l \<in> set (d_steps db'). ls_executionId l = e \<and> ls_stepId l = st_id s"
      by (auto simp: step_view_def)
  qed
  have "run_ok db' x'" if "x' \<in> set (d_runs db')" for x'
  proof -
    from that runs obtain x where x: "x \<in> set (d_runs db)" "run_view x' = run_view x" by blast
    with ok have "run_ok db x" by (simp add: plans_ok_iff)
    with x(2) show ?thesis using mat by (auto simp: run_ok_def run_view_def same(1) split: option.splits)
  qed
  with ok show ?thesis by (simp add: plans_ok_iff patches_ok_def same)
qed

lemma view_save:
  assumes "distinct (map k rows)" and "y \<in> set rows" and "k x = k y" and "f x = f y"
  shows "f ` set (save_by k x rows) = f ` set rows"
  using arg_cong [OF map_save_same [OF assms(1-3), of f, OF assms(4)], of set] by simp

lemma in_save_other: "y \<in> set rows \<Longrightarrow> k y \<noteq> k x \<Longrightarrow> y \<in> set (save_by k x rows)"
  by (auto simp: save_by_def set_update_where)

lemma in_save_self: "y \<in> set rows \<Longrightarrow> k y = k x \<Longrightarrow> x \<in> set (save_by k x rows)"
  by (auto simp: save_by_def set_update_where)

lemma view_update: "(\<And>r. f (g r) = f r) \<Longrightarrow> f ` set (update_where P g rows) = f ` set rows"
  by (metis map_update_where set_map)

lemma states_ok_save: "states_ok db \<Longrightarrow> state_ok (run_state x) \<Longrightarrow> d_runs db' = save_by x_id x (d_runs db) \<Longrightarrow> states_ok db'"
  by (auto simp: states_ok_def list_all_iff dest: in_save_by)

lemma evidence_ok_mono:
  assumes "evidence_ok db" and "keeps (\<lambda>r. ib_status r = IApplied) (d_inbox db) (d_inbox db')"
    and "d_evidence db' = d_evidence db"
  shows "evidence_ok db'"
  using assms unfolding evidence_ok_def list_all_iff keeps_def by metis

lemma evidence_ok_extend:
  assumes "evidence_ok db" and "r \<in> set (d_inbox db')"
    and "keeps (\<lambda>r. ib_status r = IApplied) (d_inbox db) (d_inbox db')"
    and "d_evidence db' = d_evidence db @ es" and "\<forall>e \<in> set es. ev_inbox e = ib_id r" and "ib_status r = IApplied"
  shows "evidence_ok db'"
proof -
  have "\<exists>r \<in> set (d_inbox db'). ib_id r = ev_inbox e \<and> ib_status r = IApplied" if e: "e \<in> set (d_evidence db')" for e
  proof (cases "e \<in> set es")
    case True
    with assms(2,5,6) show ?thesis by auto
  next
    case False
    with e assms(4) have "e \<in> set (d_evidence db)" by simp
    with assms(1,3) show ?thesis unfolding evidence_ok_def list_all_iff keeps_def by metis
  qed
  then show ?thesis by (simp add: evidence_ok_def list_all_iff)
qed

subsection \<open>The interface of a service\<close>

text \<open>
  A service is a function from the environment, the database and a request to an error, which rolls the
  transaction back, or to the database after the commit.
\<close>

locale runtime_service =
  fixes tx :: "env \<Rightarrow> runtime_db \<Rightarrow> 'q \<Rightarrow> runtime_error + runtime_db"
  assumes tx_ok: "runtime_ok (en_coll en) db \<Longrightarrow> tx en db q = Inr db' \<Longrightarrow> runtime_ok (en_coll en) db'"
    and tx_kept: "runtime_ok (en_coll en) db \<Longrightarrow> tx en db q = Inr db' \<Longrightarrow> facts_kept db db'"
begin

definition call :: "(string \<Rightarrow> string \<Rightarrow> bool) \<Rightarrow> runtime_db \<Rightarrow> env \<times> 'q \<Rightarrow> runtime_error + runtime_db" where
  "call coll db eq = (if en_coll (fst eq) = coll then tx (fst eq) db (snd eq) else Inr db)"

sublocale calls: tx_machine "call coll" "runtime_ok coll" for coll
  by unfold_locales (auto simp: call_def tx_ok split: if_splits)

lemma call_kept: "runtime_ok coll db \<Longrightarrow> facts_kept db (case call coll db q of Inl _ \<Rightarrow> db | Inr db' \<Rightarrow> db')"
  using tx_kept [of "fst q" db "snd q"] by (auto simp: call_def split: sum.split)

lemma call_ok: "runtime_ok coll db \<Longrightarrow> runtime_ok coll (case call coll db q of Inl _ \<Rightarrow> db | Inr db' \<Rightarrow> db')"
  using tx_ok [of "fst q" db "snd q"] by (auto simp: call_def split: sum.split)

lemma calls_kept: "runtime_ok coll db \<Longrightarrow> facts_kept db (run_tx (call coll) db qs)"
proof (induction qs arbitrary: db)
  case (Cons q qs)
  let ?db = "case call coll db q of Inl _ \<Rightarrow> db | Inr db' \<Rightarrow> db'"
  from Cons.IH [OF call_ok [OF Cons.prems, of q]] call_kept [OF Cons.prems, of q]
  show ?case by (simp add: facts_kept_trans [of db ?db])
qed simp

end

subsection \<open>Plan proposals\<close>

datatype proposal_call =
    Propose string jsv string
  | Activate "activation option" runtime_db string

fun proposal_tx :: "env \<Rightarrow> runtime_db \<Rightarrow> proposal_call \<Rightarrow> runtime_error + runtime_db" where
  "proposal_tx en db (Propose e patch source) = bindE (propose en db e patch source) (\<lambda>(db', p). Inr db')"
| "proposal_tx en db (Activate late seen i) = bindE (activateWithManager en late seen db i) (\<lambda>(db', out). Inr db')"

lemma insertProposal_sound:
  assumes ins: "insertProposal en db e patch source = Inr (db', q)"
  shows "facts_kept db db'" and "keys_ok db \<Longrightarrow> keys_ok db'" and "d_ledger db' = d_ledger db"
    and "states_ok db \<Longrightarrow> states_ok db'" and "evidence_ok db \<Longrightarrow> evidence_ok db'"
  using insertProposal_Inr [OF ins]
  by (auto simp: facts_kept_def keys_ok_def states_ok_def evidence_ok_def)

lemma propose_sound:
  assumes "propose en db e patch source = Inr (db', q)" and ok: "runtime_ok (en_coll en) db"
  shows "facts_kept db db' \<and> runtime_ok (en_coll en) db'"
proof -
  from assms(1) obtain p where "insertProposal en db e p source = Inr (db', q)"
    by (auto simp: propose_def bindE_Inr_iff split: option.splits)
  from insertProposal_sound [OF this] plans_ok_propose [OF runtime_okD(2) [OF ok] assms(1)] ok
  show ?thesis by (simp add: runtime_ok_def)
qed

text \<open>An activation that decides or waits changes proposals, policy rows and approval requests only.\<close>

lemma same_plan_sound:
  assumes same: "same_plan db db'" and ok: "keys_ok db" "states_ok db" "evidence_ok db"
    and kept: "keeps (\<lambda>p. pr_status p \<noteq> PPending) (d_proposals db) (d_proposals db')"
  shows "facts_kept db db'" and "keys_ok db'" "d_ledger db' = d_ledger db" "states_ok db'" "evidence_ok db'"
  using assms by (auto simp: same_plan_def approvals_grow_def facts_kept_def keys_ok_def states_ok_def evidence_ok_def keeps_def)

lemma install_sound:
  assumes inst: "install en late db x active p steps = Inr (db', out)" and x: "x \<in> set (d_runs db)" "is_live x"
    and ok: "keys_ok db" "states_ok db" "evidence_ok db"
  shows "facts_kept db db'" and "keys_ok db'" "d_ledger db' = d_ledger db" "states_ok db'" "evidence_ok db'"
proof -
  let ?db = "db\<lparr>d_revisions := d_revisions db', d_runs := d_runs db', d_steps := d_steps db'\<rparr>"
  let ?x = "x\<lparr>xr_activeRevision := Some (rv_id (new_revision en active p steps))\<rparr>"
  note parts = install_Inr [OF inst]
  from ok(1) have ids: "distinct (map x_id (d_runs db))" "distinct (map ls_id (d_steps db))" by (auto simp: keys_ok_def)
  have "keeps (\<lambda>x. \<not> is_live x) (d_runs db) (d_runs db')"
    unfolding parts(4) using x by (intro keeps_save [OF ids(1)]) auto
  then have "facts_kept db ?db" by (simp add: facts_kept_def parts(2))
  moreover have "keys_ok ?db" using ok(1) parts(11) [OF ids(2)] by (simp add: keys_ok_def parts(4) map_save_by)
  moreover have "states_ok ?db"
  proof (rule states_ok_save)
    show "states_ok db" by (fact ok(2))
    show "state_ok (run_state ?x)" using ok(2) x(1) by (simp add: states_ok_def list_all_iff run_state_def)
  qed (simp add: parts(4))
  moreover have "evidence_ok ?db" using ok(3) by (simp add: evidence_ok_def)
  moreover have "keeps (\<lambda>p. pr_status p \<noteq> PPending) (d_proposals ?db) (d_proposals db')"
    using parts(9) by (simp add: keeps_def)
  ultimately show "facts_kept db db'" and "keys_ok db'" "d_ledger db' = d_ledger db" "states_ok db'" "evidence_ok db'"
    using same_plan_sound [OF parts(10)] facts_kept_trans [of db ?db db'] by simp_all
qed

lemma activate_sound:
  assumes run: "activateWithManager en late seen db i = Inr (db', out)" and ok: "runtime_ok (en_coll en) db"
  shows "facts_kept db db' \<and> runtime_ok (en_coll en) db'"
proof -
  note invs = runtime_okD [OF ok]
  have "facts_kept db db' \<and> keys_ok db' \<and> d_ledger db' = d_ledger db \<and> states_ok db' \<and> evidence_ok db'"
    using run
  proof (cases rule: activateWithManager_cases)
    case already
    with invs show ?thesis by simp
  next
    case (pending p)
    from pending(4) show ?thesis
    proof (cases rule: activate_locked_cases)
      case (reject st reason db1)
      have "keeps (\<lambda>p. pr_status p \<noteq> PPending) (d_proposals db) (d_proposals db')"
        using decide_keeps_decided [OF reject(4)] by (simp add: keeps_def reject(2))
      from same_plan_sound [OF same_plan_trans [OF reject(1) decide_same_plan [OF reject(4)]] invs(1,4,5) this]
      show ?thesis by simp
    next
      case waits
      with same_plan_sound [OF waits(1) invs(1,4,5)] show ?thesis by simp
    next
      case (installs x active cand steps db1)
      note g = policy_gate_effect [OF installs(7)]
      have "keeps (\<lambda>p. pr_status p \<noteq> PPending) (d_proposals db) (d_proposals db1)" by (simp add: g(2))
      note s1 = same_plan_sound [OF g(1) invs(1,4,5) this]
      have "x \<in> set (d_runs db1)" using find_run [OF installs(1)] g(1) by (simp add: same_plan_def)
      from install_sound [OF installs(9) this installs(2) s1(2,4,5)] s1(1,3) show ?thesis
        using facts_kept_trans by auto
    qed
  qed
  with plans_ok_activateWithManager [OF invs(2) run] invs(3) show ?thesis by (simp add: runtime_ok_def)
qed

interpretation proposals: runtime_service proposal_tx
proof
  fix en db and q :: proposal_call and db'
  assume "runtime_ok (en_coll en) db" "proposal_tx en db q = Inr db'"
  then have "facts_kept db db' \<and> runtime_ok (en_coll en) db'"
    using propose_sound activate_sound by (cases q) (auto simp: bindE_Inr_iff)
  then show "runtime_ok (en_coll en) db'" "facts_kept db db'" by auto
qed

subsection \<open>The result inbox\<close>

fun inbox_tx :: "env \<Rightarrow> runtime_db \<Rightarrow> jsv \<times> transport \<Rightarrow> runtime_error + runtime_db" where
  "inbox_tx en db (result, t) = bindE (apply_result en db result t) (\<lambda>(db', out). Inr db')"

lemma settled_run_views [simp]:
  "x_state (settled_run en x config result v l) = x_state x" "x_version (settled_run en x config result v l) = x_version x"
  "xr_activeRevision (settled_run en x config result v l) = xr_activeRevision x"
  by (simp_all add: settled_run_def)

lemma run_state_settled [simp]: "run_state (settled_run en x config result v l) = run_state x"
  by (simp add: run_state_def)

lemma run_state_written [simp]: "run_state (written en x state) = state"
  "x_version (written en x state) = x_version x + 1" "xr_activeRevision (written en x state) = xr_activeRevision x"
  by (simp_all add: written_def run_state_def)

lemma write_applied_state_ok:
  assumes "write_applied en x x' w" and "state_ok (run_state x)"
  shows "state_ok (run_state x')"
  using assms patched_state_ok [OF assms(2)] by (auto simp: write_applied_def)

lemma write_state_state_ok:
  assumes "write_state en db x config result = (db', x', v)" and "state_ok (run_state x)"
  shows "state_ok (run_state x')"
  using write_state_effect [OF assms(1)] write_applied_state_ok [OF _ assms(2)] assms(2) by auto

lemma received_sound:
  assumes "runtime_ok coll db"
  shows "runtime_ok coll (received en db a result source)"
proof -
  let ?db = "received en db a result source"
  note invs = runtime_okD [OF assms]
  have "plans_ok coll ?db" by (rule plans_ok_frame [OF invs(2)]) (simp_all add: received_def)
  moreover have "evidence_ok ?db" by (rule evidence_ok_mono [OF invs(5)]) (simp_all add: received_def)
  ultimately show ?thesis
    using invs received_keys [OF invs(1)] by (simp add: runtime_ok_def) (simp add: received_def states_ok_def)
qed

lemma conflict_sound:
  assumes "runtime_ok coll db"
  shows "runtime_ok coll (add_conflict en db a inbox result source)"
proof -
  let ?db = "add_conflict en db a inbox result source"
  note invs = runtime_okD [OF assms]
  have "plans_ok coll ?db" by (rule plans_ok_frame [OF invs(2)]) (simp_all add: add_conflict_def)
  with invs show ?thesis by (simp add: runtime_ok_def) (simp add: add_conflict_def states_ok_def evidence_ok_def)
qed

lemma reject_sound:
  assumes ok: "runtime_ok coll db" and inbox: "inbox \<in> set (d_inbox db)" "ib_status inbox \<noteq> IApplied"
    and keys: "keys_ok (reject_inbox db inbox msg)"
  shows "runtime_ok coll (reject_inbox db inbox msg)"
proof -
  let ?db = "reject_inbox db inbox msg"
  note invs = runtime_okD [OF ok]
  have "plans_ok coll ?db" by (rule plans_ok_frame [OF invs(2)]) (simp_all add: reject_inbox_def)
  moreover have "evidence_ok ?db"
    using inbox invs(1) by (intro evidence_ok_mono [OF invs(5)]) (auto simp: reject_inbox_def keys_ok_def intro!: keeps_save)
  ultimately show ?thesis using invs keys by (simp add: runtime_ok_def) (simp add: reject_inbox_def states_ok_def)
qed

lemma applied_plans_ok:
  assumes ok: "plans_ok coll db" "keys_ok db" and x: "x \<in> set (d_runs db)" and l: "l \<in> set (d_steps db)"
    and w: "write_state en db x config result = (db1, x1, v1)"
    and pr: "propose_plan en db1 x1 config a result v1 = Inr (db2, v)"
    and rows: "d_revisions db' = d_revisions db"
      "d_runs db' = save_by x_id (settled_run en x1 config result v l') (d_runs db)"
      "d_steps db' = save_by ls_id (settled_step en x1 config a result v l) (d_steps db)"
    and ps: "d_proposals db' = d_proposals db \<or>
      (\<exists>p. proposeWithManager en db1 (x_id x1) (getp result ''output'') ''planner'' = Inr (db2, p) \<and>
           d_proposals db' = d_proposals db @ [p])"
  shows "plans_ok coll db'"
proof -
  from ok(2) have ids: "distinct (map x_id (d_runs db))" "distinct (map ls_id (d_steps db))" by (auto simp: keys_ok_def)
  note run = write_state_saved [OF w x ids(1)]
  have views: "run_view ` set (d_runs db') = run_view ` set (d_runs db)"
    "run_view ` set (d_runs db1) = run_view ` set (d_runs db)"
    "step_view ` set (d_steps db') = step_view ` set (d_steps db)"
    using run(2) by (auto simp: rows run(1) run_view_def step_view_def intro!: view_save [OF ids(1) x] view_save [OF ids(2) l])
  have ok1: "plans_ok coll db1"
    by (rule plans_ok_frame [OF ok(1)]) (use views(2) in \<open>simp_all add: run(1)\<close>)
  from ps show ?thesis
  proof
    assume "d_proposals db' = d_proposals db"
    with views show ?thesis by (intro plans_ok_frame [OF ok(1)]) (simp_all add: rows(1))
  next
    assume "\<exists>p. proposeWithManager en db1 (x_id x1) (getp result ''output'') ''planner'' = Inr (db2, p) \<and>
      d_proposals db' = d_proposals db @ [p]"
    then obtain p where p: "proposeWithManager en db1 (x_id x1) (getp result ''output'') ''planner'' = Inr (db2, p)"
      "d_proposals db' = d_proposals db @ [p]" by blast
    note db2 = proposeWithManager_effect [OF p(1)]
    show ?thesis
      by (rule plans_ok_frame [OF plans_ok_proposeWithManager [OF ok1 p(1)]])
        (use views in \<open>simp_all add: rows(1) p(2) db2 run(1)\<close>)
  qed
qed

lemma canonical_sound:
  assumes ok: "runtime_ok (en_coll en) db" and inbox: "inbox \<in> set (d_inbox db)" "ib_status inbox \<noteq> IApplied"
    and a: "a \<in> set (d_attempts db)" and x: "x \<in> set (d_runs db)" and l: "l \<in> set (d_steps db)"
    and run: "apply_canonical en db a inbox l x result = Inr (db', out)"
  shows "runtime_ok (en_coll en) db'"
  using run
proof (cases rule: apply_canonical_cases)
  case (rejected msg)
  with canonical_keys [OF runtime_okD(1) [OF ok] inbox(1) x l run] reject_sound [OF ok inbox] show ?thesis by simp
next
  case (applied db1 x1 v1 db2 v db3)
  note invs = runtime_okD [OF ok]
  from invs(1) have ids: "distinct (map x_id (d_runs db))" by (auto simp: keys_ok_def)
  note rows = applied_rows [OF applied(3-6) x ids]
  have "plans_ok (en_coll en) db'" by (rule applied_plans_ok [OF invs(2,1) x l applied(3,4) rows(5,4,2,11)])
  moreover have "ledger_ok (d_ledger db')" using rows(12) invs(3) ledger_ok_reconcileTerminal by auto
  moreover have "state_ok (run_state x)" using invs(4) x by (simp add: states_ok_def list_all_iff)
  then have "states_ok db'"
    using write_state_state_ok [OF applied(3)] rows(4) by (intro states_ok_save [OF invs(4)]) auto
  moreover have "evidence_ok db'"
  proof -
    let ?done = "inbox\<lparr>ib_status := IApplied, ib_appliedAt := Some (en_now en), ib_error := vd_failure v\<rparr>"
    have "?done \<in> set (d_inbox db')" using inbox(1) by (force simp: rows(1) save_by_def update_where_def)
    moreover have "keeps (\<lambda>r. ib_status r = IApplied) (d_inbox db) (d_inbox db')"
      using canonical_kept [OF invs(1) inbox a x run] by (simp add: facts_kept_def)
    moreover obtain es where es: "d_evidence db' = d_evidence db @ es" "\<forall>e \<in> set es. ev_inbox e = ib_id inbox"
      using rows(13) by (auto simp: evidences_def)
    ultimately show ?thesis using evidence_ok_extend [OF invs(5), of ?done db' es] by simp
  qed
  ultimately show ?thesis
    using canonical_keys [OF invs(1) inbox(1) x l run] by (simp add: runtime_ok_def)
qed

lemma apply_result_sound:
  assumes run: "apply_result en db result t = Inr (db', out)" and ok: "runtime_ok (en_coll en) db"
  shows "runtime_ok (en_coll en) db'"
  using run
proof (cases rule: apply_result_cases)
  case ignored
  with ok show ?thesis by simp
next
  case (recorded a source inbox)
  with ok show ?thesis by (simp add: conflict_sound received_sound)
next
  case (duplicate a source inbox l)
  with ok show ?thesis by (simp add: received_sound)
next
  case (canonical a source inbox l x)
  let ?db = "received en db a result source"
  have "inbox \<in> set (d_inbox ?db)" "a \<in> set (d_attempts ?db)" "x \<in> set (d_runs ?db)" "l \<in> set (d_steps ?db)"
    using find_by_Some [OF canonical(3)] canonical(1) find_by_Some [OF canonical(6)] find_by_Some [OF canonical(7)]
    by (simp_all add: received_def)
  from canonical_sound [OF received_sound [OF ok] this(1) canonical(5) this(2-4) canonical(8)] show ?thesis .
qed

interpretation inbox: runtime_service inbox_tx
proof
  fix en db and q :: "jsv \<times> transport" and db'
  assume ok: "runtime_ok (en_coll en) db" and "inbox_tx en db q = Inr db'"
  then obtain out where "apply_result en db (fst q) (snd q) = Inr (db', out)"
    by (cases q) (auto simp: bindE_Inr_iff)
  then show "runtime_ok (en_coll en) db'" "facts_kept db db'"
    using apply_result_sound [OF _ ok] apply_result_invs(1) [OF runtime_okD(1) [OF ok]] by blast+
qed

subsection \<open>State changes are accounted for\<close>

definition state_changed :: "runtime_db \<Rightarrow> runtime_db \<Rightarrow> run_row \<Rightarrow> run_row \<Rightarrow> bool" where
  "state_changed db db' x x' \<longleftrightarrow> x_status x = Running \<and> x_version x' = x_version x + 1 \<and> state_ok (run_state x') \<and>
     (\<exists>es. d_evidence db' = d_evidence db @ es \<and> (\<exists>e \<in> set es. ev_execution e = x_id x \<and>
        ev_disposition e = WApplied \<and> ev_prior e = x_version x \<and> ev_result e = x_version x'))"

definition state_same :: "run_row \<Rightarrow> run_row \<Rightarrow> bool" where
  "state_same x x' \<longleftrightarrow> run_state x' = run_state x \<and> x_version x' = x_version x"

lemma state_changed_received [simp]: "state_changed (received en db a result source) db' = state_changed db db'"
  by (simp add: fun_eq_iff state_changed_def received_def)

lemma fresh_inbox_evidence:
  assumes "evidence_ok db" and "distinct (map ib_id (d_inbox db))" and "inbox \<in> set (d_inbox db)" "ib_status inbox \<noteq> IApplied"
  shows "ib_id inbox \<notin> ev_inbox ` set (d_evidence db)"
proof
  assume "ib_id inbox \<in> ev_inbox ` set (d_evidence db)"
  then obtain r where "r \<in> set (d_inbox db)" "ib_id inbox = ib_id r" "ib_status r = IApplied"
    using assms(1) unfolding evidence_ok_def list_all_iff by auto
  with distinct_map_eq [OF assms(2,3)] assms(4) show False by blast
qed

lemma canonical_state:
  assumes ok: "runtime_ok (en_coll en) db" and inbox: "inbox \<in> set (d_inbox db)" "ib_status inbox \<noteq> IApplied"
    and x: "x \<in> set (d_runs db)" and run: "apply_canonical en db a inbox l x result = Inr (db', out)" and y: "y \<in> set (d_runs db)"
  shows "\<exists>y' \<in> set (d_runs db'). x_id y' = x_id y \<and> (state_same y y' \<or> state_changed db db' y y')"
  using run
proof (cases rule: apply_canonical_cases)
  case (rejected msg)
  with y show ?thesis by (intro bexI [of _ y]) (auto simp: reject_inbox_def state_same_def)
next
  case (applied db1 x1 v1 db2 v db3)
  note invs = runtime_okD [OF ok]
  from invs(1) have ids: "distinct (map x_id (d_runs db))" "distinct (map ib_id (d_inbox db))" by (auto simp: keys_ok_def)
  note rows = applied_rows [OF applied(3-6) x ids(1)]
  let ?x = "settled_run en x1 (step_config db a l) result v (settled_step en x1 (step_config db a l) a result v l)"
  note run1 = write_state_saved(2) [OF applied(3) x ids(1)]
  show ?thesis
  proof (cases "x_id y = x_id x")
    case False
    then have "y \<in> set (d_runs db')" unfolding rows(4) using run1 by (intro in_save_other [OF y]) auto
    then show ?thesis by (intro bexI [of _ y]) (simp_all add: state_same_def)
  next
    case True
    with distinct_map_eq [OF ids(1) y x] have [simp]: "y = x" by simp
    have "?x \<in> set (d_runs db')" unfolding rows(4) using run1 by (intro in_save_self [OF x]) auto
    moreover have "state_same x ?x \<or> state_changed db db' x ?x"
      using write_state_effect [OF applied(3)]
    proof (elim disjE conjE exE)
      fix w
      assume w: "x_status x = Running" "vd_write v1 = Some w" "write_applied en x x1 w"
      with propose_plan_effect(1) [OF applied(4)] have "vd_write v = Some w" by simp
      moreover obtain es where "d_evidence db' = d_evidence db @ es" "evidences x inbox v (d_evidence db) es"
        using rows(13) by blast
      ultimately obtain e where e: "d_evidence db' = d_evidence db @ [e]" "ev_execution e = x_id x"
          "ev_disposition e = wa_disposition w" "ev_prior e = wa_prior w" "ev_result e = wa_result w"
        using fresh_inbox_evidence [OF invs(5) ids(2) inbox] by (auto simp: evidences_def)
      have "state_ok (run_state x)" using invs(4) x by (simp add: states_ok_def list_all_iff)
      with write_applied_state_ok [OF w(3)] w e show ?thesis by (auto simp: state_changed_def write_applied_def)
    qed (simp add: state_same_def)
    ultimately show ?thesis using run1 by (intro bexI [of _ ?x]) auto
  qed
qed

text \<open>C14: a delivery accounts for every state it changes: a run keeps its state and version, or it was running,
  its version goes up by one, its new state is within the bounds, and exactly the evidence of that write, with
  the version before and after, is added.\<close>

theorem delivery_accounts_state:
  assumes ok: "runtime_ok (en_coll en) db" and run: "apply_result en db result t = Inr (db', out)"
    and y: "y \<in> set (d_runs db)"
  shows "\<exists>y' \<in> set (d_runs db'). x_id y' = x_id y \<and> (state_same y y' \<or> state_changed db db' y y')"
  using run
proof (cases rule: apply_result_cases)
  case (canonical a source inbox l x)
  let ?db = "received en db a result source"
  have "inbox \<in> set (d_inbox ?db)" "x \<in> set (d_runs ?db)" "y \<in> set (d_runs ?db)"
    using find_by_Some [OF canonical(3)] find_by_Some [OF canonical(7)] y by (simp_all add: received_def)
  from canonical_state [OF received_sound [OF ok] this(1) canonical(5) this(2) canonical(8) this(3)]
  show ?thesis by simp
qed (use y in \<open>auto simp: state_same_def received_def add_conflict_def\<close>)

lemma state_ok_empty: "state_ok []"
  by (simp add: state_ok_def json_bytes_def maxStateBytes_def)

lemma ex_empty_ledger: "ledger_ok \<lparr>accounts = [], reservations = [], ledger = []\<rparr>"
  by (simp add: ledger_ok_def solvent_def settled_ok_def accounts_wf_def)

lemma ex_task_sound: "runtime_ok (en_coll ex_env) ex_task_db"
proof -
  have "plans_ok ex_coll ex_task_db" by code_simp
  moreover have "d_ledger ex_task_db = \<lparr>accounts = [], reservations = [], ledger = []\<rparr>" "d_evidence ex_task_db = []"
    "d_runs ex_task_db = [ex_run]" by (simp_all add: ex_task_db_def ex_plan_db_def)
  ultimately show ?thesis using ex_task_keys(1) ex_empty_ledger state_ok_empty
    by (simp add: runtime_ok_def states_ok_def evidence_ok_def ex_env_def ex_run_def run_state_def)
qed

theorem delivery_accounts_state_witness:
  "\<exists>db'. apply_result ex_env ex_task_db (ex_result ''x'') ex_transport = Inr (db', RApplied ''e'' ''b'') \<and>
     (\<exists>y' \<in> set (d_runs db'). x_id y' = ''e'' \<and> (state_same ex_run y' \<or> state_changed ex_task_db db' ex_run y'))"
proof -
  obtain db' where run: "apply_result ex_env ex_task_db (ex_result ''x'') ex_transport = Inr (db', RApplied ''e'' ''b'')"
    by (rule ex_delivery_run)
  from delivery_accounts_state [OF ex_task_sound run, of ex_run] run show ?thesis
    by (auto simp: ex_task_db_def ex_plan_db_def ex_run_def)
qed

subsection \<open>A late result of an earlier attempt\<close>

text \<open>Attempt 1 of a step failed without its result (its dispatch was refused) and attempt 2 runs.\<close>

definition ex_retry_step :: step where
  "ex_retry_step = (ex_plan_step ''b'' (Some [''a'']) False)\<lparr>st_onFailure := Some (JStr ''retry'')\<rparr>"

definition ex_late_db :: runtime_db where
  "ex_late_db = ex_plan_db\<lparr>
     d_revisions := [ex_revision\<lparr>rv_steps := [ex_plan_step ''a'' None True, ex_retry_step]\<rparr>],
     d_steps := map (\<lambda>l. l\<lparr>ls_status := SRunning, ls_attempt := 2, ls_maxAttempts := 3\<rparr>) (d_steps ex_plan_db),
     d_attempts := [ex_attempt, ex_task\<lparr>at_status := AFailed\<rparr>,
       ex_task\<lparr>at_id := ''t3'', at_attemptNumber := 2, at_invocationId := ''i3''\<rparr>]\<rparr>"

definition ex_late_result :: jsv where
  "ex_late_result = JObj [(''invocationId'', JStr ''i2''), (''executionId'', JStr ''e''),
     (''stepExecutionId'', JStr ''step:b''), (''status'', JStr ''failed''),
     (''error'', JObj [(''code'', JStr ''C''), (''message'', JStr ''m'')])]"

lemma ex_late_sound: "runtime_ok ex_coll ex_late_db"
proof -
  have "plans_ok ex_coll ex_late_db" "keys_ok ex_late_db" by code_simp+
  moreover have "d_ledger ex_late_db = \<lparr>accounts = [], reservations = [], ledger = []\<rparr>" "d_evidence ex_late_db = []"
    "d_runs ex_late_db = [ex_run]" by (simp_all add: ex_late_db_def ex_plan_db_def)
  ultimately show ?thesis using ex_empty_ledger state_ok_empty
    by (simp add: runtime_ok_def states_ok_def evidence_ok_def ex_run_def run_state_def)
qed


end
