(* ===== verification/Runtime_Frame.thy ===== *)
theory Runtime_Frame
  imports Runtime_Soundness
begin

text \<open>
  Frame rules for the services that update rows in place: what the invariant reads of the tables (\<open>skeleton\<close>) is
  untouched by an update that keeps the keys, and an update of rows that are not yet final keeps the facts.
\<close>

named_theorems skeleton_simps \<open>updates in place keep the skeleton\<close>

definition skeleton :: "runtime_db \<Rightarrow> _" where
  "skeleton db = (map (\<lambda>x. (run_view x, x_state x)) (d_runs db), map (\<lambda>a. (at_id a, at_invocationId a)) (d_attempts db),
     map step_view (d_steps db), map ob_id (d_outbox db), d_revisions db, d_inbox db, d_evidence db,
     map (\<lambda>p. (pr_id p, pr_patch p)) (d_proposals db), map aq_proposalId (d_approvals db))"

lemma map_eq_image: "map f xs = map f ys \<Longrightarrow> f ` set xs = f ` set ys"
  by (metis set_map)

lemma map_pair_eq:
  assumes "map (\<lambda>x. (f x, g x)) xs = map (\<lambda>x. (f x, g x)) ys"
  shows "map f xs = map f ys \<and> map g xs = map g ys"
  using arg_cong [OF assms, of "map fst"] arg_cong [OF assms, of "map snd"] by (simp add: comp_def)

lemma map_comp_eq: "map f xs = map f ys \<Longrightarrow> map (h \<circ> f) xs = map (h \<circ> f) ys"
  by (metis map_map)

lemma skeleton_plans:
  assumes "skeleton db' = skeleton db" and "plans_ok coll db"
  shows "plans_ok coll db'"
  using assms(2)
proof (rule plans_ok_frame)
  from assms(1) have "map run_view (d_runs db') = map run_view (d_runs db)"
    "map pr_id (d_proposals db') = map pr_id (d_proposals db)" "map pr_patch (d_proposals db') = map pr_patch (d_proposals db)"
    "map step_view (d_steps db') = map step_view (d_steps db)" "d_revisions db' = d_revisions db"
    by (auto simp: skeleton_def dest!: map_pair_eq)
  then show "d_revisions db' = d_revisions db" "map pr_id (d_proposals db') = map pr_id (d_proposals db)"
    "map pr_patch (d_proposals db') = map pr_patch (d_proposals db)"
    "run_view ` set (d_runs db') \<subseteq> run_view ` set (d_runs db)" "step_view ` set (d_steps db) \<subseteq> step_view ` set (d_steps db')"
    using map_eq_image by blast+
qed

lemma skeleton_keys:
  assumes "skeleton db' = skeleton db" and "keys_ok db"
  shows "keys_ok db'"
proof -
  from assms(1) have "map run_view (d_runs db') = map run_view (d_runs db)"
    "map step_view (d_steps db') = map step_view (d_steps db)" "map at_id (d_attempts db') = map at_id (d_attempts db)"
    "map at_invocationId (d_attempts db') = map at_invocationId (d_attempts db)"
    "map ob_id (d_outbox db') = map ob_id (d_outbox db)" "d_inbox db' = d_inbox db"
    "map aq_proposalId (d_approvals db') = map aq_proposalId (d_approvals db)"
    by (auto simp: skeleton_def dest!: map_pair_eq)
  moreover from map_comp_eq [OF this(1), of fst] map_comp_eq [OF this(2), of fst]
  have "map x_id (d_runs db') = map x_id (d_runs db)" "map ls_id (d_steps db') = map ls_id (d_steps db)"
    by (simp_all add: run_view_def step_view_def comp_def)
  ultimately show ?thesis using assms(2) unfolding keys_ok_def by metis
qed

lemma skeleton_states:
  assumes "skeleton db' = skeleton db" and "states_ok db"
  shows "states_ok db'"
proof -
  from assms(1) have "map x_state (d_runs db') = map x_state (d_runs db)" by (auto simp: skeleton_def dest!: map_pair_eq)
  from map_comp_eq [OF this, of "\<lambda>s. state_ok (case s of None \<Rightarrow> [] | Some s \<Rightarrow> s)"]
  have "map (\<lambda>x. state_ok (run_state x)) (d_runs db') = map (\<lambda>x. state_ok (run_state x)) (d_runs db)"
    by (simp add: comp_def run_state_def)
  moreover have "list_all P rows \<longleftrightarrow> list_all id (map P rows)" for P :: "run_row \<Rightarrow> bool" and rows
    by (induction rows) auto
  ultimately show ?thesis using assms(2) unfolding states_ok_def by metis
qed

lemma skeleton_sound:
  assumes "skeleton db' = skeleton db" and "ledger_ok (d_ledger db')" and "runtime_ok coll db"
  shows "runtime_ok coll db'"
proof -
  note invs = runtime_okD [OF assms(3)]
  from assms(1) have "d_inbox db' = d_inbox db" "d_evidence db' = d_evidence db" by (auto simp: skeleton_def)
  with invs(5) have "evidence_ok db'" by (simp add: evidence_ok_def)
  with skeleton_plans [OF assms(1) invs(2)] skeleton_keys [OF assms(1) invs(1)] skeleton_states [OF assms(1) invs(4)] assms(2)
  show ?thesis by (simp add: runtime_ok_def)
qed

lemma skeleton_outbox [skeleton_simps]:
  "(\<And>b. ob_id (f b) = ob_id b) \<Longrightarrow> skeleton (db\<lparr>d_outbox := update_where P f (d_outbox db)\<rparr>) = skeleton db"
  by (simp add: skeleton_def map_update_where)

lemma skeleton_attempts [skeleton_simps]:
  "(\<And>a. at_id (f a) = at_id a) \<Longrightarrow> (\<And>a. at_invocationId (f a) = at_invocationId a) \<Longrightarrow>
     skeleton (db\<lparr>d_attempts := update_where P f (d_attempts db)\<rparr>) = skeleton db"
  by (simp add: skeleton_def map_update_where)

lemma skeleton_ledger [skeleton_simps]: "skeleton (db\<lparr>d_ledger := led\<rparr>) = skeleton db"
  by (simp add: skeleton_def)

lemma skeleton_save_outbox:
  assumes "keys_ok db" and "b \<in> set (d_outbox db)" and "ob_id b' = ob_id b"
  shows "skeleton (db\<lparr>d_outbox := save_by ob_id b' (d_outbox db)\<rparr>) = skeleton db"
  by (simp add: skeleton_def map_save_by)

lemma skeleton_save_attempt:
  assumes "keys_ok db" and "a \<in> set (d_attempts db)" and "at_id a' = at_id a" "at_invocationId a' = at_invocationId a"
  shows "skeleton (db\<lparr>d_attempts := save_by at_id a' (d_attempts db)\<rparr>) = skeleton db"
  using assms by (simp add: skeleton_def keys_ok_def map_save_same [of at_id _ a])

lemma skeleton_save_step:
  assumes "keys_ok db" and "l \<in> set (d_steps db)" and "step_view l' = step_view l"
  shows "skeleton (db\<lparr>d_steps := save_by ls_id l' (d_steps db)\<rparr>) = skeleton db"
  using assms by (simp add: skeleton_def keys_ok_def map_save_same [of ls_id _ l] step_view_def)

lemma skeleton_save_run:
  assumes "keys_ok db" and "x \<in> set (d_runs db)" and "run_view x' = run_view x" and "x_state x' = x_state x"
  shows "skeleton (db\<lparr>d_runs := save_by x_id x' (d_runs db)\<rparr>) = skeleton db"
  using assms by (simp add: skeleton_def keys_ok_def map_save_same [of x_id _ x] run_view_def)

subsection \<open>Facts\<close>

text \<open>The tables of facts that a service leaves alone.\<close>

definition same_records :: "runtime_db \<Rightarrow> _" where
  "same_records db = (d_proposals db, d_approvals db, d_inbox db, d_revisions db, d_conflicts db, d_artifacts db,
     d_evidence db, d_exposures db, d_observations db, d_events db, d_eventConflicts db)"

lemma facts_keptI:
  assumes "same_records db' = same_records db" and "keeps attempt_final (d_attempts db) (d_attempts db')"
    and "keeps (\<lambda>x. \<not> is_live x) (d_runs db) (d_runs db')"
  shows "facts_kept db db'"
  using assms by (simp add: facts_kept_def same_records_def)

lemma keeps_save_attempt:
  assumes "keys_ok db" and "a \<in> set (d_attempts db)" and "at_id a' = at_id a" and "\<not> attempt_final a"
  shows "keeps attempt_final (d_attempts db) (save_by at_id a' (d_attempts db))"
  using assms by (intro keeps_save [of at_id _ a]) (auto simp: keys_ok_def)

lemma keeps_save_run:
  assumes "keys_ok db" and "x \<in> set (d_runs db)" and "x_id x' = x_id x" and "is_live x"
  shows "keeps (\<lambda>x. \<not> is_live x) (d_runs db) (save_by x_id x' (d_runs db))"
  using assms by (intro keeps_save [of x_id _ x]) (auto simp: keys_ok_def)

lemma keeps_not_terminal [simp]:
  "keeps attempt_final rows (update_where (not_terminal i) f rows)"
  by (intro keeps_update) (auto simp: attempt_final_def not_terminal_def)

subsection \<open>Sound steps\<close>

text \<open>A change of the tables that keeps the invariant and the facts, whenever the invariant holds.\<close>

definition sound_step :: "(string \<Rightarrow> string \<Rightarrow> bool) \<Rightarrow> runtime_db \<Rightarrow> runtime_db \<Rightarrow> bool" where
  "sound_step coll db db' \<longleftrightarrow> (runtime_ok coll db \<longrightarrow> runtime_ok coll db' \<and> facts_kept db db')"

lemma sound_refl [simp]: "sound_step coll db db"
  by (simp add: sound_step_def)

lemma sound_trans [trans]: "sound_step coll a b \<Longrightarrow> sound_step coll b c \<Longrightarrow> sound_step coll a c"
  by (auto simp: sound_step_def intro: facts_kept_trans)

lemma sound_foldl: "(\<And>db q. q \<in> set qs \<Longrightarrow> sound_step coll db (f db q)) \<Longrightarrow> sound_step coll db (foldl f db qs)"
proof (induction qs arbitrary: db)
  case (Cons q qs)
  have "sound_step coll db (f db q)" by (rule Cons.prems) simp
  also have "sound_step coll (f db q) (foldl f (f db q) qs)" by (rule Cons.IH) (rule Cons.prems, simp)
  finally show ?case by simp
qed simp

lemma sound_foldE:
  assumes "foldE f db qs = Inr db'" and "\<And>db db' q. q \<in> set qs \<Longrightarrow> f db q = Inr db' \<Longrightarrow> sound_step coll db db'"
  shows "sound_step coll db db'"
  using assms
proof (induction qs arbitrary: db)
  case (Cons q qs)
  then obtain db1 where db1: "f db q = Inr db1" "foldE f db1 qs = Inr db'" by (auto simp: bindE_Inr_iff)
  have "sound_step coll db db1" by (rule Cons.prems(2) [OF _ db1(1)]) simp
  also have "sound_step coll db1 db'" by (rule Cons.IH [OF db1(2)], rule Cons.prems(2)) auto
  finally show ?case .
qed simp

lemma sound_skeleton:
  assumes "runtime_ok coll db \<Longrightarrow> skeleton db' = skeleton db"
    and "ledger_ok (d_ledger db) \<Longrightarrow> ledger_ok (d_ledger db')"
    and "runtime_ok coll db \<Longrightarrow> same_records db' = same_records db"
    and "keys_ok db \<Longrightarrow> keeps attempt_final (d_attempts db) (d_attempts db')"
    and "keys_ok db \<Longrightarrow> keeps (\<lambda>x. \<not> is_live x) (d_runs db) (d_runs db')"
  shows "sound_step coll db db'"
  unfolding sound_step_def
proof
  assume ok: "runtime_ok coll db"
  note invs = runtime_okD [OF ok]
  have "runtime_ok coll db'" by (rule skeleton_sound [OF assms(1) [OF ok] assms(2) [OF invs(3)] ok])
  moreover have "facts_kept db db'" by (rule facts_keptI [OF assms(3) [OF ok] assms(4,5) [OF invs(1)]])
  ultimately show "runtime_ok coll db' \<and> facts_kept db db'" by simp
qed

lemma sound_outbox:
  assumes "\<And>b. ob_id (f b) = ob_id b"
  shows "sound_step coll db (db\<lparr>d_outbox := update_where P f (d_outbox db)\<rparr>)"
  using assms by (intro sound_skeleton skeleton_outbox) (auto simp: same_records_def)

lemma sound_save_outbox:
  assumes "b \<in> set (d_outbox db)" and "ob_id b' = ob_id b"
  shows "sound_step coll db (db\<lparr>d_outbox := save_by ob_id b' (d_outbox db)\<rparr>)"
  using assms by (intro sound_skeleton skeleton_save_outbox) (auto simp: same_records_def dest: runtime_okD)

lemma sound_attempts:
  assumes "\<And>a. P a \<Longrightarrow> \<not> attempt_final a" and "\<And>a. at_id (f a) = at_id a" "\<And>a. at_invocationId (f a) = at_invocationId a"
  shows "sound_step coll db (db\<lparr>d_attempts := update_where P f (d_attempts db)\<rparr>)"
  using assms by (intro sound_skeleton skeleton_attempts) (auto simp: same_records_def intro!: keeps_update)

lemma sound_save_attempt:
  assumes "a \<in> set (d_attempts db)" and "at_id a' = at_id a" "at_invocationId a' = at_invocationId a" and "\<not> attempt_final a"
  shows "sound_step coll db (db\<lparr>d_attempts := save_by at_id a' (d_attempts db)\<rparr>)"
  using assms
  by (intro sound_skeleton skeleton_save_attempt)
    (auto simp: same_records_def dest: runtime_okD intro!: keeps_save_attempt)

lemma sound_save_step:
  assumes "l \<in> set (d_steps db)" and "step_view l' = step_view l"
  shows "sound_step coll db (db\<lparr>d_steps := save_by ls_id l' (d_steps db)\<rparr>)"
  using assms by (intro sound_skeleton skeleton_save_step) (auto simp: same_records_def dest: runtime_okD)

lemma sound_steps:
  assumes "\<And>l. step_view (f l) = step_view l"
  shows "sound_step coll db (db\<lparr>d_steps := update_where P f (d_steps db)\<rparr>)"
  using assms by (intro sound_skeleton) (auto simp: skeleton_def same_records_def map_update_where)

lemma sound_save_run:
  assumes "x \<in> set (d_runs db)" and "is_live x" and "run_view x' = run_view x" "x_state x' = x_state x"
  shows "sound_step coll db (db\<lparr>d_runs := save_by x_id x' (d_runs db)\<rparr>)"
  using assms
  by (intro sound_skeleton skeleton_save_run)
    (auto simp: same_records_def run_view_def dest: runtime_okD intro!: keeps_save_run)

lemma sound_runs:
  assumes "\<And>x. P x \<Longrightarrow> is_live x" and "\<And>x. run_view (f x) = run_view x" "\<And>x. x_state (f x) = x_state x"
  shows "sound_step coll db (db\<lparr>d_runs := update_where P f (d_runs db)\<rparr>)"
  using assms by (intro sound_skeleton) (auto simp: skeleton_def same_records_def map_update_where intro!: keeps_update)

lemma sound_ledger:
  assumes "ledger_ok (d_ledger db) \<Longrightarrow> ledger_ok led"
  shows "sound_step coll db (db\<lparr>d_ledger := led\<rparr>)"
  using assms by (intro sound_skeleton) (auto simp: skeleton_def same_records_def)

text \<open>A service whose transactions are sound steps.\<close>

lemma sound_service:
  assumes "\<And>en db q db'. tx en db q = Inr db' \<Longrightarrow> sound_step (en_coll en) db db'"
  shows "runtime_service tx"
  by unfold_locales (use assms in \<open>auto simp: sound_step_def\<close>)

end
