(* ===== verification/DispatchOutbox_Properties.thy ===== *)
theory DispatchOutbox_Properties
  imports DispatchOutbox Runtime_Frame
begin

text \<open>
  What the dispatcher promises: it leases only what may be delivered, a lease is exclusive until it expires, a
  worker that has lost its lease changes nothing, a drain ends, and every transaction keeps the invariant.
\<close>

subsection \<open>Every transaction is a sound step\<close>

lemma unleased_id [simp]: "ob_id (unleased st err b) = ob_id b"
  by (simp add: unleased_def)

lemma leased_id [simp]: "ob_id (leased en b) = ob_id b"
  by (simp add: leased_def)

lemma failed_attempt_ids [simp]: "at_id (failed_attempt en reason a) = at_id a"
  "at_invocationId (failed_attempt en reason a) = at_invocationId a"
  by (simp_all add: failed_attempt_def)

lemma failed_step_view [simp]: "step_view (failed_step en reason retry l) = step_view l"
  by (simp add: failed_step_def step_view_def)

lemma find_SomeD: "find P xs = Some x \<Longrightarrow> x \<in> set xs \<and> P x"
  by (metis find_Some_iff nth_mem)

lemma leaseOutboxRow_cases:
  assumes "leaseOutboxRow en locked db rows = (db', c)"
  obtains (none) "db' = db" "c = None"
    | (some) b where "b \<in> set rows" "ob_id b \<notin> set locked" "due (en_now en) b" "deliverable db b" "c = Some (leased en b)"
      "db' = db\<lparr>d_outbox := save_by ob_id (leased en b) (d_outbox db)\<rparr>"
proof (cases "find (\<lambda>b. ob_id b \<notin> set locked \<and> due (en_now en) b \<and> deliverable db b) rows")
  case None
  with assms show ?thesis by (intro none) (auto simp: leaseOutboxRow_def)
next
  case (Some b)
  with find_SomeD [OF Some] assms show ?thesis by (intro some [of b]) (auto simp: leaseOutboxRow_def)
qed

lemma sound_lease:
  assumes "leaseOutboxRow en locked db rows = (db', c)" and "set rows \<subseteq> set (d_outbox db)"
  shows "sound_step coll db db'"
  using assms(1) by (cases rule: leaseOutboxRow_cases) (use assms(2) in \<open>auto intro!: sound_save_outbox\<close>)

lemma sound_claimNext: "claimNext en locked db = (db', c) \<Longrightarrow> sound_step coll db db'"
  unfolding claimNext_def by (erule sound_lease) simp

lemma sound_claimAttempt: "claimAttempt en locked db i = (db', c) \<Longrightarrow> sound_step coll db db'"
  unfolding claimAttempt_def by (erule sound_lease) auto

lemma sound_markDispatched: "sound_step coll db (markDispatched en db claimed receipt)"
proof (cases "find_by at_id (ob_attempt claimed) (d_attempts db)")
  case (Some a)
  let ?f = "\<lambda>b. (unleased ODispatched None b)\<lparr>ob_receipt := receipt\<rparr>"
  let ?db = "db\<lparr>d_outbox := update_where (holds claimed) ?f (d_outbox db)\<rparr>"
  have s: "sound_step coll db ?db" by (rule sound_outbox) simp
  have "sound_step coll ?db (?db\<lparr>d_attempts := save_by at_id (a\<lparr>at_status := ADispatched, at_dispatchedAt := Some (en_now en)\<rparr>)
      (d_attempts ?db)\<rparr>)" if "at_status a \<notin> set TERMINAL_ATTEMPTS"
    by (rule sound_save_attempt [of a]) (use find_by_Some [OF Some] that in \<open>auto simp: attempt_final_def\<close>)
  with s Some show ?thesis by (auto simp: markDispatched_def Let_def intro: sound_trans)
qed (simp add: markDispatched_def)

lemma sound_putBack: "sound_step coll db (putBack en db claimed msg)"
  unfolding putBack_def by (rule sound_outbox) simp

lemma sound_fail_run: "sound_step coll db (fail_run en reason i db)"
  by (auto simp: fail_run_def run_view_def dest: find_by_Some intro!: sound_save_run split: option.split)

lemma sound_settle_refusal: "sound_step coll db (settle_refusal en reason a db)"
proof (cases "find_by ls_id (at_logicalStepId a) (d_steps db)")
  case (Some l)
  have "sound_step coll db (db\<lparr>d_steps := save_by ls_id (failed_step en reason retry l) (d_steps db)\<rparr>)" for retry
    by (rule sound_save_step [of l]) (use find_by_Some [OF Some] in auto)
  with Some sound_trans [OF this sound_fail_run] show ?thesis by (simp add: settle_refusal_def Let_def)
qed (simp add: settle_refusal_def)

lemma sound_refuse_attempt:
  assumes "refuse_attempt en msg a db = Inr db'"
  shows "sound_step coll db db'"
proof (cases "affected (not_terminal (at_id a)) (d_attempts db) = 1")
  case True
  let ?db1 = "db\<lparr>d_attempts := update_where (not_terminal (at_id a)) (failed_attempt en (refusal msg)) (d_attempts db)\<rparr>"
  from assms True obtain led where
    led: "releaseForAction (d_ledger db) (at_invocationId a) ''non-retryable dispatch failure'' = Inr led"
    and db': "db' = settle_refusal en (refusal msg) a (?db1\<lparr>d_ledger := led\<rparr>)"
    unfolding refuse_attempt_def by (auto simp: bindE_Inr_iff)
  have "sound_step coll db ?db1" by (rule sound_attempts) (auto simp: attempt_final_def not_terminal_def)
  also have "sound_step coll ?db1 (?db1\<lparr>d_ledger := led\<rparr>)"
    by (rule sound_ledger) (use ledger_ok_releaseForAction [OF _ led] in simp)
  also have "sound_step coll (?db1\<lparr>d_ledger := led\<rparr>) db'" unfolding db' by (rule sound_settle_refusal)
  finally show ?thesis .
qed (use assms in \<open>simp add: refuse_attempt_def\<close>)

lemma sound_failNonRetryable:
  assumes "failNonRetryable en db claimed msg = Inr db'"
  shows "sound_step coll db db'"
proof -
  let ?db1 = "db\<lparr>d_outbox := update_where (holds claimed) (unleased OFailed (Some (Message msg))) (d_outbox db)\<rparr>"
  have "sound_step coll db ?db1" by (rule sound_outbox) simp
  with assms sound_trans [OF this sound_refuse_attempt] show ?thesis
    by (auto simp: failNonRetryable_def split: option.splits if_splits)
qed

lemma sound_complete: "complete en db claimed delivery = (db', d) \<Longrightarrow> sound_step coll db db'"
  using sound_markDispatched sound_putBack sound_failNonRetryable
  by (auto simp: complete_def split: sum.splits delivery_error.splits)

lemma sound_dispatch_claim:
  assumes "sound_step coll db (fst c)" and "dispatch_claim en port c = (db', d)"
  shows "sound_step coll db db'"
  using assms sound_trans sound_complete
  by (fastforce simp: dispatch_claim_def dispatchClaimed_def split: prod.splits option.splits)

lemma sound_drain: "drain en port locked n db s = (db', s') \<Longrightarrow> sound_step coll db db'"
proof (induction n arbitrary: db s)
  case (Suc n)
  obtain db1 c where c: "claimNext (en n) (locked n) db = (db1, c)" by fastforce
  from sound_claimNext [OF this] have s1: "sound_step coll db db1" .
  show ?case
  proof (cases c)
    case None
    with Suc.prems c s1 show ?thesis by simp
  next
    case (Some claimed)
    obtain db2 d where d: "dispatchClaimed (en n) port db1 claimed = (db2, d)" by fastforce
    then have "sound_step coll db1 db2" unfolding dispatchClaimed_def by (rule sound_complete)
    with s1 have "sound_step coll db db2" by (rule sound_trans)
    also have "sound_step coll db2 db'" by (rule Suc.IH) (use Suc.prems c Some d in simp)
    finally show ?thesis .
  qed
qed simp

lemma sound_recordCancelOutcome: "sound_step coll db (recordCancelOutcome db i txt)"
  unfolding recordCancelOutcome_def by (rule sound_outbox) simp

lemma sound_notifyCancel:
  assumes "notifyCancel port db e reason = Inr (db', s)"
  shows "sound_step coll db db'"
proof -
  have "sound_step coll db (fst (foldl (notify_step port e reason as) (db, s) rows))" for "as" rows s
    by (induction rows arbitrary: s rule: rev_induct)
      (auto simp: notify_step_def Let_def intro: sound_trans sound_recordCancelOutcome)
  with assms show ?thesis by (auto simp: notifyCancel_def Let_def split: if_splits) (metis fst_conv)
qed

subsection \<open>The dispatcher as a service\<close>

datatype dispatch_call =
    ClaimNext "string list"
  | ClaimAttempt "string list" string
  | Complete outbox_row "delivery_error + jsv"
  | NotifyCancel executor_port string string

text \<open>A claim and its completion are transactions of their own; anything may happen in between.\<close>

fun dispatch_tx :: "env \<Rightarrow> runtime_db \<Rightarrow> dispatch_call \<Rightarrow> runtime_error + runtime_db" where
  "dispatch_tx en db (ClaimNext locked) = Inr (fst (claimNext en locked db))"
| "dispatch_tx en db (ClaimAttempt locked i) = Inr (fst (claimAttempt en locked db i))"
| "dispatch_tx en db (Complete claimed delivery) = Inr (fst (complete en db claimed delivery))"
| "dispatch_tx en db (NotifyCancel port e reason) = bindE (notifyCancel port db e reason) (\<lambda>(db', s). Inr db')"

lemma sound_dispatch_tx: "dispatch_tx en db q = Inr db' \<Longrightarrow> sound_step coll db db'"
  by (cases q) (auto simp: bindE_Inr_iff intro: sound_claimNext sound_claimAttempt sound_complete sound_notifyCancel prod.collapse [symmetric])

interpretation dispatcher: runtime_service dispatch_tx
  by (rule sound_service) (rule sound_dispatch_tx)

subsection \<open>Leases\<close>

lemma affected_none: "(\<And>b. b \<in> set rows \<Longrightarrow> \<not> P b) \<Longrightarrow> affected P rows = 0 \<and> update_where P f rows = rows"
  by (auto simp: affected_def update_where_def filter_empty_conv intro: map_idI)

text \<open>C26: a dispatcher that has lost its lease, because it expired and was taken by another or because the delivery
  was retired, changes nothing when its delivery ends, however it ends.\<close>

theorem stale_completion_changes_nothing:
  assumes "\<And>b. b \<in> set (d_outbox db) \<Longrightarrow> \<not> holds claimed b" and "complete en db claimed delivery = (db', d)"
  shows "db' = db"
proof -
  have none: "affected (holds claimed) (d_outbox db) = 0" "update_where (holds claimed) f (d_outbox db) = d_outbox db" for f
    using affected_none [of "d_outbox db" "holds claimed", OF assms(1)] by auto
  have "markDispatched en db claimed receipt = db" for receipt
    by (simp add: markDispatched_def none split: option.split)
  moreover have "failNonRetryable en db claimed msg = Inr db" for msg
    by (simp add: failNonRetryable_def none split: option.split)
  moreover have "putBack en db claimed msg = db" for msg by (simp add: putBack_def none)
  ultimately show ?thesis using assms(2) by (auto simp: complete_def split: sum.splits delivery_error.splits)
qed

lemma leased_not_due: "now < en_now en + DISPATCH_LEASE_MS \<Longrightarrow> \<not> due now (leased en b)"
  by (simp add: due_def leased_def)

lemma claim_excludes:
  assumes c: "leaseOutboxRow en locked db rows = (db', Some b)" and now: "en_now en' < en_now en + DISPATCH_LEASE_MS"
    and c': "leaseOutboxRow en' locked' db' rows' = (db'', Some b')" and sub: "set rows' \<subseteq> set (d_outbox db')"
  shows "ob_id b' \<noteq> ob_id b"
proof -
  obtain b0 where b0: "b = leased en b0" "db' = db\<lparr>d_outbox := save_by ob_id (leased en b0) (d_outbox db)\<rparr>"
    by (rule leaseOutboxRow_cases [OF c]) auto
  obtain b1 where b1: "b1 \<in> set (d_outbox db')" "due (en_now en') b1" "b' = leased en' b1"
    by (rule leaseOutboxRow_cases [OF c']) (use sub in auto)
  from b1(1) have "b1 = leased en b0 \<or> ob_id b1 \<noteq> ob_id (leased en b0)" by (auto simp: b0(2) dest: in_save_by)
  with leased_not_due [OF now] b1(2,3) b0(1) show ?thesis by auto
qed


subsection \<open>The drain ends\<close>

lemma count_update_le:
  assumes "\<And>r. P r \<Longrightarrow> \<not> D (f r)"
  shows "length (filter D (update_where P f rows)) \<le> length (filter D rows)"
  using assms by (induction rows) (auto simp: update_where_def)

lemma count_update_less:
  assumes "\<And>r. P r \<Longrightarrow> \<not> D (f r)" and "r \<in> set rows" "P r" "D r"
  shows "length (filter D (update_where P f rows)) < length (filter D rows)"
  using assms(2)
proof (induction rows)
  case (Cons r' rows)
  show ?case
  proof (cases "r = r'")
    case True
    with assms(1,3,4) count_update_le [of P D f rows, OF assms(1)] show ?thesis by (simp add: update_where_def)
  next
    case False
    with Cons have "length (filter D (update_where P f rows)) < length (filter D rows)" by simp
    with assms(1) show ?thesis by (auto simp: update_where_def)
  qed
qed simp

definition pending :: "int \<Rightarrow> runtime_db \<Rightarrow> nat" where
  "pending t db = length (filter (due t) (d_outbox db))"

lemma claim_pending:
  assumes "claimNext en locked db = (db', Some b)" and "en_now en \<le> t" and "t < en_now en + DISPATCH_LEASE_MS"
  shows "pending t db' < pending t db"
proof -
  obtain b0 where b0: "b0 \<in> set (d_outbox db)" "due (en_now en) b0"
    "db' = db\<lparr>d_outbox := save_by ob_id (leased en b0) (d_outbox db)\<rparr>"
    using assms(1) unfolding claimNext_def by (rule leaseOutboxRow_cases) auto
  moreover from b0(2) assms(2) have "due t b0" by (auto simp: due_def split: option.splits)
  ultimately show ?thesis
    by (simp add: pending_def save_by_def) (rule count_update_less [of _ _ _ b0], use leased_not_due [OF assms(3)] in auto)
qed

lemma fail_run_outbox [simp]: "d_outbox (fail_run en reason i db) = d_outbox db"
  by (simp add: fail_run_def split: option.split)

lemma settle_refusal_outbox [simp]: "d_outbox (settle_refusal en reason a db) = d_outbox db"
  by (simp add: settle_refusal_def Let_def split: option.split)

lemma refuse_attempt_outbox: "refuse_attempt en msg a db = Inr db' \<Longrightarrow> d_outbox db' = d_outbox db"
  by (auto simp: refuse_attempt_def bindE_Inr_iff split: if_splits)

lemma complete_pending:
  assumes "complete en db claimed delivery = (db', d)" and "t < en_now en + 1000"
  shows "pending t db' \<le> pending t db"
proof -
  have le: "length (filter (due t) (update_where (holds claimed) f (d_outbox db))) \<le> pending t db"
    if "\<And>b. \<not> due t (f b)" for f
    unfolding pending_def by (rule count_update_le) (rule that)
  have "pending t (markDispatched en db claimed receipt) \<le> pending t db" for receipt
    using le [of "\<lambda>b. (unleased ODispatched None b)\<lparr>ob_receipt := receipt\<rparr>"]
    by (auto simp: markDispatched_def pending_def due_def unleased_def Let_def split: option.split)
  moreover have "pending t db1 \<le> pending t db" if "failNonRetryable en db claimed msg = Inr db1" for msg db1
    using that le [of "unleased OFailed (Some (Message msg))"] refuse_attempt_outbox
    by (auto simp: failNonRetryable_def pending_def due_def unleased_def split: option.splits if_splits)
  moreover have "pending t (putBack en db claimed msg) \<le> pending t db" for msg
    using le [of "\<lambda>b. (unleased OPending (Some (Message msg)) b)\<lparr>ob_nextDispatchAt := en_now en + 1000\<rparr>"] assms(2)
    by (simp add: putBack_def pending_def due_def unleased_def)
  ultimately show ?thesis using assms(1) by (auto simp: complete_def split: sum.splits delivery_error.splits)
qed

definition deliveries :: "recovery \<Rightarrow> nat" where
  "deliveries s = rc_dispatched s + rc_retryable s + length (rc_terminal s)"

lemma count_drained_le: "deliveries (count_drained d s) \<le> deliveries s + 1"
  by (auto simp: deliveries_def count_drained_def split: disposition.split)

lemma drain_bounded:
  assumes "\<And>i. t0 \<le> en_now (en i) \<and> en_now (en i) < t0 + 1000" and "drain en port locked n db s = (db', s')"
  shows "deliveries s' \<le> deliveries s + pending (t0 + 999) db \<and> deliveries s' \<le> deliveries s + n"
  using assms(2)
proof (induction n arbitrary: db s)
  case (Suc n)
  note now = assms(1) [of n]
  obtain db1 c where c: "claimNext (en n) (locked n) db = (db1, c)" by fastforce
  show ?case
  proof (cases c)
    case None
    with Suc.prems c show ?thesis by simp
  next
    case (Some claimed)
    have less: "pending (t0 + 999) db1 < pending (t0 + 999) db"
      by (rule claim_pending) (use c Some now in \<open>auto simp: DISPATCH_LEASE_MS_def\<close>)
    obtain db2 d where d: "dispatchClaimed (en n) port db1 claimed = (db2, d)" by fastforce
    then have "pending (t0 + 999) db2 \<le> pending (t0 + 999) db1"
      unfolding dispatchClaimed_def by (rule complete_pending) (use now in simp)
    moreover have "deliveries s' \<le> deliveries (count_drained d s) + pending (t0 + 999) db2 \<and>
        deliveries s' \<le> deliveries (count_drained d s) + n"
      by (rule Suc.IH) (use Suc.prems c Some d in simp)
    ultimately show ?thesis using count_drained_le [of d s] less by linarith
  qed
qed simp


subsection \<open>Concrete runs\<close>

definition ex_outbox :: outbox_row where
  "ex_outbox = \<lparr>ob_id = ''o'', ob_attempt = ''t2'', ob_invocation = JObj [(''executionId'', JStr ''e'')], ob_status = OPending,
     ob_nextDispatchAt = 0, ob_leaseExpiresAt = None, ob_leaseToken = None, ob_count = 0, ob_receipt = JNull, ob_error = None\<rparr>"

definition ex_dispatch_db :: runtime_db where
  "ex_dispatch_db = ex_task_db\<lparr>d_attempts := [ex_attempt, ex_task\<lparr>at_status := ACreated\<rparr>], d_outbox := [ex_outbox]\<rparr>"

definition ex_port :: executor_port where
  "ex_port = \<lparr>ep_parse = Inr, ep_descriptor = (\<lambda>_. Inr \<lparr>dc_connection = None, dc_cancel = False\<rparr>),
     ep_invoke = (\<lambda>_ _. Inr (JObj [])), ep_cancel = None\<rparr>"

lemma ex_claim: "claimNext ex_env [] ex_dispatch_db = (ex_dispatch_db\<lparr>d_outbox := [leased ex_env ex_outbox]\<rparr>, Some (leased ex_env ex_outbox))"
proof -
  have "deliverable ex_dispatch_db ex_outbox" by code_simp
  then show ?thesis
    by (simp add: claimNext_def leaseOutboxRow_def) (simp add: ex_dispatch_db_def ex_outbox_def due_def ex_env_def save_by_def update_where_def leased_def)
qed

theorem stale_completion_changes_nothing_witness:
  "fst (complete ex_env ex_dispatch_db (leased ex_env ex_outbox) (Inr JNull)) = ex_dispatch_db"
proof -
  obtain db' d where run: "complete ex_env ex_dispatch_db (leased ex_env ex_outbox) (Inr JNull) = (db', d)" by fastforce
  have "b \<in> set (d_outbox ex_dispatch_db) \<Longrightarrow> \<not> holds (leased ex_env ex_outbox) b" for b
    by (auto simp: ex_dispatch_db_def ex_outbox_def holds_def)
  from stale_completion_changes_nothing [OF this run] run show ?thesis by simp
qed

definition ex_leased_db :: runtime_db where
  "ex_leased_db = ex_dispatch_db\<lparr>d_outbox := [ex_outbox, ex_outbox\<lparr>ob_id := ''p''\<rparr>]\<rparr>"

lemma ex_claims:
  "case claimNext ex_env [] ex_leased_db of (db', Some b) \<Rightarrow> ob_id b = ''o'' \<and>
      (case claimNext ex_env [] db' of (db'', Some b') \<Rightarrow> ob_id b' = ''p'' | _ \<Rightarrow> False) | _ \<Rightarrow> False"
  by code_simp



end
