(* ===== verification/WorkAuthority_Properties.thy ===== *)
theory WorkAuthority_Properties
  imports WorkAuthority DispatchOutbox_Properties
begin

text \<open>
  The budget gate keeps the ledger sound, and when it passes every dimension of the step's budget is reserved; an
  outbox row is new and unique.
\<close>

subsection \<open>The gate and the ledger\<close>

lemma validateStep_budget:
  assumes "validateStep coll v = Inr s" and "st_budget s = Some b"
  shows "valid_amounts b"
proof -
  have "parseStepBudget (getp v ''budget'') = Inr (st_budget s)"
    using assms(1) by (auto simp: validateStep_def bindE_Inr_iff split: if_splits)
  with assms(2) show ?thesis
    by (auto simp: parseStepBudget_def bindE_Inr_iff dest: validateCeilings_Inr(2) split: if_splits)
qed

lemma plan_step_budget:
  assumes "plans_ok coll db" and "r \<in> set (d_revisions db)" and "s \<in> set (rv_steps r)" and "st_budget s = Some b"
  shows "valid_amounts b"
  using assms(1-3) validateStep_budget [OF _ assms(4)] by (auto simp: plans_ok_iff plan_ok_def step_valid_def)

lemma ledger_ok_new_account:
  assumes "ledger_ok db" and "valid_amounts (a_ceilings a)" and "a_id a \<notin> a_id ` set (accounts db)"
  shows "ledger_ok (db\<lparr>accounts := accounts db @ [a]\<rparr>)"
proof -
  have "settled_one (db\<lparr>accounts := accounts db @ [a]\<rparr>) r = settled_one db r" for r
    by (rule settled_one_frame [where es = "[]"]) simp_all
  with assms solvent_new_account [of db a] show ?thesis by (simp add: ledger_ok_def settled_ok_def)
qed

lemma ensureExecutionAccount_cases:
  assumes "ensureExecutionAccount db newId e pb sb = Inr (db', a)"
  obtains (existing) "db' = db"
    | (created) "db' = db\<lparr>accounts := accounts db @ [a]\<rparr>" "a_id a \<notin> a_id ` set (accounts db)"
      "(\<exists>b. pb = Some b \<and> pb_ceilings b \<noteq> [] \<and> a_ceilings a = pb_ceilings b) \<or> (\<exists>b. sb = Some b \<and> a_ceilings a = b)"
proof (cases "find (\<lambda>a. a_scopeType a = ''execution'' \<and> a_scopeId a = e) (accounts db)")
  case (Some x)
  with assms show ?thesis by (intro existing) (simp add: ensureExecutionAccount_def)
next
  case None
  show ?thesis
    by (rule created) (use None assms in \<open>auto simp: ensureExecutionAccount_def Let_def bindE_Inr_iff
      split: if_splits option.splits\<close>)
qed

lemma ledger_ok_ensureExecutionAccount:
  assumes "ensureExecutionAccount db newId e (stored_budget v) (Some b) = Inr (db', a)" and "ledger_ok db" and "valid_amounts b"
  shows "ledger_ok db'"
  using assms(1)
proof (cases rule: ensureExecutionAccount_cases)
  case created
  have "valid_amounts (a_ceilings a)" using created(3)
  proof
    assume "\<exists>c. stored_budget v = Some c \<and> pb_ceilings c \<noteq> [] \<and> a_ceilings a = pb_ceilings c"
    then show ?thesis using parsePipelineBudget_Some(2) by (auto simp: stored_budget_def split: sum.splits)
  qed (use assms(3) in auto)
  with created assms(2) show ?thesis by (simp add: ledger_ok_new_account)
qed (use assms(2) in simp)

lemma ledger_ok_reserve: "reserve owned db i inp = Inr (db', r) \<Longrightarrow> ledger_ok db \<Longrightarrow> ledger_ok db'"
  using ledger_ok_steps [of db "[ReserveBudget owned i inp]" db'] by simp

lemma ledger_ok_reserve_dimensions:
  "reserve_dimensions newId inp db dns = Inr (db', e) \<Longrightarrow> ledger_ok db \<Longrightarrow> ledger_ok db'"
proof (induction dns arbitrary: db)
  case (Cons dn dns)
  then show ?case
    by (auto split: sum.splits prod.splits ledger_error.splits dest: ledger_ok_reserve)
qed simp

lemma ledger_ok_budget_gate:
  assumes "budget_gate en db v a config = Inr (db', e)" and "ledger_ok db"
    and "\<And>b. st_budget config = Some b \<Longrightarrow> valid_amounts b"
  shows "ledger_ok db'"
proof (cases "st_budget config")
  case (Some b)
  show ?thesis
  proof (cases "ensureExecutionAccount db (en_newId en ''account'') (at_executionId a) (stored_budget v) (Some b)")
    case (Inl err)
    with Some assms(1,2) show ?thesis by (cases err) (auto simp: budget_gate_def)
  next
    case (Inr x)
    obtain db1 acc where x: "x = (db1, acc)" by (cases x)
    with Inr ledger_ok_ensureExecutionAccount [of db _ _ v b db1 acc] assms(2,3) Some have "ledger_ok db1" by simp
    moreover from assms(1) Some Inr x have "reserve_dimensions (\<lambda>d. en_newId en (''reservation:'' @ dimension_str d))
        (attempt_budget_of a (a_id acc) b) db1 b = Inr (db', e)" by (simp add: budget_gate_def)
    ultimately show ?thesis by (blast intro: ledger_ok_reserve_dimensions)
  qed
qed (use assms in \<open>simp add: budget_gate_def\<close>)

lemma reserve_args_attempt:
  assumes "reserve_args (attempt_reservation inp (d, n)) = Inr x"
  shows "ra_dimension x = d" and "ra_amount x = n" and "ra_action x = Some (ab_invocationId inp)"
    and "ra_key x = reservationKeyForAttempt (ab_executionId inp) (ab_logicalStepId inp) (ab_attemptNumber inp) d"
  using assms
  by (auto simp: reserve_args_def attempt_reservation_def boundedString_def optionalBoundedString_def validateAmount_def
      result_simps split: if_splits option.splits)

definition reserves :: "ledger_db \<Rightarrow> attempt_budget \<Rightarrow> dimension \<times> int \<Rightarrow> bool" where
  "reserves db inp dn \<longleftrightarrow> (\<exists>r \<in> set (reservations db). r_action r = Some (ab_invocationId inp) \<and> r_dimension r = fst dn \<and>
     r_amount r = snd dn \<and> r_key r = reservationKeyForAttempt (ab_executionId inp) (ab_logicalStepId inp) (ab_attemptNumber inp) (fst dn))"

lemma reserve_reserves:
  assumes "reserve True db i (attempt_reservation inp dn) = Inr (db', r)"
  shows "reserves db' inp dn" and "set (reservations db) \<subseteq> set (reservations db')"
proof -
  from assms obtain x where x: "reserve_args (attempt_reservation inp dn) = Inr x"
    and "reserve_tx db i (ri_account (attempt_reservation inp dn)) x = Inr (db', r)"
    by (rule reserve_Inr) auto
  from this(2) obtain chain where "db' = reserved_db db i (ri_account (attempt_reservation inp dn)) x chain"
    by (rule reserve_tx_Inr)
  then have "reservations db' = reservations db @ [new_reservation i (ri_account (attempt_reservation inp dn)) x]"
    by (simp add: reserved_db_def)
  with reserve_args_attempt [of inp "fst dn" "snd dn" x] x
  show "reserves db' inp dn" "set (reservations db) \<subseteq> set (reservations db')"
    by (auto simp: reserves_def new_reservation_def)
qed

lemma reserve_dimensions_reserves:
  "reserve_dimensions newId inp db dns = Inr (db', None) \<Longrightarrow>
     set (reservations db) \<subseteq> set (reservations db') \<and> (\<forall>dn \<in> set dns. reserves db' inp dn)"
proof (induction dns arbitrary: db)
  case (Cons dn dns)
  then obtain db1 r where r: "reserve True db (newId (fst dn)) (attempt_reservation inp dn) = Inr (db1, r)"
    and rest: "reserve_dimensions newId inp db1 dns = Inr (db', None)"
    by (auto split: sum.splits prod.splits ledger_error.splits)
  from Cons.IH [OF rest] reserve_reserves [OF r] show ?case by (auto simp: reserves_def)
qed simp

text \<open>Authority comes with its reservations: each dimension of the budget has one, for this invocation.\<close>

definition reserved :: "ledger_db \<Rightarrow> attempt \<Rightarrow> step \<Rightarrow> bool" where
  "reserved db a config \<longleftrightarrow> (case st_budget config of None \<Rightarrow> True | Some b \<Rightarrow>
     list_all (\<lambda>dn. reserves db (attempt_budget_of a [] b) dn) b)"

lemma budget_gate_reserved:
  assumes "budget_gate en db v a config = Inr (db', None)"
  shows "reserved db' a config"
proof (cases "st_budget config")
  case (Some b)
  with assms have "\<exists>db1 (acc :: account). reserve_dimensions (\<lambda>d. en_newId en (''reservation:'' @ dimension_str d))
      (attempt_budget_of a (a_id acc) b) db1 b = Inr (db', None)"
    by (auto simp: budget_gate_def split: sum.splits ledger_error.splits prod.splits)
  then obtain db1 and acc :: account where "reserve_dimensions (\<lambda>d. en_newId en (''reservation:'' @ dimension_str d))
      (attempt_budget_of a (a_id acc) b) db1 b = Inr (db', None)" by blast
  from reserve_dimensions_reserves [OF this] Some show ?thesis
    by (simp add: reserved_def list_all_iff reserves_def attempt_budget_of_def)
qed (simp add: reserved_def)

subsection \<open>A new outbox row\<close>

lemma insert_outbox_Inr:
  assumes "insert_outbox db b = Inr db'"
  shows "db' = db\<lparr>d_outbox := d_outbox db @ [b]\<rparr>" and "ob_id b \<notin> ob_id ` set (d_outbox db)"
    and "ob_attempt b \<notin> ob_attempt ` set (d_outbox db)"
  using assms by (auto simp: insert_outbox_def split: if_splits)

lemma sound_insert_outbox:
  assumes "insert_outbox db b = Inr db'"
  shows "sound_step coll db db'"
  unfolding sound_step_def
proof
  assume ok: "runtime_ok coll db"
  note invs = runtime_okD [OF ok]
  note db' = insert_outbox_Inr [OF assms]
  have "plans_ok coll db'" by (rule plans_ok_frame [OF invs(2)]) (simp_all add: db')
  moreover have "keys_ok db'" using invs(1) db'(2) by (simp add: keys_ok_def db'(1))
  ultimately show "runtime_ok coll db' \<and> facts_kept db db'"
    using invs by (simp add: runtime_ok_def db'(1) states_ok_def evidence_ok_def facts_kept_def)
qed

lemma sound_ledger_ok:
  assumes "runtime_ok coll db \<Longrightarrow> ledger_ok led"
  shows "sound_step coll db (db\<lparr>d_ledger := led\<rparr>)"
  using assms sound_ledger [of db led coll] by (auto simp: sound_step_def)

end
