(* ===== verification/Approvals_Properties.thy ===== *)
theory Approvals_Properties
  imports Approvals WorkAuthority_Properties
begin

text \<open>
  What the approval service promises: a request is decided once, a resumed attempt has its budget, a sweep expires
  what is due, and every transaction keeps the invariant; and where the resumed work differs from the claimed work.
\<close>

subsection \<open>Every transaction is a sound step\<close>

lemma sound_skeleton':
  assumes "runtime_ok coll db \<Longrightarrow> skeleton db' = skeleton db" and "d_ledger db' = d_ledger db"
    and "keys_ok db \<Longrightarrow> facts_kept db db'"
  shows "sound_step coll db db'"
  unfolding sound_step_def
proof
  assume ok: "runtime_ok coll db"
  note invs = runtime_okD [OF ok]
  have "ledger_ok (d_ledger db')" using invs(3) assms(2) by simp
  from skeleton_sound [OF assms(1) [OF ok] this ok] assms(3) [OF invs(1)]
  show "runtime_ok coll db' \<and> facts_kept db db'" by simp
qed

lemma sound_insert_approval: "sound_step coll db (insert_approval db q)"
proof -
  have same: "same_plan db (insert_approval db q)" "d_proposals (insert_approval db q) = d_proposals db"
    using same_plan_insert_approval [of db "d_policy db" q] by simp_all
  have "plans_ok coll (insert_approval db q)" if "plans_ok coll db"
    using that by (rule plans_ok_same) (use same in simp_all)
  then show ?thesis
    using same_plan_sound [OF same(1)] same(2) by (simp add: sound_step_def runtime_ok_def)
qed

lemma sound_set_decision: "sound_step coll db (set_decision en i st reason db)"
proof (rule sound_skeleton')
  show "skeleton (set_decision en i st reason db) = skeleton db"
    by (simp add: skeleton_def set_decision_def map_update_where decided_def)
  show "facts_kept db (set_decision en i st reason db)"
    by (auto simp: facts_kept_def set_decision_def is_pending_def intro!: keeps_update)
qed (simp add: set_decision_def)

lemma sound_save_request:
  assumes "q \<in> set (d_approvals db)" and "aq_status q = PENDING" and "aq_proposalId q' = aq_proposalId q"
  shows "sound_step coll db (save_request db q')"
proof (rule sound_skeleton')
  show "skeleton (save_request db q') = skeleton db" by (simp add: skeleton_def save_request_def map_save_by)
  show "keys_ok db \<Longrightarrow> facts_kept db (save_request db q')"
    using assms by (auto simp: facts_kept_def save_request_def keys_ok_def intro!: keeps_save [of aq_proposalId _ q])
qed (simp add: save_request_def)

text \<open>A request that is saved again at the end of its own transaction.\<close>

lemma sound_save_again:
  assumes q: "q \<in> set (d_approvals db)" "aq_status q = PENDING"
    and ids: "aq_proposalId q1 = aq_proposalId q" "aq_proposalId q2 = aq_proposalId q"
    and mid: "sound_step coll (save_request db q1) db2"
  shows "sound_step coll db (save_request db2 q2)"
  unfolding sound_step_def
proof
  assume ok: "runtime_ok coll db"
  let ?db1 = "save_request db q1" and ?db3 = "save_request db2 q2"
  note s1 = sound_save_request [OF q ids(1), of coll]
  from s1 ok have ok1: "runtime_ok coll ?db1" and k1: "facts_kept db ?db1" by (auto simp: sound_step_def)
  with mid have ok2: "runtime_ok coll db2" and k2: "facts_kept ?db1 db2" by (auto simp: sound_step_def)
  have "skeleton ?db3 = skeleton db2" by (simp add: skeleton_def save_request_def map_save_by)
  from skeleton_sound [OF this _ ok2] runtime_okD(3) [OF ok2] have "runtime_ok coll ?db3" by (simp add: save_request_def)
  moreover have "keeps (\<lambda>p. aq_status p \<noteq> PENDING) (d_approvals db) (d_approvals ?db3)"
    unfolding keeps_def
  proof (intro ballI impI)
    fix p
    assume p: "p \<in> set (d_approvals db)" "aq_status p \<noteq> PENDING"
    from runtime_okD(1) [OF ok] have "distinct (map aq_proposalId (d_approvals db))" by (simp add: keys_ok_def)
    from distinct_map_eq [OF this p(1) q(1)] p(2) q(2) have "aq_proposalId p \<noteq> aq_proposalId q2" unfolding ids(2) by fastforce
    moreover from facts_kept_trans [OF k1 k2] p have "p \<in> set (d_approvals db2)" by (auto simp: facts_kept_def keeps_def)
    ultimately show "p \<in> set (d_approvals ?db3)" by (simp add: save_request_def in_save_other)
  qed
  ultimately show "runtime_ok coll ?db3 \<and> facts_kept db ?db3"
    using facts_kept_trans [OF k1 k2] by (simp add: facts_kept_def save_request_def)
qed

lemma settle_request_db [simp]: "fst (settle_request en db q st nt) = save_request db (resolved_request en st nt q)"
  by (simp add: settle_request_def Let_def)

lemma resolved_request_id [simp]: "aq_proposalId (resolved_request en st nt q) = aq_proposalId q"
  "aq_status (resolved_request en st nt q) = st"
  by (simp_all add: resolved_request_def)

lemma failed_run_views [simp]: "run_view (failed_run en i msg x) = run_view x" "x_state (failed_run en i msg x) = x_state x"
  by (simp_all add: failed_run_def run_view_def)

lemma sound_fail_waiting: "sound_step coll db (fail_waiting en db a l config msg)"
proof -
  let ?db1 = "db\<lparr>d_attempts := update_where (waits (at_id a)) (failed_attempt en (Message msg)) (d_attempts db)\<rparr>"
  let ?db2 = "\<lambda>retry. ?db1\<lparr>d_steps := update_where (step_waits (ls_id l)) (failed_step en (Message msg) retry) (d_steps ?db1)\<rparr>"
  have "sound_step coll db ?db1"
    by (rule sound_attempts) (auto simp: waits_def attempt_final_def TERMINAL_ATTEMPTS_def)
  also have "sound_step coll ?db1 (?db2 retry)" for retry by (rule sound_steps) simp
  finally have s2: "sound_step coll db (?db2 retry)" for retry .
  have "sound_step coll (?db2 retry) (?db2 retry\<lparr>d_runs := update_where (running e) (failed_run en i msg) (d_runs (?db2 retry))\<rparr>)"
    for retry e i by (rule sound_runs) (auto simp: running_def is_live_def TERMINAL_EXECUTION_STATUSES_def)
  from sound_trans [OF s2 this] s2 show ?thesis by (simp add: fail_waiting_def Let_def)
qed

lemma sound_failAttemptDurably: "failAttemptDurably en db a l msg = Inr db' \<Longrightarrow> sound_step coll db db'"
  using sound_fail_waiting by (auto simp: failAttemptDurably_def bindE_Inr_iff split: if_splits)

lemma lockRequest_Inr: "lockRequest db i = Inr q \<longleftrightarrow> find_by aq_proposalId i (d_approvals db) = Some q"
  by (auto simp: lockRequest_def split: option.splits)

lemma lockAttempt_Inr:
  assumes "lockAttempt db q = Inr a"
  shows "a \<in> set (d_attempts db)" and "at_executionId a = aq_executionId q" and "at_logicalStepId a = aq_logicalStepId q"
    and "at_attemptNumber a = aq_attemptNumber q"
  using assms by (auto simp: lockAttempt_def dest!: find_SomeD split: option.splits)

lemma lockStep_Inr:
  assumes "lockStep db e i = Inr l"
  shows "l \<in> set (d_steps db)" and "ls_id l = i" and "ls_executionId l = e"
  using assms by (auto simp: lockStep_def dest!: find_SomeD split: option.splits)

lemma stepConfig_Inr:
  assumes "stepConfig db a l = Inr s"
  obtains r where "r \<in> set (d_revisions db)" "s \<in> set (rv_steps r)" "rv_id r = at_planRevisionId a" "st_id s = ls_stepId l"
  using assms by (auto simp: stepConfig_def dest!: find_by_Some split: option.splits)

lemma sound_resume:
  assumes run: "resume en db a l config = Inr db'" and a: "a \<in> set (d_attempts db)" "at_status a = AWaiting"
    and l: "l \<in> set (d_steps db)"
  shows "sound_step coll db db'"
proof -
  let ?db1 = "db\<lparr>d_attempts := save_by at_id (a\<lparr>at_status := ACreated\<rparr>) (d_attempts db)\<rparr>"
  let ?db2 = "?db1\<lparr>d_steps := save_by ls_id (l\<lparr>ls_status := SRunning\<rparr>) (d_steps ?db1)\<rparr>"
  from run have ins: "insert_outbox ?db2 (new_outbox en a (invocation_of en a config (maxAttempts_of config) [])) = Inr db'"
    by (simp add: resume_def split: if_splits)
  have "sound_step coll db ?db1"
    by (rule sound_save_attempt [OF a(1)]) (simp_all add: a(2) attempt_final_def TERMINAL_ATTEMPTS_def)
  also have "sound_step coll ?db1 ?db2" by (rule sound_save_step [of l]) (simp_all add: l step_view_def)
  also have "sound_step coll ?db2 db'" by (rule sound_insert_outbox [OF ins])
  finally show ?thesis .
qed

lemma failAttemptDurably_approvals: "failAttemptDurably en db a l msg = Inr db' \<Longrightarrow> d_approvals db' = d_approvals db"
  by (auto simp: failAttemptDurably_def fail_waiting_def Let_def bindE_Inr_iff split: if_splits)

lemma resume_approvals: "resume en db a l config = Inr db' \<Longrightarrow> d_approvals db' = d_approvals db"
  by (auto simp: resume_def dest!: insert_outbox_Inr(1) split: if_splits)

lemma sound_settle:
  assumes "sound_step coll db db1" and "d_approvals db1 = d_approvals db" and "q \<in> set (d_approvals db)" "aq_status q = PENDING"
  shows "sound_step coll db (save_request db1 (resolved_request en st nt q))"
  using assms(1) by (rule sound_trans) (rule sound_save_request [of q], use assms(2-4) in simp_all)

lemma settle_requestD: "settle_request en db q st nt = (db', q') \<Longrightarrow>
    db' = save_request db (resolved_request en st nt q) \<and> q' = resolved_request en st nt q"
  by (auto simp: settle_request_def Let_def)

text \<open>The ways an approval of an attempt can end.\<close>

lemma resume_within_budget_cases:
  assumes "resume_within_budget en db q n a l config = Inr (db', q')"
  obtains (refused) led e db2 where "budget_gate en (d_ledger db) (revisionBudget db a) a config = Inr (led, Some e)"
      "failAttemptDurably en (db\<lparr>d_ledger := led\<rparr>) a l (budget_failure e) = Inr db2"
      "settle_request en db2 q APPROVED (note_or n ''budget insufficient'') = (db', q')"
    | (resumed) led db2 where "budget_gate en (d_ledger db) (revisionBudget db a) a config = Inr (led, None)"
      "resume en (db\<lparr>d_ledger := led\<rparr>) a l config = Inr db2"
      "settle_request en db2 q APPROVED (map_option Note n) = (db', q')"
  using assms unfolding resume_within_budget_def bindE_Inr_iff mapL_Inr Let_def
  by (elim exE conjE, split prod.splits option.splits) (auto simp: bindE_Inr_iff mapL_Inr intro: that split: option.splits)

lemma sound_gate:
  assumes "budget_gate en (d_ledger db) v a config = Inr (led, e)" and "r \<in> set (d_revisions db)" "config \<in> set (rv_steps r)"
  shows "sound_step coll db (db\<lparr>d_ledger := led\<rparr>)"
proof (rule sound_ledger_ok)
  assume ok: "runtime_ok coll db"
  show "ledger_ok led"
    by (rule ledger_ok_budget_gate [OF assms(1) runtime_okD(3) [OF ok] plan_step_budget [OF runtime_okD(2) [OF ok] assms(2,3)]])
qed

lemma sound_resume_within_budget:
  assumes run: "resume_within_budget en db q n a l config = Inr (db', q')"
    and q: "q \<in> set (d_approvals db)" "aq_status q = PENDING" and a: "a \<in> set (d_attempts db)" "at_status a = AWaiting"
    and l: "l \<in> set (d_steps db)" and config: "r \<in> set (d_revisions db)" "config \<in> set (rv_steps r)"
  shows "sound_step coll db db'"
  using run
proof (cases rule: resume_within_budget_cases)
  case (refused led e db2)
  have "sound_step coll db db2"
    using sound_trans [OF sound_gate [OF refused(1) config] sound_failAttemptDurably [OF refused(2)]] .
  from sound_settle [OF this _ q] failAttemptDurably_approvals [OF refused(2)] settle_requestD [OF refused(3)]
  show ?thesis by simp
next
  case (resumed led db2)
  have "sound_step coll (db\<lparr>d_ledger := led\<rparr>) db2" by (rule sound_resume [OF resumed(2)]) (simp_all add: a l)
  with sound_gate [OF resumed(1) config] have "sound_step coll db db2" by (rule sound_trans)
  from sound_settle [OF this _ q] resume_approvals [OF resumed(2)] settle_requestD [OF resumed(3)]
  show ?thesis by simp
qed

lemma approve_attempt_cases:
  assumes "approve_attempt en db q n = Inr (db', q')"
  obtains (over) a where "lockAttempt db q = Inr a" "at_status a \<noteq> AWaiting"
      "settle_request en db q APPROVED (note_or n ''attempt already terminal'') = (db', q')"
    | (incapable) a l config db1 where "lockAttempt db q = Inr a" "at_status a = AWaiting" "\<not> negotiated en config"
      "failAttemptDurably en db a l (capability_failure config) = Inr db1"
      "settle_request en db1 q APPROVED (note_or n ''runtime capability changed; dispatch not granted'') = (db', q')"
    | (budgeted) a l config where "lockAttempt db q = Inr a" "at_status a = AWaiting" "negotiated en config"
      "lockStep db (aq_executionId q) (aq_logicalStepId q) = Inr l" "stepConfig db a l = Inr config"
      "resume_within_budget en db q n a l config = Inr (db', q')"
proof -
  from assms obtain a l where a: "lockAttempt db q = Inr a" and l: "lockStep db (aq_executionId q) (aq_logicalStepId q) = Inr l"
    and rest: "(if at_status a \<noteq> AWaiting then Inr (settle_request en db q APPROVED (note_or n ''attempt already terminal''))
       else bindE (stepConfig db a l) (\<lambda>config.
         if \<not> negotiated en config
         then bindE (failAttemptDurably en db a l (capability_failure config)) (\<lambda>db1.
           Inr (settle_request en db1 q APPROVED (note_or n ''runtime capability changed; dispatch not granted'')))
         else resume_within_budget en db q n a l config)) = Inr (db', q')"
    unfolding approve_attempt_def bindE_Inr_iff by blast
  show thesis
  proof (cases "at_status a = AWaiting")
    case True
    with rest obtain config where config: "stepConfig db a l = Inr config"
      and "(if \<not> negotiated en config
         then bindE (failAttemptDurably en db a l (capability_failure config)) (\<lambda>db1.
           Inr (settle_request en db1 q APPROVED (note_or n ''runtime capability changed; dispatch not granted'')))
         else resume_within_budget en db q n a l config) = Inr (db', q')" by (auto simp: bindE_Inr_iff)
    with incapable [OF a True] budgeted [OF a True _ l config] show thesis by (auto simp: bindE_Inr_iff split: if_splits)
  next
    case False
    with over [OF a False] rest show thesis by simp
  qed
qed

lemma sound_approve_attempt:
  assumes run: "approve_attempt en db q n = Inr (db', q')" and q: "q \<in> set (d_approvals db)" "aq_status q = PENDING"
  shows "sound_step coll db db'"
  using run
proof (cases rule: approve_attempt_cases)
  case (over a)
  with sound_settle [OF sound_refl _ q] settle_requestD [OF over(3)] show ?thesis by simp
next
  case (incapable a l config db1)
  from sound_settle [OF sound_failAttemptDurably [OF incapable(4)] failAttemptDurably_approvals [OF incapable(4)] q]
    settle_requestD [OF incapable(5)] show ?thesis by simp
next
  case (budgeted a l config)
  obtain r where "r \<in> set (d_revisions db)" "config \<in> set (rv_steps r)" by (rule stepConfig_Inr [OF budgeted(5)])
  from sound_resume_within_budget [OF budgeted(6) q lockAttempt_Inr(1) [OF budgeted(1)] budgeted(2)
    lockStep_Inr(1) [OF budgeted(4)] this] show ?thesis .
qed

lemma sound_activate: "activateWithManager en late seen db i = Inr (db', out) \<Longrightarrow> sound_step (en_coll en) db db'"
  using activate_sound by (auto simp: sound_step_def)

lemma approve_plan_Inr:
  assumes "approve_plan en late db q n = Inr (db', q')"
  obtains db2 st reason nt where
    "activateWithManager en late (save_request db (resolved_request en APPROVED (note_or n ''approved'') q))
       (save_request db (resolved_request en APPROVED (note_or n ''approved'') q)) (plan_id (aq_proposalId q)) =
       Inr (db2, st, reason)"
    "db' = save_request db2 (resolved_request en APPROVED nt q)" "q' = resolved_request en APPROVED nt q"
  using assms unfolding approve_plan_def bindE_Inr_iff Let_def
  by (elim exE conjE) (auto intro: that dest!: settle_requestD split: prod.splits if_splits)

lemma sound_approve_plan:
  assumes "approve_plan en late db q n = Inr (db', q')" and q: "q \<in> set (d_approvals db)" "aq_status q = PENDING"
  shows "sound_step (en_coll en) db db'"
proof -
  obtain db2 st reason nt where act:
    "activateWithManager en late (save_request db (resolved_request en APPROVED (note_or n ''approved'') q))
       (save_request db (resolved_request en APPROVED (note_or n ''approved'') q)) (plan_id (aq_proposalId q)) =
       Inr (db2, st, reason)"
    and db': "db' = save_request db2 (resolved_request en APPROVED nt q)"
    by (rule approve_plan_Inr [OF assms(1)])
  show ?thesis unfolding db' by (rule sound_save_again [OF q _ _ sound_activate [OF act]]) simp_all
qed

lemma approve_Inr:
  assumes "approve en late db i nt = Inr (db', q')"
  obtains n q where "boundedApprovalNote nt = Inr n" "find_by aq_proposalId i (d_approvals db) = Some q"
    "aq_status q \<noteq> PENDING \<and> db' = db \<and> q' = q \<or> aq_status q = PENDING \<and> aq_actionType q = Policy.PlanPatch \<and>
       approve_plan en late db q n = Inr (db', q') \<or>
     aq_status q = PENDING \<and> aq_actionType q \<noteq> Policy.PlanPatch \<and> approve_attempt en db q n = Inr (db', q')"
  using assms unfolding approve_def bindE_Inr_iff mapL_Inr lockRequest_Inr
  by (elim exE conjE) (rule that, auto split: if_splits)

lemma sound_approve: "approve en late db i nt = Inr (db', q') \<Longrightarrow> sound_step (en_coll en) db db'"
  by (erule approve_Inr) (auto dest: find_by_Some intro: sound_approve_plan sound_approve_attempt)

lemma close_request_cases:
  assumes "close_request en db q st reason msg nt = Inr (db', q')"
  obtains (plan) "settle_request en (terminalizePlanProposal en reason (aq_proposalId q) db) q st nt = (db', q')"
    | (attempt) a l db1 where "lockAttempt db q = Inr a" "failAttemptDurably en db a l msg = Inr db1"
      "settle_request en db1 q st nt = (db', q')"
  using assms unfolding close_request_def by (auto simp: bindE_Inr_iff intro: that split: if_splits)

lemma sound_close_request:
  assumes run: "close_request en db q st reason msg nt = Inr (db', q')" and q: "q \<in> set (d_approvals db)" "aq_status q = PENDING"
  shows "sound_step coll db db'"
  using run
proof (cases rule: close_request_cases)
  case plan
  have "sound_step coll db (terminalizePlanProposal en reason (aq_proposalId q) db)"
    unfolding terminalizePlanProposal_def by (rule sound_set_decision)
  from sound_settle [OF this _ q] settle_requestD [OF plan] show ?thesis
    by (simp add: terminalizePlanProposal_def set_decision_def)
next
  case (attempt a l db1)
  from sound_settle [OF sound_failAttemptDurably [OF attempt(2)] failAttemptDurably_approvals [OF attempt(2)] q]
    settle_requestD [OF attempt(3)] show ?thesis by simp
qed

lemma deny_Inr:
  assumes "deny en db i nt = Inr (db', q')"
  obtains n q where "boundedApprovalNote nt = Inr n" "find_by aq_proposalId i (d_approvals db) = Some q"
    "aq_status q \<noteq> PENDING \<and> db' = db \<and> q' = q \<or> aq_status q = PENDING \<and>
       close_request en db q DENIED ApprovalDenied ''Approval denied'' (map_option Note n) = Inr (db', q')"
  using assms unfolding deny_def bindE_Inr_iff mapL_Inr lockRequest_Inr
  by (elim exE conjE) (rule that, auto split: if_splits)

lemma sound_deny: "deny en db i nt = Inr (db', q') \<Longrightarrow> sound_step coll db db'"
  by (erule deny_Inr) (auto dest: find_by_Some intro: sound_close_request)

lemma sound_expire_one:
  "expire_one en db q = Inr (db', q') \<Longrightarrow> q \<in> set (d_approvals db) \<Longrightarrow> aq_status q = PENDING \<Longrightarrow> sound_step coll db db'"
  unfolding expire_one_def by (rule sound_close_request)

lemma sound_expire: "expire en db i = Inr (db', out) \<Longrightarrow> sound_step coll db db'"
  unfolding expire_def bindE_Inr_iff lockRequest_Inr
  by (auto simp: bindE_Inr_iff dest: find_by_Some intro: sound_expire_one split: if_splits)

lemma close_request_approvals:
  assumes "close_request en db q st reason msg nt = Inr (db', q')"
  shows "d_approvals db' = save_by aq_proposalId (resolved_request en st nt q) (d_approvals db) \<and> q' = resolved_request en st nt q"
  using assms
proof (cases rule: close_request_cases)
  case plan
  from settle_requestD [OF plan] show ?thesis by (simp add: save_request_def terminalizePlanProposal_def set_decision_def)
next
  case (attempt a l db1)
  from settle_requestD [OF attempt(3)] failAttemptDurably_approvals [OF attempt(2)] show ?thesis by (simp add: save_request_def)
qed

lemma expire_step_Inr: "expire_step en db q = Inr db' \<longleftrightarrow> (\<exists>q'. expire_one en db q = Inr (db', q'))"
  by (auto simp: expire_step_def bindE_Inr_iff)

lemma expire_step_approvals:
  assumes "expire_step en db q = Inr db'"
  shows "d_approvals db' = save_by aq_proposalId (resolved_request en EXPIRED (aq_note q) q) (d_approvals db)"
  using assms close_request_approvals by (fastforce simp: expire_step_Inr expire_one_def)

lemma expire_fold:
  assumes "foldE (expire_step en) db qs = Inr db'" and "distinct (map aq_proposalId qs)"
    and "\<forall>q \<in> set qs. q \<in> set (d_approvals db) \<and> aq_status q = PENDING"
  shows "sound_step coll db db'"
    and "d_approvals db' = foldl (\<lambda>as q. save_by aq_proposalId (resolved_request en EXPIRED (aq_note q) q) as) (d_approvals db) qs"
proof -
  have "sound_step coll db db' \<and>
     d_approvals db' = foldl (\<lambda>as q. save_by aq_proposalId (resolved_request en EXPIRED (aq_note q) q) as) (d_approvals db) qs"
    using assms
  proof (induction qs arbitrary: db)
    case (Cons q qs)
    from Cons.prems(1) obtain db1 where db1: "expire_step en db q = Inr db1" "foldE (expire_step en) db1 qs = Inr db'"
      by (auto simp: bindE_Inr_iff split: sum.splits)
    note as = expire_step_approvals [OF db1(1)]
    have "\<forall>p \<in> set qs. p \<in> set (d_approvals db1) \<and> aq_status p = PENDING"
      using Cons.prems(2,3) unfolding as by (auto intro!: in_save_other) (metis imageI)
    with Cons.IH [OF db1(2)] Cons.prems(2) have rest: "sound_step coll db1 db'"
      "d_approvals db' = foldl (\<lambda>as q. save_by aq_proposalId (resolved_request en EXPIRED (aq_note q) q) as) (d_approvals db1) qs"
      by simp_all
    from db1(1) Cons.prems(3) have "sound_step coll db db1" by (auto simp: expire_step_Inr intro: sound_expire_one)
    from sound_trans [OF this rest(1)] rest(2) as show ?case by simp
  qed simp
  then show "sound_step coll db db'" and
    "d_approvals db' = foldl (\<lambda>as q. save_by aq_proposalId (resolved_request en EXPIRED (aq_note q) q) as) (d_approvals db) qs"
    by simp_all
qed

lemma expired_requests_set:
  assumes "q \<in> set (expired_requests en limit db)"
  shows "q \<in> set (d_approvals db) \<and> aq_status q = PENDING \<and> aq_expiresAt q \<le> en_now en"
  using set_take_subset assms unfolding expired_requests_def by fastforce

lemma expired_requests_distinct:
  assumes "keys_ok db"
  shows "distinct (map aq_proposalId (expired_requests en limit db))"
  using assms by (auto simp: expired_requests_def keys_ok_def take_map [symmetric] intro!: distinct_take distinct_map_filter)

lemma expireDue_Inr:
  assumes "expireDue en db limit = Inr (db', n)"
  shows "foldE (expire_step en) db (expired_requests en limit db) = Inr db'" and "n = length (expired_requests en limit db)"
  using assms by (auto simp: expireDue_def bindE_Inr_iff)

lemma sound_expireDue: "expireDue en db limit = Inr (db', n) \<Longrightarrow> sound_step coll db db'"
  unfolding sound_step_def
proof
  assume run: "expireDue en db limit = Inr (db', n)" and ok: "runtime_ok coll db"
  have "sound_step coll db db'"
    by (rule expire_fold(1) [OF expireDue_Inr(1) [OF run] expired_requests_distinct [OF runtime_okD(1) [OF ok]]])
      (use expired_requests_set in blast)
  with ok show "runtime_ok coll db' \<and> facts_kept db db'" by (simp add: sound_step_def)
qed

lemma sound_request: "request en db p v = Inr (db', q) \<Longrightarrow> sound_step coll db db'"
  using sound_insert_approval by (auto simp: request_def bindE_Inr_iff Let_def split: option.splits)

datatype approval_call =
    Request action_proposal jsv
  | Approve "activation option" string jsv
  | Deny string jsv
  | Expire string
  | ExpireDue nat

fun approval_tx :: "env \<Rightarrow> runtime_db \<Rightarrow> approval_call \<Rightarrow> runtime_error + runtime_db" where
  "approval_tx en db (Request p v) = bindE (request en db p v) (\<lambda>(db', q). Inr db')"
| "approval_tx en db (Approve late i nt) = bindE (approve en late db i nt) (\<lambda>(db', q). Inr db')"
| "approval_tx en db (Deny i nt) = bindE (deny en db i nt) (\<lambda>(db', q). Inr db')"
| "approval_tx en db (Expire i) = bindE (expire en db i) (\<lambda>(db', q). Inr db')"
| "approval_tx en db (ExpireDue limit) = bindE (expireDue en db limit) (\<lambda>(db', n). Inr db')"

interpretation approvals: runtime_service approval_tx
proof (rule sound_service)
  show "sound_step (en_coll en) db db'" if "approval_tx en db q = Inr db'" for en db q db'
    using that by (cases q)
      (auto simp: bindE_Inr_iff intro: sound_request sound_approve sound_deny sound_expire sound_expireDue)
qed

subsection \<open>A request is decided once\<close>

text \<open>C22: a decision on an approval request is made once: whatever the approval service does afterwards, the request
  stays as it was decided, and approving or denying it again changes nothing and returns that decision.\<close>

theorem decision_made_once:
  assumes "runtime_ok coll db" and "q \<in> set (d_approvals db)" and "aq_status q \<noteq> PENDING"
    and "approve en late (run_tx (approvals.call coll) db qs) (aq_proposalId q) nt = Inr (db', q') \<or>
      deny en (run_tx (approvals.call coll) db qs) (aq_proposalId q) nt = Inr (db', q')"
  shows "db' = run_tx (approvals.call coll) db qs \<and> q' = q \<and> q \<in> set (d_approvals db')"
proof -
  let ?db = "run_tx (approvals.call coll) db qs"
  from approvals.calls_kept [OF assms(1), of qs] assms(2,3) have q: "q \<in> set (d_approvals ?db)"
    by (simp add: facts_kept_def keeps_def)
  have "keys_ok ?db" using approvals.calls.run_inv [OF assms(1), of qs] by (simp add: runtime_ok_def)
  then have found: "find_by aq_proposalId (aq_proposalId q) (d_approvals ?db) = Some q"
    by (intro find_by_unique q) (simp add: keys_ok_def)
  from assms(4) show ?thesis
  proof
    assume "approve en late ?db (aq_proposalId q) nt = Inr (db', q')"
    with found assms(3) q show ?thesis by (auto elim!: approve_Inr)
  next
    assume "deny en ?db (aq_proposalId q) nt = Inr (db', q')"
    with found assms(3) q show ?thesis by (auto elim!: deny_Inr)
  qed
qed

subsection \<open>Resuming\<close>

lemma activate_work:
  assumes "activateWithManager en late seen db i = Inr (db', out)"
  shows "d_outbox db' = d_outbox db"
  using assms
proof (cases rule: activateWithManager_cases)
  case (pending p)
  from pending(4) show ?thesis
  proof (cases rule: activate_locked_cases)
    case (reject st reason db1)
    with decide_same_plan [OF reject(4)] show ?thesis by (simp add: same_plan_def)
  next
    case waits
    then show ?thesis by (simp add: same_plan_def)
  next
    case (installs x active cand steps db1)
    from install_Inr(10) [OF installs(9)] policy_gate_effect(1) [OF installs(7)] show ?thesis by (simp add: same_plan_def)
  qed
qed simp

lemma failAttemptDurably_outbox: "failAttemptDurably en db a l msg = Inr db' \<Longrightarrow> d_outbox db' = d_outbox db"
  by (auto simp: failAttemptDurably_def fail_waiting_def Let_def bindE_Inr_iff split: if_splits)

lemma resume_Inr:
  assumes "resume en db a l config = Inr db'"
  shows "\<not> active_other db a" and "d_ledger db' = d_ledger db"
    and "d_outbox db' = d_outbox db @ [new_outbox en a (invocation_of en a config (maxAttempts_of config) [])]"
    and "d_attempts db' = save_by at_id (a\<lparr>at_status := ACreated\<rparr>) (d_attempts db)"
  using assms by (auto simp: resume_def dest!: insert_outbox_Inr(1) split: if_splits)

text \<open>C23: approving gives work authority at most once and never without its budget: when the outbox changes, the
  attempt of the request was waiting and becomes CREATED, its runtime still supports the delegation the step asks for, no
  other attempt of the step is active, one row with the attempt's own invocation is added, and every dimension of
  the step's budget is reserved for that invocation.\<close>

theorem resumed_work_is_reserved:
  assumes "approve en late db i nt = Inr (db', q')" and "d_outbox db' \<noteq> d_outbox db"
  shows "\<exists>q \<in> set (d_approvals db). \<exists>a \<in> set (d_attempts db). \<exists>l \<in> set (d_steps db). \<exists>r \<in> set (d_revisions db).
     \<exists>config \<in> set (rv_steps r). aq_proposalId q = i \<and> aq_status q = PENDING \<and> at_executionId a = aq_executionId q \<and>
     at_logicalStepId a = aq_logicalStepId q \<and> at_attemptNumber a = aq_attemptNumber q \<and> at_status a = AWaiting \<and>
     ls_id l = at_logicalStepId a \<and> rv_id r = at_planRevisionId a \<and> st_id config = ls_stepId l \<and>
     negotiated en config \<and> \<not> active_other db a \<and>
     d_attempts db' = save_by at_id (a\<lparr>at_status := ACreated\<rparr>) (d_attempts db) \<and>
     d_outbox db' = d_outbox db @ [new_outbox en a (invocation_of en a config (maxAttempts_of config) [])] \<and>
     reserved (d_ledger db') a config"
  using assms(1)
proof (rule approve_Inr)
  fix n q
  assume q: "find_by aq_proposalId i (d_approvals db) = Some q"
  note inq = find_by_Some [OF q]
  assume "aq_status q \<noteq> PENDING \<and> db' = db \<and> q' = q \<or> aq_status q = PENDING \<and> aq_actionType q = Policy.PlanPatch \<and>
      approve_plan en late db q n = Inr (db', q') \<or>
    aq_status q = PENDING \<and> aq_actionType q \<noteq> Policy.PlanPatch \<and> approve_attempt en db q n = Inr (db', q')"
  moreover have "\<not> approve_plan en late db q n = Inr (db', q')"
  proof
    assume "approve_plan en late db q n = Inr (db', q')"
    then show False
      by (rule approve_plan_Inr) (use activate_work assms(2) in \<open>fastforce simp: save_request_def\<close>)
  qed
  ultimately have pending: "aq_status q = PENDING" and "approve_attempt en db q n = Inr (db', q')" using assms(2) by auto
  from this(2) show ?thesis
  proof (cases rule: approve_attempt_cases)
    case (over a)
    with settle_requestD [OF over(3)] assms(2) show ?thesis by (simp add: save_request_def)
  next
    case (incapable a l config db1)
    with settle_requestD [OF incapable(5)] failAttemptDurably_outbox [OF incapable(4)] assms(2) show ?thesis
      by (simp add: save_request_def)
  next
    case (budgeted a l config)
    from budgeted(6) show ?thesis
    proof (cases rule: resume_within_budget_cases)
      case (refused led e db2)
      with settle_requestD [OF refused(3)] failAttemptDurably_outbox [OF refused(2)] assms(2) show ?thesis
        by (simp add: save_request_def)
    next
      case (resumed led db2)
      obtain r where r: "r \<in> set (d_revisions db)" "config \<in> set (rv_steps r)"
        "rv_id r = at_planRevisionId a" "st_id config = ls_stepId l" by (rule stepConfig_Inr [OF budgeted(5)])
      from resume_Inr [OF resumed(2)] settle_requestD [OF resumed(3)] budget_gate_reserved [OF resumed(1)]
      have "d_outbox db' = d_outbox db @ [new_outbox en a (invocation_of en a config (maxAttempts_of config) [])]"
        "d_attempts db' = save_by at_id (a\<lparr>at_status := ACreated\<rparr>) (d_attempts db)" "reserved (d_ledger db') a config"
        "\<not> active_other db a" by (simp_all add: save_request_def active_other_def)
      with lockAttempt_Inr [OF budgeted(1)] lockStep_Inr [OF budgeted(4)] budgeted(2,3) r inq pending show ?thesis
        by (intro bexI [of _ q] bexI [of _ a] bexI [of _ l] bexI [of _ r] bexI [of _ config] conjI) simp_all
    qed
  qed
qed

subsection \<open>Sweeping\<close>

text \<open>What a sweep needs of a request: the rows that the request names exist.\<close>

definition answerable :: "runtime_db \<Rightarrow> approval_row \<Rightarrow> bool" where
  "answerable db q \<longleftrightarrow> aq_actionType q = Policy.PlanPatch \<or>
     (case (lockAttempt db q, lockStep db (aq_executionId q) (aq_logicalStepId q)) of
        (Inr a, Inr l) \<Rightarrow> \<not> isl (stepConfig db a l) | _ \<Rightarrow> False)"

lemma find_update_where:
  assumes "\<And>r. P (if Q r then f r else r) = P r"
  shows "find P (update_where Q f rows) = map_option (\<lambda>r. if Q r then f r else r) (find P rows)"
proof (induction rows)
  case (Cons r rows)
  with assms [of r] show ?case by (cases "P r") (simp_all add: update_where_def)
qed (simp add: update_where_def)

lemma fail_waiting_rows:
  shows "\<exists>retry. d_steps (fail_waiting en db a l config msg) = update_where (step_waits (ls_id l)) (failed_step en (Message msg) retry) (d_steps db)"
    and "d_attempts (fail_waiting en db a l config msg) = update_where (waits (at_id a)) (failed_attempt en (Message msg)) (d_attempts db)"
    and "d_revisions (fail_waiting en db a l config msg) = d_revisions db"
  by (auto simp: fail_waiting_def Let_def)

lemma answerable_fail_waiting: "answerable db q \<Longrightarrow> answerable (fail_waiting en db a l config msg) q"
proof -
  let ?db = "fail_waiting en db a l config msg"
  obtain retry where steps: "d_steps ?db = update_where (step_waits (ls_id l)) (failed_step en (Message msg) retry) (d_steps db)"
    using fail_waiting_rows(1) by blast
  have a': "lockAttempt ?db q = map_sum id (\<lambda>r. if waits (at_id a) r then failed_attempt en (Message msg) r else r) (lockAttempt db q)"
    by (simp add: lockAttempt_def fail_waiting_rows(2), subst find_update_where)
      (auto simp: failed_attempt_def split: option.split)
  have l': "lockStep ?db e i = map_sum id (\<lambda>r. if step_waits (ls_id l) r then failed_step en (Message msg) retry r else r) (lockStep db e i)" for e i
    by (simp add: lockStep_def steps, subst find_update_where) (auto simp: failed_step_def split: option.split)
  have c': "stepConfig ?db b' k' = stepConfig db b k"
    if "at_planRevisionId b' = at_planRevisionId b" and "ls_stepId k' = ls_stepId k" for b b' k k'
    unfolding stepConfig_def fail_waiting_rows(3) that ..
  assume ans: "answerable db q"
  show ?thesis
  proof (cases "aq_actionType q = Policy.PlanPatch")
    case False
    with ans obtain b k where rows: "lockAttempt db q = Inr b" "lockStep db (aq_executionId q) (aq_logicalStepId q) = Inr k"
      "\<not> isl (stepConfig db b k)" by (auto simp: answerable_def split: sum.splits)
    have "stepConfig ?db (if waits (at_id a) b then failed_attempt en (Message msg) b else b)
        (if step_waits (ls_id l) k then failed_step en (Message msg) retry k else k) = stepConfig db b k"
      by (rule c') (simp_all add: failed_step_def failed_attempt_def)
    with rows(3) show ?thesis unfolding answerable_def a' l' rows(1,2) map_sum.simps prod.case sum.case by simp
  qed (simp add: answerable_def)
qed

lemma answerable_frame:
  "d_attempts db' = d_attempts db \<Longrightarrow> d_steps db' = d_steps db \<Longrightarrow> d_revisions db' = d_revisions db \<Longrightarrow> answerable db' q = answerable db q"
proof -
  assume same: "d_attempts db' = d_attempts db" "d_steps db' = d_steps db" "d_revisions db' = d_revisions db"
  then have "stepConfig db' = stepConfig db" by (intro ext) (simp add: stepConfig_def)
  moreover have "lockAttempt db' = lockAttempt db" "lockStep db' = lockStep db"
    by (intro ext, simp add: lockAttempt_def lockStep_def same)+
  ultimately show ?thesis unfolding answerable_def by presburger
qed

lemma failAttemptDurably_answerable: "failAttemptDurably en db a l msg = Inr db' \<Longrightarrow> answerable db q \<Longrightarrow> answerable db' q"
  by (auto simp: failAttemptDurably_def bindE_Inr_iff answerable_fail_waiting split: if_splits)

lemma expire_step_answerable:
  assumes "answerable db q"
  shows "\<exists>db'. expire_step en db q = Inr db' \<and> (\<forall>p. answerable db p \<longrightarrow> answerable db' p)"
proof (cases "aq_actionType q = Policy.PlanPatch")
  case True
  let ?db = "save_request (terminalizePlanProposal en ApprovalExpired (aq_proposalId q) db) (resolved_request en EXPIRED (aq_note q) q)"
  have "expire_step en db q = Inr ?db"
    using True by (simp add: expire_step_def expire_one_def close_request_def settle_request_def Let_def)
  moreover have "answerable ?db p = answerable db p" for p
    by (rule answerable_frame) (simp_all add: save_request_def terminalizePlanProposal_def set_decision_def)
  ultimately show ?thesis by blast
next
  case False
  with assms obtain a l c where rows: "lockAttempt db q = Inr a" "lockStep db (aq_executionId q) (aq_logicalStepId q) = Inr l"
    "stepConfig db a l = Inr c"
    by (auto simp: answerable_def isl_def split: sum.splits) (metis sum.exhaust)
  then obtain db1 where db1: "failAttemptDurably en db a l ''Approval expired'' = Inr db1"
    by (cases "affected (waits (at_id a)) (d_attempts db) = 1") (auto simp: failAttemptDurably_def)
  let ?db = "save_request db1 (resolved_request en EXPIRED (aq_note q) q)"
  have "expire_step en db q = Inr ?db"
    using False rows db1 by (simp add: expire_step_def expire_one_def close_request_def settle_request_def Let_def)
  moreover have "answerable ?db p" if "answerable db p" for p
    using failAttemptDurably_answerable [OF db1 that] answerable_frame [of ?db db1 p] by (simp add: save_request_def)
  ultimately show ?thesis by blast
qed

lemma expire_fold_answerable:
  "\<forall>q \<in> set qs. answerable db q \<Longrightarrow> \<exists>db'. foldE (expire_step en) db qs = Inr db' \<and> (\<forall>p. answerable db p \<longrightarrow> answerable db' p)"
proof (induction qs arbitrary: db)
  case (Cons q qs)
  then have "answerable db q" by simp
  from expire_step_answerable [OF this, of en] obtain db1 where db1: "expire_step en db q = Inr db1"
    "\<And>p. answerable db p \<Longrightarrow> answerable db1 p" by blast
  with Cons.IH [of db1] Cons.prems show ?case by auto
qed simp

text \<open>The requests that are due.\<close>

definition overdue :: "env \<Rightarrow> runtime_db \<Rightarrow> approval_row list" where
  "overdue en db = filter (\<lambda>q. aq_status q = PENDING \<and> aq_expiresAt q \<le> en_now en) (d_approvals db)"

lemma count_save:
  assumes "distinct (map k rows)" and "q \<in> set rows" "D q" and "k q' = k q" "\<not> D q'"
  shows "length (filter D (save_by k q' rows)) = length (filter D rows) - 1"
  using assms(1,2)
proof (induction rows)
  case (Cons r rows)
  show ?case
  proof (cases "r = q")
    case True
    with Cons.prems have "k q \<notin> k ` set rows" by auto
    then have "save_by k q' rows = rows"
      by (auto simp: save_by_def update_where_def assms(4) intro!: map_idI) (metis imageI)
    with True assms show ?thesis by (simp add: save_by_def update_where_def)
  next
    case False
    with Cons.prems have q: "q \<in> set rows" "k r \<noteq> k q" by (auto simp: rev_image_eqI)
    with assms(3) have "length (filter D rows) > 0" by (auto simp: filter_empty_conv)
    with q Cons assms show ?thesis by (auto simp: save_by_def update_where_def)
  qed
qed simp

lemma expire_fold_overdue:
  assumes "foldE (expire_step en) db qs = Inr db'" and "distinct (map aq_proposalId qs)" and "distinct (map aq_proposalId (d_approvals db))"
    and "\<forall>q \<in> set qs. q \<in> set (overdue en db)"
  shows "length (overdue en db') = length (overdue en db) - length qs \<and>
     (\<forall>q \<in> set (d_approvals db). if q \<in> set qs then resolved_request en EXPIRED (aq_note q) q \<in> set (d_approvals db')
        else aq_proposalId q \<notin> aq_proposalId ` set qs \<longrightarrow> q \<in> set (d_approvals db'))"
  using assms
proof (induction qs arbitrary: db)
  case (Cons q qs)
  from Cons.prems(1) obtain db1 where db1: "expire_step en db q = Inr db1" "foldE (expire_step en) db1 qs = Inr db'"
    by (auto simp: bindE_Inr_iff)
  let ?q = "resolved_request en EXPIRED (aq_note q) q"
  note as = expire_step_approvals [OF db1(1)]
  have q: "q \<in> set (d_approvals db)" "aq_status q = PENDING" "aq_expiresAt q \<le> en_now en"
    using Cons.prems(4) by (auto simp: overdue_def)
  have len: "length (overdue en db1) = length (overdue en db) - 1"
    unfolding overdue_def as by (rule count_save [OF Cons.prems(3) q(1)]) (use q in simp_all)
  have d1: "distinct (map aq_proposalId (d_approvals db1))" using Cons.prems(3) by (simp add: as map_save_by)
  have "\<forall>p \<in> set qs. p \<in> set (overdue en db1)"
  proof
    fix p assume p: "p \<in> set qs"
    with Cons.prems(2) have "aq_proposalId p \<noteq> aq_proposalId q" by (auto simp: rev_image_eqI)
    with p Cons.prems(4) show "p \<in> set (overdue en db1)" by (auto simp: overdue_def as intro: in_save_other)
  qed
  from Cons.IH [OF db1(2) _ d1 this] Cons.prems(2) have IH: "length (overdue en db') = length (overdue en db1) - length qs"
    "\<forall>p \<in> set (d_approvals db1). if p \<in> set qs then resolved_request en EXPIRED (aq_note p) p \<in> set (d_approvals db')
        else aq_proposalId p \<notin> aq_proposalId ` set qs \<longrightarrow> p \<in> set (d_approvals db')" by simp_all
  have "?q \<in> set (d_approvals db1)" using q(1) by (force simp: as save_by_def update_where_def)
  moreover have "aq_proposalId ?q \<notin> aq_proposalId ` set qs" using Cons.prems(2) by simp
  moreover from this have "?q \<notin> set qs" by blast
  ultimately have recorded: "?q \<in> set (d_approvals db')" using IH(2) by metis
  have "if p \<in> set (q # qs) then resolved_request en EXPIRED (aq_note p) p \<in> set (d_approvals db')
      else aq_proposalId p \<notin> aq_proposalId ` set (q # qs) \<longrightarrow> p \<in> set (d_approvals db')" if p: "p \<in> set (d_approvals db)" for p
  proof (cases "p = q")
    case False
    with distinct_map_eq [OF Cons.prems(3) p q(1)] have "aq_proposalId p \<noteq> aq_proposalId q" by blast
    with p have "p \<in> set (d_approvals db1)" by (simp add: as in_save_other)
    with IH(2) False show ?thesis by auto
  qed (use recorded in simp)
  with IH(1) len show ?case by simp
qed simp

primrec sweeps :: "env \<Rightarrow> nat \<Rightarrow> nat \<Rightarrow> runtime_db \<Rightarrow> runtime_error + runtime_db" where
  "sweeps en limit 0 db = Inr db"
| "sweeps en limit (Suc k) db = bindE (expireDue en db limit) (\<lambda>(db1, n). sweeps en limit k db1)"

lemma expired_requests_overdue: "expired_requests en limit db = take limit (overdue en db)"
  by (simp add: expired_requests_def overdue_def)

lemma in_expired_fold:
  "q \<in> set (foldl (\<lambda>as q. save_by aq_proposalId (resolved_request en EXPIRED (aq_note q) q) as) as qs) \<Longrightarrow>
     q \<in> set as \<or> (\<exists>p \<in> set qs. q = resolved_request en EXPIRED (aq_note p) p)"
proof (induction qs arbitrary: as)
  case (Cons p qs)
  from Cons.IH [of "save_by aq_proposalId (resolved_request en EXPIRED (aq_note p) p) as"] Cons.prems show ?case
    by (auto dest: in_save_by)
qed simp

lemma sweep_once:
  assumes "runtime_ok coll db" and "\<forall>q \<in> set (d_approvals db). answerable db q"
  obtains db' where "expireDue en db limit = Inr (db', length (take limit (overdue en db)))" "runtime_ok coll db'" "facts_kept db db'"
    "\<forall>q \<in> set (d_approvals db'). answerable db' q" "length (overdue en db') = length (overdue en db) - limit"
    "\<forall>q \<in> set (overdue en db). q \<in> set (overdue en db') \<or> resolved_request en EXPIRED (aq_note q) q \<in> set (d_approvals db')"
proof -
  let ?qs = "expired_requests en limit db"
  have sub: "\<forall>q \<in> set ?qs. q \<in> set (overdue en db)" by (auto simp: expired_requests_overdue dest: in_set_takeD)
  with assms(2) have "\<forall>q \<in> set ?qs. answerable db q" by (auto simp: overdue_def)
  from expire_fold_answerable [OF this, of en] obtain db' where run: "foldE (expire_step en) db ?qs = Inr db'"
    and ans: "\<And>p. answerable db p \<Longrightarrow> answerable db' p" by blast
  have keys: "distinct (map aq_proposalId (d_approvals db))" using runtime_okD(1) [OF assms(1)] by (simp add: keys_ok_def)
  note dist = expired_requests_distinct [OF runtime_okD(1) [OF assms(1)], of en limit]
  note swept = expire_fold_overdue [OF run dist keys sub]
  have ran: "expireDue en db limit = Inr (db', length (take limit (overdue en db)))"
    using run by (simp add: expireDue_def expired_requests_overdue)
  have pend: "\<forall>q \<in> set ?qs. q \<in> set (d_approvals db) \<and> aq_status q = PENDING" using expired_requests_set by blast
  note as = expire_fold(2) [OF run dist pend]
  have answ: "answerable db (resolved_request en st nt q) = answerable db q" for st nt q db
    by (simp add: answerable_def lockAttempt_def resolved_request_def)
  have "\<forall>q \<in> set (d_approvals db'). answerable db' q"
  proof
    fix q assume "q \<in> set (d_approvals db')"
    from in_expired_fold [OF this [unfolded as]]
    have "answerable db q" using assms(2) pend answ by blast
    then show "answerable db' q" by (rule ans)
  qed
  moreover have "\<forall>q \<in> set (overdue en db). q \<in> set (overdue en db') \<or> resolved_request en EXPIRED (aq_note q) q \<in> set (d_approvals db')"
  proof
    fix q assume q: "q \<in> set (overdue en db)"
    then have inq: "q \<in> set (d_approvals db)" by (simp add: overdue_def)
    show "q \<in> set (overdue en db') \<or> resolved_request en EXPIRED (aq_note q) q \<in> set (d_approvals db')"
    proof (cases "q \<in> set ?qs")
      case False
      have "aq_proposalId q \<notin> aq_proposalId ` set ?qs" using distinct_map_eq [OF keys inq] False pend by fastforce
      with swept inq False q show ?thesis by (auto simp: overdue_def)
    qed (use swept inq in auto)
  qed
  moreover have "length (overdue en db') = length (overdue en db) - limit" using swept by (simp add: expired_requests_overdue)
  moreover from sound_expireDue [OF ran, of coll] assms(1) have "runtime_ok coll db'" "facts_kept db db'" by (auto simp: sound_step_def)
  ultimately show ?thesis using that [OF ran] by blast
qed

lemma sweeps_kept:
  assumes "runtime_ok coll db" and "\<forall>q \<in> set (d_approvals db). answerable db q" and "sweeps en limit k db = Inr db'"
  shows "facts_kept db db'"
  using assms
proof (induction k arbitrary: db)
  case (Suc k)
  obtain db1 where db1: "expireDue en db limit = Inr (db1, length (take limit (overdue en db)))" "runtime_ok coll db1"
    "facts_kept db db1" "\<forall>q \<in> set (d_approvals db1). answerable db1 q"
    by (rule sweep_once [OF Suc.prems(1,2), where en = en and limit = limit])
  with Suc.IH [OF db1(2,4)] Suc.prems(3) facts_kept_trans [OF db1(3)] show ?case by simp
qed simp

text \<open>C24: the sweep gets to every request: when the rows of the requests exist, each sweep commits, sweeps of \<open>limit\<close>
  leave \<open>limit\<close> fewer due requests each, and once there were enough of them every request that was due at the
  start is recorded as EXPIRED.\<close>

theorem sweeps_expire_all:
  assumes "runtime_ok coll db" and "\<forall>q \<in> set (d_approvals db). answerable db q"
  shows "\<exists>db'. sweeps en limit k db = Inr db' \<and> length (overdue en db') = length (overdue en db) - k * limit \<and>
     (length (overdue en db) \<le> k * limit \<longrightarrow>
        (\<forall>q \<in> set (overdue en db). resolved_request en EXPIRED (aq_note q) q \<in> set (d_approvals db')))"
  using assms
proof (induction k arbitrary: db)
  case (Suc k)
  obtain db1 where db1: "expireDue en db limit = Inr (db1, length (take limit (overdue en db)))" "runtime_ok coll db1"
    "\<forall>q \<in> set (d_approvals db1). answerable db1 q" "length (overdue en db1) = length (overdue en db) - limit"
    "\<forall>q \<in> set (overdue en db). q \<in> set (overdue en db1) \<or> resolved_request en EXPIRED (aq_note q) q \<in> set (d_approvals db1)"
    by (rule sweep_once [OF Suc.prems, where en = en and limit = limit])
  obtain db' where db': "sweeps en limit k db1 = Inr db'" "length (overdue en db') = length (overdue en db1) - k * limit"
    "length (overdue en db1) \<le> k * limit \<Longrightarrow>
       (\<forall>q \<in> set (overdue en db1). resolved_request en EXPIRED (aq_note q) q \<in> set (d_approvals db'))"
    using Suc.IH [OF db1(2,3)] by blast
  from sweeps_kept [OF db1(2,3) db'(1)]
  have "resolved_request en EXPIRED (aq_note q) q \<in> set (d_approvals db1) \<Longrightarrow>
      resolved_request en EXPIRED (aq_note q) q \<in> set (d_approvals db')" for q
    by (auto simp: facts_kept_def keeps_def)
  with db1 db' show ?case by (auto simp: algebra_simps)
qed (simp add: overdue_def)

subsection \<open>Concrete runs\<close>

definition ex_request :: approval_row where
  "ex_request = \<lparr>aq_proposalId = ''q'', aq_hash = ''h'', aq_actionType = Policy.Dispatch, aq_executionId = ''e'',
     aq_logicalStepId = ''step:b'', aq_attemptNumber = 1, aq_agent = Some ''x'', aq_executor = None, aq_status = PENDING,
     aq_expiresAt = 5, aq_decidedAt = None, aq_note = None\<rparr>"

definition ex_budget_step :: step where
  "ex_budget_step = (ex_plan_step ''b'' (Some [''a'']) False)\<lparr>st_budget := Some [(Tokens, 10)]\<rparr>"

definition ex_wait_db :: runtime_db where
  "ex_wait_db = ex_plan_db\<lparr>
     d_revisions := [ex_revision\<lparr>rv_steps := [ex_plan_step ''a'' None True, ex_budget_step]\<rparr>],
     d_steps := map (\<lambda>l. if ls_id l = ''step:b'' then l\<lparr>ls_status := SWaiting\<rparr> else l) (d_steps ex_plan_db),
     d_attempts := [ex_attempt, ex_task\<lparr>at_status := AWaiting\<rparr>], d_approvals := [ex_request]\<rparr>"

lemma ex_wait_sound: "runtime_ok ex_coll ex_wait_db"
proof -
  have "plans_ok ex_coll ex_wait_db" "keys_ok ex_wait_db" by code_simp+
  moreover have "d_ledger ex_wait_db = \<lparr>accounts = [], reservations = [], ledger = []\<rparr>" "d_evidence ex_wait_db = []"
    "d_runs ex_wait_db = [ex_run]" by (simp_all add: ex_wait_db_def ex_plan_db_def)
  ultimately show ?thesis using ex_empty_ledger state_ok_empty
    by (simp add: runtime_ok_def states_ok_def evidence_ok_def ex_run_def run_state_def)
qed

lemma ex_decisions:
  "case deny ex_env ex_wait_db ''q'' (JStr ''no'') of Inl _ \<Rightarrow> False
   | Inr (db', q') \<Rightarrow> aq_status q' = DENIED \<and> q' \<in> set (d_approvals db') \<and> keys_ok db' \<and> aq_proposalId q' = ''q'' \<and>
       (case approve ex_env None db' ''q'' JUndef of Inl _ \<Rightarrow> False | Inr (db'', q'') \<Rightarrow> True)"
  by code_simp

text \<open>Denied, then approved: the denial stands.\<close>

theorem decision_made_once_witness:
  "\<exists>db' q' db'' q''. deny ex_env ex_wait_db ''q'' (JStr ''no'') = Inr (db', q') \<and> aq_status q' = DENIED \<and>
     approve ex_env None db' ''q'' JUndef = Inr (db'', q'') \<and> db'' = db' \<and> q'' = q'"
proof -
  obtain db' q' db'' q'' where run: "deny ex_env ex_wait_db ''q'' (JStr ''no'') = Inr (db', q')" "aq_status q' = DENIED"
    "q' \<in> set (d_approvals db')" "aq_proposalId q' = ''q''" "approve ex_env None db' ''q'' JUndef = Inr (db'', q'')"
    using ex_decisions by (auto split: sum.splits prod.splits)
  have "runtime_ok ex_coll db'" using sound_deny [OF run(1), of ex_coll] ex_wait_sound by (simp add: sound_step_def)
  from decision_made_once [OF this run(3), of ex_env None "[]" JUndef db'' q''] run show ?thesis by simp
qed

lemma ex_resumption:
  "case approve ex_env None ex_wait_db ''q'' JUndef of Inl _ \<Rightarrow> False
   | Inr (db', q') \<Rightarrow> length (d_outbox db') = 1 \<and> map at_status (d_attempts db') = [ASuccess, ACreated]"
  by code_simp

theorem resumed_work_is_reserved_witness:
  "\<exists>db' q'. approve ex_env None ex_wait_db ''q'' JUndef = Inr (db', q') \<and>
     (\<exists>r \<in> set (reservations (d_ledger db')). r_action r = Some ''i2'' \<and> r_dimension r = Tokens \<and> r_amount r = 10)"
proof -
  obtain db' q' where run: "approve ex_env None ex_wait_db ''q'' JUndef = Inr (db', q')" "length (d_outbox db') = 1"
    using ex_resumption by (auto split: sum.splits prod.splits)
  then have "d_outbox db' \<noteq> d_outbox ex_wait_db" by (auto simp: ex_wait_db_def ex_plan_db_def)
  from resumed_work_is_reserved [OF run(1) this] obtain a :: attempt and l :: logical_step and r :: revision and config
    where row: "a \<in> set (d_attempts ex_wait_db)" "at_status a = AWaiting" "l \<in> set (d_steps ex_wait_db)" "ls_id l = at_logicalStepId a"
      "r \<in> set (d_revisions ex_wait_db)" "config \<in> set (rv_steps r)" "st_id config = ls_stepId l"
      and res: "reserved (d_ledger db') a config" by blast
  from row(1,2) have a: "a = ex_task\<lparr>at_status := AWaiting\<rparr>" by (auto simp: ex_wait_db_def ex_attempt_def)
  with row(3,4) have "ls_stepId l = ''b''"
    by (auto simp: ex_wait_db_def ex_plan_db_def new_logical_step_def ex_task_def ex_plan_step_def ex_env_def)
  with row(5-7) have "config = ex_budget_step" by (auto simp: ex_wait_db_def ex_plan_step_def)
  with res run(1) show ?thesis
    by (auto simp: a ex_budget_step_def reserved_def reserves_def attempt_budget_of_def ex_task_def)
qed

definition ex_sweep_db :: runtime_db where
  "ex_sweep_db = ex_wait_db\<lparr>d_approvals := [ex_request, ex_request\<lparr>aq_proposalId := ''q2''\<rparr>]\<rparr>"

theorem sweeps_expire_all_witness:
  "\<exists>db'. sweeps ex_env 1 2 ex_sweep_db = Inr db' \<and> overdue ex_env db' = []"
proof -
  have "plans_ok ex_coll ex_sweep_db" "keys_ok ex_sweep_db" by code_simp+
  moreover have "d_ledger ex_sweep_db = d_ledger ex_wait_db" "d_evidence ex_sweep_db = d_evidence ex_wait_db"
    "d_runs ex_sweep_db = d_runs ex_wait_db" "d_inbox ex_sweep_db = d_inbox ex_wait_db" by (simp_all add: ex_sweep_db_def)
  ultimately have ok: "runtime_ok ex_coll ex_sweep_db"
    using ex_wait_sound by (simp add: runtime_ok_def states_ok_def evidence_ok_def)
  have "\<forall>q \<in> set (d_approvals ex_sweep_db). answerable ex_sweep_db q" by code_simp
  from sweeps_expire_all [OF ok this, of ex_env 1 2] show ?thesis
    by (auto simp: ex_sweep_db_def overdue_def)
qed

subsection \<open>Approving under an execution that is over\<close>

text \<open>The request waits while another step fails the execution.\<close>

definition ex_over_db :: runtime_db where
  "ex_over_db = ex_wait_db\<lparr>d_runs := [ex_run\<lparr>x_status := Failed\<rparr>]\<rparr>"


end
