(* ===== verification/ArtifactProjection.thy ===== *)
theory ArtifactProjection
  imports Approvals_Properties
begin

text \<open>
  services/orchestrator/src/services/artifact-projection.resolver.ts: which artifacts a claim is shown. Only the applied
  result of the latest successful attempt of a declared step of the same execution is eligible, and each descriptor
  is checked against the hash that was registered with its row.
\<close>

subsection \<open>Definitions\<close>

definition maxArtifactReferences :: nat where "maxArtifactReferences = 128"

datatype artifact_error =
    PRODUCER_MISSING | FOREIGN_ARTIFACT | ORDINAL_MISMATCH | FILTER_NO_MATCH | ARTIFACT_OVERLAP | ARTIFACT_LIMIT

text \<open>The selectors are validated again: that error is not one of the projection.\<close>

datatype resolution_error = SelectorsInvalid projection_error | ArtifactFault artifact_error

record producer =
  pd_eligible :: bool
  pd_stepId :: string
  pd_attemptId :: "string option"
  pd_artifacts :: "(artifact_row \<times> jsv) list"

definition ineligible :: "string \<Rightarrow> producer" where
  "ineligible fromStep = \<lparr>pd_eligible = False, pd_stepId = fromStep, pd_attemptId = None, pd_artifacts = []\<rparr>"

definition with_descriptor :: "env \<Rightarrow> jsv list \<Rightarrow> artifact_row \<Rightarrow> artifact_error + artifact_row \<times> jsv" where
  "with_descriptor en ds row =
     (if af_ordinal row < length ds \<and> truthy (ds ! af_ordinal row) \<and>
         sha256Json (en_sha en) (en_coll en) (ds ! af_ordinal row) = af_hash row
      then Inr (row, ds ! af_ordinal row) else Inl ORDINAL_MISMATCH)"

definition latest_success :: "runtime_db \<Rightarrow> string \<Rightarrow> attempt option" where
  "latest_success db logicalStepId =
     find (\<lambda>a. at_logicalStepId a = logicalStepId \<and> at_status a = ASuccess)
       (sort_by (\<lambda>a b. at_attemptNumber a \<ge> at_attemptNumber b) (d_attempts db))"

definition produced :: "env \<Rightarrow> runtime_db \<Rightarrow> string \<Rightarrow> attempt \<Rightarrow> inbox_row \<Rightarrow> artifact_error + producer" where
  "produced en db fromStep a inbox =
     bindE (mapE (with_descriptor en (js_list (getp (ib_payload inbox) ''artifacts'')))
         (sort_by (\<lambda>x y. af_ordinal x \<le> af_ordinal y) (filter (\<lambda>r. af_inbox r = ib_id inbox) (d_artifacts db)))) (\<lambda>arts.
       Inr \<lparr>pd_eligible = True, pd_stepId = fromStep, pd_attemptId = Some (at_id a), pd_artifacts = arts\<rparr>)"

definition resolveProducer :: "env \<Rightarrow> runtime_db \<Rightarrow> string \<Rightarrow> string \<Rightarrow> artifact_error + producer" where
  "resolveProducer en db executionId fromStep =
     (case find (\<lambda>l. ls_executionId l = executionId \<and> ls_stepId l = fromStep) (d_steps db) of
        None \<Rightarrow> Inl PRODUCER_MISSING
      | Some l \<Rightarrow>
          (case latest_success db (ls_id l) of
             None \<Rightarrow> Inr (ineligible fromStep)
           | Some a \<Rightarrow>
               if at_executionId a \<noteq> executionId then Inl FOREIGN_ARTIFACT
               else (case find (\<lambda>r. ib_attempt r = at_id a \<and> ib_status r = IApplied) (d_inbox db) of
                  None \<Rightarrow> Inr (ineligible fromStep)
                | Some inbox \<Rightarrow> produced en db fromStep a inbox)))"

definition str_member :: "jsv \<Rightarrow> string \<Rightarrow> string option" where
  "str_member d k = (case getp d k of JStr s \<Rightarrow> Some s | _ \<Rightarrow> None)"

definition buildReference :: "producer \<Rightarrow> artifact_row \<Rightarrow> jsv \<Rightarrow> artifact_selector \<Rightarrow> artifact_reference" where
  "buildReference p row d sel =
     \<lparr>ar_artifactId = af_id row, ar_producerStepId = pd_stepId p,
      ar_producerAttemptId = (case pd_attemptId p of None \<Rightarrow> [] | Some i \<Rightarrow> i),
      ar_descriptorOrdinal = int (af_ordinal row), ar_name = str_member d ''name'', ar_mediaType = str_member d ''mediaType'',
      ar_uri = str_member d ''uri'',
      ar_metadata = (if as_includeMetadata sel = Some True
        then (case getp d ''metadata'' of JObj kvs \<Rightarrow> Some kvs | _ \<Rightarrow> None) else None)\<rparr>"

definition selects :: "artifact_selector \<Rightarrow> artifact_row \<times> jsv \<Rightarrow> bool" where
  "selects sel rd \<longleftrightarrow>
     (case as_name sel of
        Some n \<Rightarrow> getp (snd rd) ''name'' = JStr n
      | None \<Rightarrow> (case as_ordinal sel of Some i \<Rightarrow> int (af_ordinal (fst rd)) = i | None \<Rightarrow> True))"

definition add_reference ::
  "producer \<Rightarrow> artifact_selector \<Rightarrow> artifact_reference list \<times> artifact_row list \<Rightarrow> artifact_row \<times> jsv \<Rightarrow>
     artifact_error + artifact_reference list \<times> artifact_row list" where
  "add_reference p sel acc rd =
     (if af_id (fst rd) \<in> af_id ` set (snd acc) then Inl ARTIFACT_OVERLAP
      else Inr (fst acc @ [buildReference p (fst rd) (snd rd) sel], snd acc @ [fst rd]))"

definition memo_producer ::
  "env \<Rightarrow> runtime_db \<Rightarrow> string \<Rightarrow> (string \<times> producer) list \<Rightarrow> string \<Rightarrow> artifact_error + producer \<times> (string \<times> producer) list" where
  "memo_producer en db executionId memo fromStep =
     (case map_of memo fromStep of
        Some p \<Rightarrow> Inr (p, memo)
      | None \<Rightarrow> bindE (resolveProducer en db executionId fromStep) (\<lambda>p. Inr (p, memo @ [(fromStep, p)])))"

definition select_artifacts ::
  "producer \<Rightarrow> artifact_selector \<Rightarrow> artifact_reference list \<times> artifact_row list \<Rightarrow>
     artifact_error + artifact_reference list \<times> artifact_row list" where
  "select_artifacts p sel acc =
     (if \<not> pd_eligible p then Inr acc
      else if filter (selects sel) (pd_artifacts p) = [] then Inl FILTER_NO_MATCH
      else foldE (add_reference p sel) acc (filter (selects sel) (pd_artifacts p)))"

type_synonym resolving = "(artifact_reference list \<times> artifact_row list) \<times> (string \<times> producer) list"

definition resolve_selector ::
  "env \<Rightarrow> runtime_db \<Rightarrow> string \<Rightarrow> resolving \<Rightarrow> artifact_selector \<Rightarrow> artifact_error + resolving" where
  "resolve_selector en db executionId s sel =
     bindE (memo_producer en db executionId (snd s) (as_fromStep sel)) (\<lambda>(p, memo).
     bindE (select_artifacts p sel (fst s)) (\<lambda>acc. Inr (acc, memo)))"

text \<open>\<open>localeCompare\<close> is 0 on texts that are below each other both ways.\<close>

definition reference_le :: "(string \<Rightarrow> string \<Rightarrow> bool) \<Rightarrow> artifact_reference \<Rightarrow> artifact_reference \<Rightarrow> bool" where
  "reference_le coll l r =
     (let same = (\<lambda>x y. coll x y \<and> coll y x)
      in if \<not> same (ar_producerStepId l) (ar_producerStepId r) then coll (ar_producerStepId l) (ar_producerStepId r)
         else if \<not> same (ar_producerAttemptId l) (ar_producerAttemptId r)
         then coll (ar_producerAttemptId l) (ar_producerAttemptId r)
         else if ar_descriptorOrdinal l \<noteq> ar_descriptorOrdinal r then ar_descriptorOrdinal l \<le> ar_descriptorOrdinal r
         else coll (ar_artifactId l) (ar_artifactId r))"

definition resolve_artifacts ::
  "env \<Rightarrow> runtime_db \<Rightarrow> string \<Rightarrow> artifact_selector list \<Rightarrow>
     resolution_error + artifact_reference list \<times> artifact_row list" where
  "resolve_artifacts en db executionId sels =
     bindE (mapL SelectorsInvalid (validateArtifactSelectors (en_coll en) (JArr (map selector_js sels)))) (\<lambda>validated.
     bindE (mapL ArtifactFault (foldE (resolve_selector en db executionId) (([], []), []) validated)) (\<lambda>s.
       if length (fst (fst s)) > maxArtifactReferences then Inl (ArtifactFault ARTIFACT_LIMIT)
       else Inr (sort_by (reference_le (en_coll en)) (fst (fst s)), snd (fst s))))"

subsection \<open>What is resolved\<close>

text \<open>An artifact row of the applied result of a successful attempt, with its verified descriptor.\<close>

definition authoritative :: "env \<Rightarrow> runtime_db \<Rightarrow> string \<Rightarrow> string \<Rightarrow> string \<Rightarrow> artifact_row \<Rightarrow> jsv \<Rightarrow> bool" where
  "authoritative en db executionId stepId attemptId row d \<longleftrightarrow>
     (\<exists>l \<in> set (d_steps db). \<exists>a \<in> set (d_attempts db). \<exists>i \<in> set (d_inbox db).
        ls_executionId l = executionId \<and> ls_stepId l = stepId \<and> at_logicalStepId a = ls_id l \<and> at_id a = attemptId \<and>
        at_executionId a = executionId \<and> at_status a = ASuccess \<and>
        (\<forall>b \<in> set (d_attempts db). at_logicalStepId b = ls_id l \<and> at_status b = ASuccess \<longrightarrow>
           at_attemptNumber b \<le> at_attemptNumber a) \<and>
        ib_attempt i = attemptId \<and> ib_status i = IApplied \<and> row \<in> set (d_artifacts db) \<and> af_inbox row = ib_id i \<and>
        sha256Json (en_sha en) (en_coll en) d = af_hash row)"

lemma with_descriptor_Inr:
  "with_descriptor en ds row = Inr rd \<longleftrightarrow> fst rd = row \<and> af_ordinal row < length ds \<and> snd rd = ds ! af_ordinal row \<and>
     truthy (snd rd) \<and> sha256Json (en_sha en) (en_coll en) (snd rd) = af_hash row"
  by (cases rd) (auto simp: with_descriptor_def)

lemma find_sorted_max:
  assumes "find P (sort_by (\<lambda>a b. f a \<ge> f b) rows) = Some a" and "b \<in> set rows" "P b"
  shows "f b \<le> (f a :: int)"
  using assms
proof -
  have *: "sorted_wrt (\<lambda>a b. f a \<ge> f b) (sort_by (\<lambda>a b. f a \<ge> f b) rows)"
    by (rule sorted_sort_by) auto
  have "find P xs = Some a \<Longrightarrow> sorted_wrt (\<lambda>a b. f a \<ge> f b) xs \<Longrightarrow> b \<in> set xs \<Longrightarrow> f b \<le> f a" for xs
    using assms(3) by (induction xs) (auto split: if_splits)
  from this [OF assms(1) *] assms(2) show ?thesis by simp
qed

lemma resolveProducer_Inr:
  assumes "resolveProducer en db e fromStep = Inr p"
  shows "pd_stepId p = fromStep" and "\<not> pd_eligible p \<Longrightarrow> pd_artifacts p = []"
    and "(row, d) \<in> set (pd_artifacts p) \<Longrightarrow>
      authoritative en db e fromStep (case pd_attemptId p of None \<Rightarrow> [] | Some i \<Rightarrow> i) row d"
proof -
  consider "p = ineligible fromStep" | l a i where "l \<in> set (d_steps db)" "ls_executionId l = e" "ls_stepId l = fromStep"
      "latest_success db (ls_id l) = Some a" "at_executionId a = e" "i \<in> set (d_inbox db)" "ib_attempt i = at_id a" "ib_status i = IApplied"
      "produced en db fromStep a i = Inr p"
    using assms by (auto simp: resolveProducer_def dest!: find_SomeD split: option.splits if_splits)
  then have "pd_stepId p = fromStep \<and> (\<not> pd_eligible p \<longrightarrow> pd_artifacts p = []) \<and>
      ((row, d) \<in> set (pd_artifacts p) \<longrightarrow> authoritative en db e fromStep (case pd_attemptId p of None \<Rightarrow> [] | Some i \<Rightarrow> i) row d)"
  proof cases
    case 2
    note a = find_SomeD [OF 2(4) [unfolded latest_success_def]]
    have latest: "at_attemptNumber b \<le> at_attemptNumber a"
      if "b \<in> set (d_attempts db)" "at_logicalStepId b = ls_id l" "at_status b = ASuccess" for b
      by (rule find_sorted_max [OF 2(4) [unfolded latest_success_def] that(1)]) (use that in simp)
    from 2(9) obtain arts where arts: "mapE (with_descriptor en (js_list (getp (ib_payload i) ''artifacts'')))
        (sort_by (\<lambda>x y. af_ordinal x \<le> af_ordinal y) (filter (\<lambda>r. af_inbox r = ib_id i) (d_artifacts db))) = Inr arts"
      and p: "p = \<lparr>pd_eligible = True, pd_stepId = fromStep, pd_attemptId = Some (at_id a), pd_artifacts = arts\<rparr>"
      by (auto simp: produced_def bindE_Inr_iff)
    have "authoritative en db e fromStep (at_id a) row d" if "(row, d) \<in> set arts"
    proof -
      from mapE_Inr_set [OF arts that] obtain r where "r \<in> set (d_artifacts db)" "af_inbox r = ib_id i"
        "with_descriptor en (js_list (getp (ib_payload i) ''artifacts'')) r = Inr (row, d)" by auto
      then have "row \<in> set (d_artifacts db)" "af_inbox row = ib_id i" "sha256Json (en_sha en) (en_coll en) d = af_hash row"
        by (auto simp: with_descriptor_Inr)
      with 2 a latest show ?thesis
        unfolding authoritative_def
        by (intro bexI [of _ l] bexI [of _ a] bexI [of _ i] conjI ballI impI) auto
    qed
    with p show ?thesis by simp
  qed (simp add: ineligible_def)
  then show "pd_stepId p = fromStep" "\<not> pd_eligible p \<Longrightarrow> pd_artifacts p = []"
    "(row, d) \<in> set (pd_artifacts p) \<Longrightarrow> authoritative en db e fromStep (case pd_attemptId p of None \<Rightarrow> [] | Some i \<Rightarrow> i) row d"
    by auto
qed

text \<open>What holds of the references and artifacts collected so far.\<close>

definition refers :: "env \<Rightarrow> runtime_db \<Rightarrow> string \<Rightarrow> artifact_reference \<Rightarrow> artifact_row \<Rightarrow> bool" where
  "refers en db e r row \<longleftrightarrow> ar_artifactId r = af_id row \<and> ar_descriptorOrdinal r = int (af_ordinal row) \<and>
     (\<exists>d. authoritative en db e (ar_producerStepId r) (ar_producerAttemptId r) row d \<and>
        ar_name r = str_member d ''name'' \<and> ar_mediaType r = str_member d ''mediaType'' \<and> ar_uri r = str_member d ''uri'')"

definition collected :: "env \<Rightarrow> runtime_db \<Rightarrow> string \<Rightarrow> string set \<Rightarrow> artifact_reference list \<times> artifact_row list \<Rightarrow> bool" where
  "collected en db e froms acc \<longleftrightarrow> distinct (map af_id (snd acc)) \<and> list_all2 (refers en db e) (fst acc) (snd acc) \<and>
     ar_producerStepId ` set (fst acc) \<subseteq> froms"

lemma select_artifacts_collected:
  assumes p: "resolveProducer en db e (as_fromStep sel) = Inr p" and "as_fromStep sel \<in> froms"
    and "collected en db e froms acc" and "select_artifacts p sel acc = Inr acc'"
  shows "collected en db e froms acc'"
proof -
  have step: "collected en db e froms acc2"
    if "rd \<in> set (pd_artifacts p)" "collected en db e froms acc1" "add_reference p sel acc1 rd = Inr acc2" for rd acc1 acc2
  proof -
    from resolveProducer_Inr(3) [OF p, of "fst rd" "snd rd"] that(1)
    have "authoritative en db e (as_fromStep sel) (case pd_attemptId p of None \<Rightarrow> [] | Some i \<Rightarrow> i) (fst rd) (snd rd)" by simp
    then have "refers en db e (buildReference p (fst rd) (snd rd) sel) (fst rd)"
      using resolveProducer_Inr(1) [OF p] by (auto simp: refers_def buildReference_def)
    moreover have "ar_producerStepId (buildReference p (fst rd) (snd rd) sel) \<in> froms"
      using resolveProducer_Inr(1) [OF p] assms(2) by (simp add: buildReference_def)
    moreover from that(3) have "af_id (fst rd) \<notin> af_id ` set (snd acc1)"
      "acc2 = (fst acc1 @ [buildReference p (fst rd) (snd rd) sel], snd acc1 @ [fst rd])"
      by (auto simp: add_reference_def split: if_splits)
    ultimately show ?thesis using that(2) by (simp add: collected_def list_all2_appendI)
  qed
  have "foldE (add_reference p sel) acc1 rds = Inr acc2 \<Longrightarrow> set rds \<subseteq> set (pd_artifacts p) \<Longrightarrow>
      collected en db e froms acc1 \<Longrightarrow> collected en db e froms acc2" for rds acc1 acc2
    by (induction rds arbitrary: acc1) (auto simp: bindE_Inr_iff dest: step)
  with assms(3,4) show ?thesis by (auto simp: select_artifacts_def split: if_splits)
qed

definition memo_ok :: "env \<Rightarrow> runtime_db \<Rightarrow> string \<Rightarrow> (string \<times> producer) list \<Rightarrow> bool" where
  "memo_ok en db e memo \<longleftrightarrow> (\<forall>(k, p) \<in> set memo. resolveProducer en db e k = Inr p)"

lemma memo_producer_Inr:
  assumes "memo_producer en db e memo k = Inr (p, memo')" and "memo_ok en db e memo"
  shows "resolveProducer en db e k = Inr p" and "memo_ok en db e memo'"
  using assms by (auto simp: memo_producer_def memo_ok_def bindE_Inr_iff dest!: map_of_SomeD split: option.splits)

lemma resolve_selectors_collected:
  assumes "foldE (resolve_selector en db e) s sels = Inr s'" and "as_fromStep ` set sels \<subseteq> froms"
    and "collected en db e froms (fst s)" "memo_ok en db e (snd s)"
  shows "collected en db e froms (fst s')"
  using assms
proof (induction sels arbitrary: s)
  case (Cons sel sels)
  from Cons.prems(1) obtain s1 where s1: "resolve_selector en db e s sel = Inr s1" "foldE (resolve_selector en db e) s1 sels = Inr s'"
    by (auto simp: bindE_Inr_iff)
  then obtain p memo acc where p: "memo_producer en db e (snd s) (as_fromStep sel) = Inr (p, memo)"
    and acc: "select_artifacts p sel (fst s) = Inr acc" and eq: "s1 = (acc, memo)"
    by (auto simp: resolve_selector_def bindE_Inr_iff)
  from s1(2) eq have rest: "foldE (resolve_selector en db e) (acc, memo) sels = Inr s'" by simp
  note m = memo_producer_Inr [OF p Cons.prems(4)]
  have "collected en db e froms acc" by (rule select_artifacts_collected [OF m(1) _ Cons.prems(3) acc]) (use Cons.prems(2) in auto)
  with Cons.IH [OF rest] Cons.prems(2) m(2) show ?case by simp
qed simp

lemma list_all2_set1: "list_all2 P xs ys \<Longrightarrow> \<forall>x \<in> set xs. \<exists>y \<in> set ys. P x y"
  by (induction rule: list_all2_induct) auto

lemma validated_froms:
  assumes "validateArtifactSelectors coll (JArr (map selector_js sels)) = Inr vs"
  shows "as_fromStep ` set vs \<subseteq> as_fromStep ` set sels"
proof -
  from assms have vs: "mapE parse_selector (map selector_js sels) = Inr vs"
    unfolding validateArtifactSelectors_def by (auto simp only: jsv.case bindE_Inr_iff split: if_splits)
  have "as_fromStep v = as_fromStep s" if "parse_selector (selector_js s) = Inr v" for s v
    using that by (auto simp: parse_selector_def bindE_Inr_iff getp_selector_js split: if_splits)
  note same = this
  show ?thesis
  proof
    fix f assume "f \<in> as_fromStep ` set vs"
    then obtain v where v: "v \<in> set vs" "f = as_fromStep v" by blast
    from mapE_Inr_set [OF vs v(1)] obtain s where "s \<in> set sels" "parse_selector (selector_js s) = Inr v" by auto
    with same v(2) show "f \<in> as_fromStep ` set sels" by auto
  qed
qed

text \<open>C30: an attempt is shown only what its execution has really produced: every reference names an artifact of the applied
  result of the latest successful attempt of a selected step of the same execution, with the text of a descriptor that
  has the registered hash; no artifact is referred to twice, there are at most 128, and the rows to be recorded as
  exposed are exactly those referred to.\<close>

theorem resolved_artifacts_authoritative:
  assumes "resolve_artifacts en db e sels = Inr (rs, arts)"
  shows "length rs \<le> 128 \<and> distinct (map af_id arts) \<and> mset (map ar_artifactId rs) = mset (map af_id arts) \<and>
     (\<forall>r \<in> set rs. \<exists>row \<in> set arts. \<exists>d. ar_producerStepId r \<in> as_fromStep ` set sels \<and> ar_artifactId r = af_id row \<and>
        authoritative en db e (ar_producerStepId r) (ar_producerAttemptId r) row d \<and> ar_uri r = str_member d ''uri'')"
proof -
  from assms obtain vs s where vs: "validateArtifactSelectors (en_coll en) (JArr (map selector_js sels)) = Inr vs"
    and s: "foldE (resolve_selector en db e) (([], []), []) vs = Inr s" "length (fst (fst s)) \<le> maxArtifactReferences"
    and out: "rs = sort_by (reference_le (en_coll en)) (fst (fst s))" "arts = snd (fst s)"
    by (auto simp: resolve_artifacts_def bindE_Inr_iff split: if_splits)
  have froms: "as_fromStep ` set vs \<subseteq> as_fromStep ` set sels" by (rule validated_froms [OF vs])
  have "collected en db e (as_fromStep ` set sels) (fst s)"
    by (rule resolve_selectors_collected [OF s(1) froms]) (simp_all add: collected_def memo_ok_def)
  then have c: "distinct (map af_id arts)" "list_all2 (refers en db e) (fst (fst s)) arts"
    "ar_producerStepId ` set (fst (fst s)) \<subseteq> as_fromStep ` set sels" by (simp_all add: collected_def out)
  have "map ar_artifactId (fst (fst s)) = map af_id arts"
    using c(2) by (induction rule: list_all2_induct) (auto simp: refers_def)
  then have "mset (map ar_artifactId (fst (fst s))) = mset (map af_id arts)" by simp
  then have "mset (map ar_artifactId rs) = mset (map af_id arts)" by (simp add: out(1))
  moreover have "\<exists>row \<in> set arts. \<exists>d. ar_producerStepId r \<in> as_fromStep ` set sels \<and> ar_artifactId r = af_id row \<and>
      authoritative en db e (ar_producerStepId r) (ar_producerAttemptId r) row d \<and> ar_uri r = str_member d ''uri''"
    if "r \<in> set rs" for r
  proof -
    from that have r: "r \<in> set (fst (fst s))" by (simp add: out(1))
    then have "ar_producerStepId r \<in> as_fromStep ` set sels" using c(3) by blast
    moreover obtain row where "row \<in> set arts" "refers en db e r row"
      using list_all2_set1 [OF c(2)] r by blast
    ultimately show ?thesis unfolding refers_def by blast
  qed
  ultimately show ?thesis using s(2) c(1) by (simp add: out(1) maxArtifactReferences_def)
qed

definition ex_descriptor :: jsv where
  "ex_descriptor = JObj [(''name'', JStr ''report''), (''uri'', JStr ''file:r'')]"

definition ex_artifact :: artifact_row where
  "ex_artifact = \<lparr>af_id = ''f'', af_inbox = ''n'', af_ordinal = 0, af_hash = sha256Json (\<lambda>s. s) ex_coll ex_descriptor\<rparr>"

definition ex_artifact_db :: runtime_db where
  "ex_artifact_db = ex_task_db\<lparr>d_attempts := [ex_attempt, ex_task\<lparr>at_status := ASuccess\<rparr>],
     d_inbox := [ex_inbox\<lparr>ib_payload := JObj [(''artifacts'', JArr [ex_descriptor])]\<rparr>], d_artifacts := [ex_artifact]\<rparr>"

definition ex_selector :: artifact_selector where
  "ex_selector = \<lparr>as_fromStep = ''b'', as_name = Some ''report'', as_ordinal = None, as_includeMetadata = None\<rparr>"

lemma ex_resolution:
  "case resolve_artifacts ex_env ex_artifact_db ''e'' [ex_selector] of Inl _ \<Rightarrow> False | Inr (rs, arts) \<Rightarrow> map ar_artifactId rs = [''f'']"
  by code_simp

theorem resolved_artifacts_authoritative_witness:
  "\<exists>rs arts. resolve_artifacts ex_env ex_artifact_db ''e'' [ex_selector] = Inr (rs, arts) \<and>
     (\<exists>r \<in> set rs. ar_producerStepId r = ''b'' \<and> ar_artifactId r = ''f'')"
proof -
  obtain rs arts where run: "resolve_artifacts ex_env ex_artifact_db ''e'' [ex_selector] = Inr (rs, arts)" "map ar_artifactId rs = [''f'']"
    using ex_resolution by (auto split: sum.splits prod.splits)
  from run(2) obtain r where r: "r \<in> set rs" "ar_artifactId r = ''f''" by auto
  from resolved_artifacts_authoritative [OF run(1)] r(1) have "ar_producerStepId r \<in> as_fromStep ` set [ex_selector]" by blast
  with run(1) r show ?thesis by (auto simp: ex_selector_def)
qed

end
