(* ===== verification/StepClaim.thy ===== *)
theory StepClaim
  imports ArtifactProjection ProjectionCache
begin

text \<open>
  services/orchestrator/src/services/execution.service.ts, \<open>claimRunnableStep\<close>: the one place where a runnable step
  is granted work authority. What the claim asks of other subsystems (the frozen executor snapshot, the workspaces,
  the delegation modes) comes from the environment.
\<close>

subsection \<open>Conditions over the stored steps\<close>

fun step_status_str :: "step_status \<Rightarrow> string" where
  "step_status_str SPending = ''PENDING''"
| "step_status_str SReady = ''READY''"
| "step_status_str SRunning = ''RUNNING''"
| "step_status_str SRetrying = ''RETRYING''"
| "step_status_str SWaiting = ''WAITING''"
| "step_status_str SCompleted = ''COMPLETED''"
| "step_status_str SFailed = ''FAILED''"
| "step_status_str SSkipped = ''SKIPPED''"
| "step_status_str SCancelled = ''CANCELLED''"

definition step_entry :: "env \<Rightarrow> logical_step \<Rightarrow> string \<times> jsv" where
  "step_entry en l = (ls_stepId l, JObj [(''result'', ls_output l), (''output'', ls_output l),
     (''status'', JStr (step_status_str (ls_status l))),
     (''error'', case ls_error l of None \<Rightarrow> JNull | Some f \<Rightarrow> JStr (en_text en f)), (''attempt'', jint (ls_attempt l))])"

definition conditionContext :: "env \<Rightarrow> jsv \<Rightarrow> logical_step list \<Rightarrow> jsv" where
  "conditionContext en inp steps =
     JObj [(''pipeline'', JObj [(''input'', inp)]), (''steps'', JObj (js_object (map (step_entry en) steps)))]"

text \<open>The context has one object under two names: the \<open>result\<close> of a step is its \<open>output\<close>.\<close>

fun canonical_path :: "string list \<Rightarrow> string list" where
  "canonical_path (s # i # k # ps) = s # i # (if s = ''steps'' \<and> k = ''result'' then ''output'' else k) # ps"
| "canonical_path ps = ps"

fun place_path :: "place \<Rightarrow> string list option" where
  "place_path (At r) = Some (canonical_path (split_on (CHR ''.'') r))"
| "place_path (Elem r i) = Some (canonical_path (split_on (CHR ''.'') r) @ [nat_str i])"
| "place_path Nowhere = None"

definition same_object :: "place \<Rightarrow> place \<Rightarrow> bool" where
  "same_object p q \<longleftrightarrow> place_path p \<noteq> None \<and> place_path p = place_path q"

definition condition_holds :: "env \<Rightarrow> run_row \<Rightarrow> logical_step list \<Rightarrow> step \<Rightarrow> bool" where
  "condition_holds en x steps config =
     (case st_condition config of
        None \<Rightarrow> True
      | Some c \<Rightarrow> evaluate_condition same_object (conditionContext en (xr_input x) steps) c)"

definition dependency_resolved :: "logical_step list \<Rightarrow> step list \<Rightarrow> string \<Rightarrow> bool" where
  "dependency_resolved steps plan d =
     (case find_by ls_stepId d steps of
        None \<Rightarrow> False
      | Some l \<Rightarrow>
          if ls_status l = SCompleted \<or> ls_status l = SSkipped then True
          else if ls_status l \<noteq> SFailed then False
          else on_failure (find_by st_id d plan) ''continue'')"

definition dependenciesResolved :: "step \<Rightarrow> logical_step list \<Rightarrow> step list \<Rightarrow> bool" where
  "dependenciesResolved config steps plan \<longleftrightarrow>
     list_all (dependency_resolved steps plan) (case st_dependsOn config of None \<Rightarrow> [] | Some ds \<Rightarrow> ds)"

definition steps_of :: "runtime_db \<Rightarrow> string \<Rightarrow> logical_step list" where
  "steps_of db executionId = filter (\<lambda>l. ls_executionId l = executionId) (d_steps db)"

subsection \<open>The typed selection of a step\<close>

definition is_alnum :: "char \<Rightarrow> bool" where
  "is_alnum c \<longleftrightarrow> (let n = (of_char c :: nat) in n \<in> {97..122} \<or> n \<in> {65..90} \<or> n \<in> {48..57})"

definition connection_char :: "char \<Rightarrow> bool" where
  "connection_char c \<longleftrightarrow> is_alnum c \<or> c \<in> set ''_.:-''"

definition MODEL_ID_MAX_LENGTH :: nat where "MODEL_ID_MAX_LENGTH = 256"

definition model_id_ok :: "string \<Rightarrow> bool" where
  "model_id_ok s \<longleftrightarrow> (case s of [] \<Rightarrow> False
     | c # cs \<Rightarrow> is_alnum c \<and> list_all (\<lambda>c. is_alnum c \<or> c \<in> set ''._/-:@+'') cs)"

definition metadata_of :: "step \<Rightarrow> string \<Rightarrow> jsv" where
  "metadata_of config k = (case st_metadata config of None \<Rightarrow> JUndef | Some m \<Rightarrow> getp m k)"

definition stepConnectionIdOf :: "step \<Rightarrow> runtime_error + string option" where
  "stepConnectionIdOf config =
     (case metadata_of config ''tenvyrConnectionId'' of
        JUndef \<Rightarrow> Inr None
      | JNull \<Rightarrow> Inr None
      | JStr s \<Rightarrow> if s = [] \<or> length s > 255 \<or> \<not> list_all connection_char s then Inl (Raised ''tenvyrConnectionId'')
          else Inr (Some s)
      | _ \<Rightarrow> Inl (Raised ''tenvyrConnectionId''))"

definition stepModelIdOf :: "step \<Rightarrow> runtime_error + string option" where
  "stepModelIdOf config =
     (case metadata_of config ''tenvyrModelId'' of
        JUndef \<Rightarrow> Inr None
      | JNull \<Rightarrow> Inr None
      | JStr s \<Rightarrow> if s = [] \<or> length s > MODEL_ID_MAX_LENGTH \<or> \<not> model_id_ok s then Inl (Raised ''tenvyrModelId'')
          else Inr (Some s)
      | _ \<Rightarrow> Inl (Raised ''tenvyrModelId''))"

subsection \<open>What a claim works with\<close>

datatype claim =
    NotClaimed | Claimed logical_step attempt | Skipped logical_step | ProjectionFailed | BudgetInsufficient | PolicyDenial
  | ApprovalRequired | RuntimeCapability | AuthorityExpired

text \<open>The rows and values that the transaction has settled when the attempt is about to be created.\<close>

record claiming =
  cl_run :: run_row
  cl_revision :: revision
  cl_config :: step
  cl_step :: logical_step
  cl_maxAttempts :: int
  cl_deadline :: "int option"
  cl_snapshot :: jsv

record projected_context =
  cx_snapshot :: jsv
  cx_artifacts :: "artifact_row list"
  cx_bundle :: "(string \<times> bool) option"
  cx_metrics :: "context_metrics option"

definition no_context :: projected_context where
  "no_context = \<lparr>cx_snapshot = JNull, cx_artifacts = [], cx_bundle = None, cx_metrics = None\<rparr>"

definition harnessIdentityOf :: "string \<Rightarrow> jsv \<Rightarrow> harness" where
  "harnessIdentityOf agent snapshot =
     (let c = getp snapshot ''connection''; m = getp snapshot ''requestedModelId''
      in \<lparr>hn_agent = agent, hn_executorKind = text_or [] (getp snapshot ''kind''),
          hn_configHash = text_or [] (getp snapshot ''configHash''),
          hn_connectionId = (if truthy c then Some (text_or [] (getp c ''connectionId'')) else None),
          hn_connectionRevision = (if truthy c then as_integer (getp c ''revisionNumber'') else None),
          hn_requestedModelId = (if truthy m then Some (text_or [] m) else None)\<rparr>)"

definition claimEfficiencyEvidence :: "env \<Rightarrow> claiming \<Rightarrow> string \<Rightarrow> projected_context \<Rightarrow> bool \<Rightarrow> jsv" where
  "claimEfficiencyEvidence en c invocationId ctx dispatchable =
     efficiency_js (buildClaimEfficiencyEvidence invocationId (harnessIdentityOf (st_agent (cl_config c)) (cl_snapshot c))
       (en_workspace en (x_id (cl_run c))) (cx_bundle ctx) (cx_metrics ctx) dispatchable (toISOString (en_now en)))"

definition invocation_id :: "logical_step \<Rightarrow> string" where
  "invocation_id l = ls_id l @ '':'' @ int_str (ls_attempt l)"

definition attempt_row :: "env \<Rightarrow> claiming \<Rightarrow> projected_context \<Rightarrow> attempt_status \<Rightarrow> attempt" where
  "attempt_row en c ctx st =
     \<lparr>at_id = en_newId en ''attempt'', at_executionId = x_id (cl_run c), at_logicalStepId = ls_id (cl_step c),
      at_planRevisionId = rv_id (cl_revision c), at_attemptNumber = ls_attempt (cl_step c),
      at_invocationId = invocation_id (cl_step c), at_frozenSpecHash = ls_frozenSpecHash (cl_step c),
      at_inputSnapshot = ls_input (cl_step c), at_contextSnapshot = cx_snapshot ctx,
      at_efficiency = claimEfficiencyEvidence en c (invocation_id (cl_step c)) ctx (st = ACreated),
      at_executorSnapshot = cl_snapshot c, at_status = st, at_createdAt = en_now en, at_startTime = None, at_deadlineAt = cl_deadline c,
      at_dispatchedAt = None, at_terminalAt = None, at_acceptedAt = None, at_lastEventAt = None,
      at_lastHeartbeatAt = None, at_lastProgressAt = None, at_result = JNull, at_error = None, at_terminationReason = None\<rparr>"

text \<open>The unique indices of the attempts.\<close>

definition insert_attempt :: "runtime_db \<Rightarrow> attempt \<Rightarrow> runtime_error + runtime_db" where
  "insert_attempt db a =
     (if \<exists>b \<in> set (d_attempts db). at_id b = at_id a then Inl (UniqueError ''PK_step_attempts'')
      else if \<exists>b \<in> set (d_attempts db). at_logicalStepId b = at_logicalStepId a \<and> at_attemptNumber b = at_attemptNumber a
      then Inl (UniqueError ''UQ_step_attempt_number'')
      else if \<exists>b \<in> set (d_attempts db). at_invocationId b = at_invocationId a then Inl (UniqueError ''UQ_step_attempt_invocation'')
      else if at_status a \<in> set ACTIVE_STATUSES \<and> active_other db a then Inl (UniqueError ''UQ_step_attempt_active'')
      else Inr (db\<lparr>d_attempts := d_attempts db @ [a]\<rparr>))"

definition save_step :: "logical_step \<Rightarrow> runtime_db \<Rightarrow> runtime_db" where
  "save_step l db = db\<lparr>d_steps := save_by ls_id l (d_steps db)\<rparr>"

definition save_run :: "run_row \<Rightarrow> runtime_db \<Rightarrow> runtime_db" where
  "save_run x db = db\<lparr>d_runs := save_by x_id x (d_runs db)\<rparr>"

subsection \<open>Refusing work authority\<close>

text \<open>A durable failed attempt that follows the failure policy of the step.\<close>

definition fail_claim ::
  "env \<Rightarrow> claiming \<Rightarrow> projected_context \<Rightarrow> string \<Rightarrow> claim \<Rightarrow> runtime_db \<Rightarrow> runtime_error + runtime_db \<times> claim" where
  "fail_claim en c ctx msg out db =
     (let retry = (on_failure (Some (cl_config c)) ''retry'' \<and> ls_attempt (cl_step c) < cl_maxAttempts c)
      in bindE (insert_attempt db ((attempt_row en c ctx AFailed)\<lparr>at_terminalAt := Some (en_now en),
             at_error := Some (Message msg), at_terminationReason := Some (Message msg)\<rparr>)) (\<lambda>db1.
         let db2 = save_step (failed_step en (Message msg) retry (cl_step c)) db1
         in Inr (if \<not> retry \<and> \<not> on_failure (Some (cl_config c)) ''continue''
                 then save_run (failed_run en (st_id (cl_config c)) msg (cl_run c)) db2 else db2, out)))"

subsection \<open>Granting it\<close>

definition frozen_members :: "jsv \<Rightarrow> (string \<times> jsv) list" where
  "frozen_members snapshot =
     (let c = getp snapshot ''connection'' in
        (if truthy c then [(''connection'', JObj [(''connectionId'', getp c ''connectionId''),
             (''revisionNumber'', getp c ''revisionNumber''), (''configHash'', getp c ''configHash'')])] else []))
     @ (if truthy (getp snapshot ''requestedModelId'') then [(''requestedModelId'', getp snapshot ''requestedModelId'')] else [])"

definition add_exposure :: "string \<Rightarrow> exposure_row list \<Rightarrow> artifact_row \<Rightarrow> exposure_row list" where
  "add_exposure attemptId rows r =
     (if \<exists>e \<in> set rows. xp_attempt e = attemptId \<and> xp_artifact e = af_id r then rows
      else rows @ [\<lparr>xp_attempt = attemptId, xp_artifact = af_id r\<rparr>])"

definition grant :: "env \<Rightarrow> claiming \<Rightarrow> projected_context \<Rightarrow> runtime_db \<Rightarrow> runtime_error + runtime_db \<times> claim" where
  "grant en c ctx db =
     (let a = attempt_row en c ctx ACreated
      in bindE (insert_attempt db a) (\<lambda>db1.
         bindE (insert_outbox (db1\<lparr>d_exposures := foldl (add_exposure (at_id a)) (d_exposures db1) (cx_artifacts ctx)\<rparr>)
             (new_outbox en a (invocation_of en a (cl_config c) (cl_maxAttempts c) (frozen_members (cl_snapshot c))))) (\<lambda>db2.
           Inr (db2, Claimed (cl_step c) a))))"

definition budget_stage :: "env \<Rightarrow> claiming \<Rightarrow> projected_context \<Rightarrow> runtime_db \<Rightarrow> runtime_error + runtime_db \<times> claim" where
  "budget_stage en c ctx db =
     bindE (mapL LedgerError (budget_gate en (d_ledger db) (rv_budget (cl_revision c)) (attempt_row en c ctx ACreated)
         (cl_config c))) (\<lambda>(ledger, refused).
       case refused of
         Some e \<Rightarrow> fail_claim en c ctx (budget_failure e) BudgetInsufficient (db\<lparr>d_ledger := ledger\<rparr>)
       | None \<Rightarrow> grant en c ctx (db\<lparr>d_ledger := ledger\<rparr>))"

fun join_comma :: "string list \<Rightarrow> string" where
  "join_comma [] = []"
| "join_comma [s] = s"
| "join_comma (s # ss) = s @ '', '' @ join_comma ss"

definition await_approval ::
  "env \<Rightarrow> claiming \<Rightarrow> projected_context \<Rightarrow> action_proposal \<Rightarrow> runtime_db \<Rightarrow> runtime_error + runtime_db \<times> claim" where
  "await_approval en c ctx p db =
     bindE (insert_attempt db (attempt_row en c ctx AWaiting)) (\<lambda>db1.
     bindE (request en (save_step ((cl_step c)\<lparr>ls_status := SWaiting, ls_error := Some (Message ''Approval required'')\<rparr>) db1)
         p (jint defaultExpiryMs)) (\<lambda>(db2, q). Inr (db2, ApprovalRequired)))"

definition decided_stage ::
  "env \<Rightarrow> claiming \<Rightarrow> projected_context \<Rightarrow> action_proposal \<Rightarrow> policy_decision \<Rightarrow> runtime_db \<Rightarrow> runtime_error + runtime_db \<times> claim" where
  "decided_stage en c ctx p d db =
     (case d_effect d of
        DENY \<Rightarrow> fail_claim en c ctx (''Policy DENY: '' @ join_comma (d_reasons d)) PolicyDenial db
      | REQUIRE_APPROVAL \<Rightarrow> await_approval en c ctx p db
      | ALLOW \<Rightarrow> budget_stage en c ctx db)"

definition dispatch_proposal :: "env \<Rightarrow> claiming \<Rightarrow> policy_error + action_proposal" where
  "dispatch_proposal en c =
     buildDispatchProposal (en_sha en) (en_coll en) (toISOString (en_now en)) (invocation_id (cl_step c))
       \<lparr>df_executionId = x_id (cl_run c), df_logicalStepId = ls_id (cl_step c), df_attemptNumber = ls_attempt (cl_step c),
        df_agent = st_agent (cl_config c), df_executor = en_kind en (st_agent (cl_config c))\<rparr>"

definition policy_stage :: "env \<Rightarrow> claiming \<Rightarrow> projected_context \<Rightarrow> runtime_db \<Rightarrow> runtime_error + runtime_db \<times> claim" where
  "policy_stage en c ctx db =
     (if en_policy en = EnvUnset then budget_stage en c ctx db
      else bindE (mapL (PolicyError \<circ> Policy) (dispatch_proposal en c)) (\<lambda>p.
        bindE (mapL PolicyError (evaluate (en_sha en) (en_coll en) (d_policy db)
            \<lparr>er_env = en_policy en, er_race = en_race en, er_now = toISOString (en_now en), er_proposal = p\<rparr>)) (\<lambda>(pol, d).
          decided_stage en c ctx p d (db\<lparr>d_policy := pol\<rparr>))))"

definition capability_stage :: "env \<Rightarrow> claiming \<Rightarrow> projected_context \<Rightarrow> runtime_db \<Rightarrow> runtime_error + runtime_db \<times> claim" where
  "capability_stage en c ctx db =
     (if negotiated en (cl_config c) then policy_stage en c ctx db
      else fail_claim en c ctx (capability_failure (cl_config c)) RuntimeCapability db)"

subsection \<open>The context of the attempt\<close>

fun context_code :: "context_error \<Rightarrow> string" where
  "context_code CTX_INVALID_PROJECTION = ''TENVYR_CTX_INVALID_PROJECTION''"
| "context_code CTX_MISSING_STATE_KEY = ''TENVYR_CTX_MISSING_STATE_KEY''"
| "context_code CTX_UNSAFE_VALUE = ''TENVYR_CTX_UNSAFE_VALUE''"
| "context_code CTX_ENVELOPE_TOO_LARGE = ''TENVYR_CTX_ENVELOPE_TOO_LARGE''"

fun artifact_code :: "artifact_error \<Rightarrow> string" where
  "artifact_code PRODUCER_MISSING = ''TENVYR_CTX_ARTIFACT_PRODUCER_MISSING''"
| "artifact_code FOREIGN_ARTIFACT = ''TENVYR_CTX_FOREIGN_ARTIFACT''"
| "artifact_code ORDINAL_MISMATCH = ''TENVYR_CTX_ARTIFACT_ORDINAL_MISMATCH''"
| "artifact_code FILTER_NO_MATCH = ''TENVYR_CTX_ARTIFACT_FILTER_NO_MATCH''"
| "artifact_code ARTIFACT_OVERLAP = ''TENVYR_CTX_ARTIFACT_OVERLAP''"
| "artifact_code ARTIFACT_LIMIT = ''TENVYR_CTX_ARTIFACT_LIMIT''"

text \<open>A projection error fails the attempt with its code; any other error aborts the claim.\<close>

datatype context_outcome = Ready projected_context | Failing string | Aborts runtime_error

definition claim_references :: "env \<Rightarrow> runtime_db \<Rightarrow> claiming \<Rightarrow> context_projection \<Rightarrow>
    resolution_error + artifact_reference list \<times> artifact_row list" where
  "claim_references en db c p =
     (case cp_artifacts p of
        None \<Rightarrow> Inr ([], [])
      | Some sels \<Rightarrow> if sels = [] then Inr ([], []) else resolve_artifacts en db (x_id (cl_run c)) sels)"

definition claim_inputs :: "env \<Rightarrow> claiming \<Rightarrow> context_projection \<Rightarrow> artifact_reference list \<Rightarrow> projection_inputs" where
  "claim_inputs en c p rs =
     \<lparr>pi_projection = p, pi_state = run_state (cl_run c), pi_version = x_version (cl_run c), pi_references = rs,
      pi_harness = harnessIdentityOf (st_agent (cl_config c)) (cl_snapshot c), pi_planHash = Some (rv_planHash (cl_revision c)),
      pi_workspace = en_workspace en (x_id (cl_run c))\<rparr>"

definition outcome_of :: "artifact_row list \<Rightarrow> projection_fault + projected \<times> bool \<Rightarrow> context_outcome" where
  "outcome_of arts r =
     (case r of
        Inl (Projected e) \<Rightarrow> Failing (context_code e)
      | Inl (Aborting _) \<Rightarrow> Aborts (Raised ''ExecutionStateValidationError'')
      | Inr (p, reused) \<Rightarrow> Ready \<lparr>cx_snapshot = pj_envelope p, cx_artifacts = arts, cx_bundle = Some (pj_hash p, reused),
          cx_metrics = Some (pj_metrics p)\<rparr>)"

definition claim_context :: "env \<Rightarrow> projection_cache \<Rightarrow> runtime_db \<Rightarrow> claiming \<Rightarrow> projection_cache \<times> context_outcome" where
  "claim_context en cache db c =
     (case st_projection (cl_config c) of
        None \<Rightarrow> (cache, Ready no_context)
      | Some p \<Rightarrow>
          (case claim_references en db c p of
             Inl (SelectorsInvalid _) \<Rightarrow> (cache, Aborts (Raised ''contextProjection.artifacts''))
           | Inl (ArtifactFault e) \<Rightarrow> (cache, Failing (artifact_code e))
           | Inr (rs, arts) \<Rightarrow>
               (case materializeProjectedContext (en_sha en) (en_coll en) cache (claim_inputs en c p rs) of
                  (cache', r) \<Rightarrow> (cache', outcome_of arts r))))"

definition context_stage :: "env \<Rightarrow> claiming \<Rightarrow> runtime_db \<Rightarrow> context_outcome \<Rightarrow> runtime_error + runtime_db \<times> claim" where
  "context_stage en c db out =
     (case out of
        Aborts e \<Rightarrow> Inl e
      | Failing code \<Rightarrow> fail_claim en c no_context (''Context projection failed: '' @ code) ProjectionFailed db
      | Ready ctx \<Rightarrow> capability_stage en c ctx db)"

subsection \<open>The claim\<close>

text \<open>\<open>locked\<close> are the steps whose rows other transactions hold; they are skipped.\<close>

definition not_after :: "int \<Rightarrow> int option \<Rightarrow> bool" where
  "not_after now t = (case t of None \<Rightarrow> True | Some t \<Rightarrow> t \<le> now)"

definition runnable :: "env \<Rightarrow> string list \<Rightarrow> string \<Rightarrow> string \<Rightarrow> logical_step \<Rightarrow> bool" where
  "runnable en locked executionId stepId l \<longleftrightarrow> ls_id l \<notin> set locked \<and> ls_executionId l = executionId \<and> ls_stepId l = stepId \<and>
     (ls_status l = SReady \<or> ls_status l = SRetrying) \<and> not_after (en_now en) (ls_eligibleAt l) \<and>
     not_after (en_now en) (ls_nextAttemptAt l)"

definition authority_over :: "env \<Rightarrow> run_row \<Rightarrow> bool" where
  "authority_over en x = (case xr_authorityDeadlineAt x of None \<Rightarrow> False | Some t \<Rightarrow> t \<le> en_now en)"

definition expire_authority :: "env \<Rightarrow> run_row \<Rightarrow> logical_step \<Rightarrow> runtime_db \<Rightarrow> runtime_db" where
  "expire_authority en x l db =
     (let why = Message ''AUTHORITY_DEADLINE_EXCEEDED''
      in save_run (x\<lparr>x_status := Failed, xr_endTime := Some (en_now en), xr_terminationReason := Some why\<rparr>)
        (save_step (l\<lparr>ls_status := SCancelled, ls_error := Some why, ls_endTime := Some (en_now en), ls_nextAttemptAt := None\<rparr>) db))"

definition attempt_deadline :: "int option \<Rightarrow> int option \<Rightarrow> int option" where
  "attempt_deadline authority deadline =
     (case authority of
        None \<Rightarrow> deadline
      | Some t \<Rightarrow> (case deadline of None \<Rightarrow> Some t | Some d \<Rightarrow> Some (min d t)))"

definition gated_step :: "env \<Rightarrow> string \<Rightarrow> bool \<Rightarrow> logical_step \<Rightarrow> logical_step" where
  "gated_step en specHash outcome l = l\<lparr>ls_conditionResult := Some outcome, ls_frozenSpecHash := Some specHash,
     ls_frozenAt := (case ls_frozenAt l of None \<Rightarrow> Some (en_now en) | Some t \<Rightarrow> Some t)\<rparr>"

definition skipped_step :: "env \<Rightarrow> logical_step \<Rightarrow> logical_step" where
  "skipped_step en l = l\<lparr>ls_status := SSkipped, ls_endTime := Some (en_now en), ls_nextAttemptAt := None\<rparr>"

definition started_step :: "env \<Rightarrow> step \<Rightarrow> jsv \<Rightarrow> int \<Rightarrow> logical_step \<Rightarrow> logical_step" where
  "started_step en config inp maxAttempts l = l\<lparr>ls_agent := st_agent config, ls_input := inp, ls_status := SRunning,
     ls_attempt := ls_attempt l + 1, ls_maxAttempts := maxAttempts, ls_eligibleAt := None, ls_nextAttemptAt := None,
     ls_output := JNull, ls_error := None,
     ls_startTime := (case ls_startTime l of None \<Rightarrow> Some (en_now en) | Some t \<Rightarrow> Some t), ls_endTime := None\<rparr>"

definition active_attempt :: "runtime_db \<Rightarrow> string \<Rightarrow> bool" where
  "active_attempt db logicalStepId \<longleftrightarrow>
     (\<exists>a \<in> set (d_attempts db). at_logicalStepId a = logicalStepId \<and> at_status a \<in> set ACTIVE_STATUSES)"

text \<open>What the caller of the claim passes.\<close>

record claim_request =
  rq_executionId :: string
  rq_stepId :: string
  rq_input :: jsv
  rq_maxAttempts :: int
  rq_deadlineAt :: "int option"

text \<open>The step as it is saved when its attempt starts, and the rows the claim goes on with.\<close>

definition claiming_of :: "env \<Rightarrow> claim_request \<Rightarrow> run_row \<Rightarrow> revision \<Rightarrow> step \<Rightarrow> string \<Rightarrow> logical_step \<Rightarrow> jsv \<Rightarrow> claiming" where
  "claiming_of en q x r config specHash l snapshot =
     \<lparr>cl_run = x, cl_revision = r, cl_config = config,
      cl_step = started_step en config (rq_input q) (rq_maxAttempts q) (gated_step en specHash True l),
      cl_maxAttempts = rq_maxAttempts q, cl_deadline = attempt_deadline (xr_authorityDeadlineAt x) (rq_deadlineAt q),
      cl_snapshot = snapshot\<rparr>"

definition start_attempt ::
  "env \<Rightarrow> projection_cache \<Rightarrow> claim_request \<Rightarrow> run_row \<Rightarrow> revision \<Rightarrow> step \<Rightarrow> string \<Rightarrow> logical_step \<Rightarrow> string option \<Rightarrow> string option \<Rightarrow>
     runtime_db \<Rightarrow> projection_cache \<times> (runtime_error + runtime_db \<times> claim)" where
  "start_attempt en cache q x r config specHash l connection model db =
     (case en_snapshot en (st_agent config) connection model of
        Inl e \<Rightarrow> (cache, Inl (Raised e))
      | Inr snapshot \<Rightarrow>
          let c = claiming_of en q x r config specHash l snapshot;
              db1 = save_step (cl_step c) db
          in (case claim_context en cache db1 c of (cache', out) \<Rightarrow> (cache', context_stage en c db1 out)))"

definition gate_step ::
  "env \<Rightarrow> projection_cache \<Rightarrow> claim_request \<Rightarrow> run_row \<Rightarrow> revision \<Rightarrow> step \<Rightarrow> string \<Rightarrow> logical_step \<Rightarrow> string option \<Rightarrow> string option \<Rightarrow>
     runtime_db \<Rightarrow> projection_cache \<times> (runtime_error + runtime_db \<times> claim)" where
  "gate_step en cache q x r config specHash l connection model db =
     (let steps = steps_of db (rq_executionId q)
      in if \<not> dependenciesResolved config steps (rv_steps r) then (cache, Inr (db, NotClaimed))
         else if \<not> condition_holds en x steps config
         then (let l' = skipped_step en (gated_step en specHash False l) in (cache, Inr (save_step l' db, Skipped l')))
         else if active_attempt db (ls_id l) then (cache, Inr (db, NotClaimed))
         else start_attempt en cache q x r config specHash l connection model db)"

definition frozen_otherwise :: "logical_step \<Rightarrow> string \<Rightarrow> bool" where
  "frozen_otherwise l specHash \<longleftrightarrow> (case ls_frozenSpecHash l of None \<Rightarrow> False | Some h \<Rightarrow> h \<noteq> [] \<and> h \<noteq> specHash)"

definition claim_planned ::
  "env \<Rightarrow> projection_cache \<Rightarrow> claim_request \<Rightarrow> run_row \<Rightarrow> logical_step \<Rightarrow> runtime_db \<Rightarrow>
     projection_cache \<times> (runtime_error + runtime_db \<times> claim)" where
  "claim_planned en cache q x l db =
     (case xr_activeRevision x of
        None \<Rightarrow> (cache, Inl NoActiveRevision)
      | Some ri \<Rightarrow>
          (case find_by rv_id ri (d_revisions db) of
             None \<Rightarrow> (cache, Inl (RowMissing (rq_stepId q)))
           | Some r \<Rightarrow>
               (case find_by st_id (rq_stepId q) (rv_steps r) of
                  None \<Rightarrow> (cache, Inl (RowMissing (rq_stepId q)))
                | Some config \<Rightarrow>
                    if frozen_otherwise l (step_hash en config) then (cache, Inl (Raised (st_id config)))
                    else (case bindE (stepConnectionIdOf config) (\<lambda>con. bindE (stepModelIdOf config) (\<lambda>m. Inr (con, m))) of
                        Inl e \<Rightarrow> (cache, Inl e)
                      | Inr (con, m) \<Rightarrow> gate_step en cache q x r config (step_hash en config) l con m db))))"

definition claimRunnableStep ::
  "env \<Rightarrow> projection_cache \<Rightarrow> string list \<Rightarrow> runtime_db \<Rightarrow> claim_request \<Rightarrow>
     projection_cache \<times> (runtime_error + runtime_db \<times> claim)" where
  "claimRunnableStep en cache locked db q =
     (case find (runnable en locked (rq_executionId q) (rq_stepId q)) (d_steps db) of
        None \<Rightarrow> (cache, Inr (db, NotClaimed))
      | Some l \<Rightarrow>
          (case find_by x_id (rq_executionId q) (d_runs db) of
             None \<Rightarrow> (cache, Inr (db, NotClaimed))
           | Some x \<Rightarrow>
               if x_status x \<noteq> Running then (cache, Inr (db, NotClaimed))
               else if authority_over en x then (cache, Inr (expire_authority en x l db, AuthorityExpired))
               else claim_planned en cache q x l db))"

end
