(* ===== verification/ExecutionService.thy ===== *)
theory ExecutionService
  imports StepClaim
begin

text \<open>
  services/orchestrator/src/services/pipeline.service.ts and execution.service.ts without the claim: storing
  pipelines, creating an execution from one, reconciling, cancelling, and the status updates of the engine.
\<close>

subsection \<open>Stored pipelines\<close>

record pipeline_row = pipeline +
  pw_id :: string
  pw_contentHash :: string

definition pipeline_js :: "'a pipeline_scheme \<Rightarrow> jsv" where
  "pipeline_js p = JObj ([(''name'', JStr (pl_name p)), (''version'', JStr (pl_version p))]
     @ opt_member ''description'' JStr (pl_description p)
     @ opt_member ''budget'' envelope_js (pl_budget p)
     @ [(''steps'', JArr (map step_js (pl_steps p)))])"

definition create_pipeline ::
  "env \<Rightarrow> pipeline_row list \<Rightarrow> jsv \<Rightarrow> pipeline_error + pipeline_row list \<times> pipeline_row" where
  "create_pipeline en rows v =
     bindE (validatePipeline (en_coll en) v) (\<lambda>p.
       let r = pipeline.extend p \<lparr>pw_id = en_newId en ''pipeline'',
                 pw_contentHash = sha256Json (en_sha en) (en_coll en) (pipeline_js p)\<rparr>
       in Inr (rows @ [r], r))"

text \<open>A stored pipeline is validated again when it is loaded; its other columns stay as they are.\<close>

definition find_pipeline :: "env \<Rightarrow> pipeline_row list \<Rightarrow> string \<Rightarrow> pipeline_error + pipeline_row option" where
  "find_pipeline en rows i =
     (case find_by pw_id i rows of
        None \<Rightarrow> Inr None
      | Some r \<Rightarrow> bindE (validatePipeline (en_coll en) (pipeline_js r)) (\<lambda>p. Inr (Some (r\<lparr>pl_steps := pl_steps p\<rparr>))))"

subsection \<open>Creating an execution\<close>

text \<open>The budget column holds the envelope; the plan carries it normalised.\<close>

definition budget_column :: "pipeline_row \<Rightarrow> jsv" where
  "budget_column p = (case pl_budget p of None \<Rightarrow> JNull | Some b \<Rightarrow> envelope_js b)"

definition plan_budget :: "pipeline_budget option \<Rightarrow> jsv" where
  "plan_budget b = (case b of None \<Rightarrow> JUndef | Some b \<Rightarrow> envelope_js b)"

definition pipeline_hash :: "env \<Rightarrow> pipeline_row \<Rightarrow> pipeline_budget option \<Rightarrow> string" where
  "pipeline_hash en p b =
     (if pw_contentHash p \<noteq> [] then pw_contentHash p
      else sha256Json (en_sha en) (en_coll en) (JObj ([(''name'', JStr (pl_name p)), (''version'', JStr (pl_version p)),
          (''description'', case pl_description p of None \<Rightarrow> JNull | Some d \<Rightarrow> JStr d)]
        @ opt_member ''budget'' envelope_js b @ [(''steps'', JArr (map step_js (pl_steps p)))])))"

definition new_run :: "env \<Rightarrow> pipeline_row \<Rightarrow> string \<Rightarrow> jsv \<Rightarrow> int option \<Rightarrow> run_row" where
  "new_run en p hash inp deadline =
     \<lparr>x_id = en_newId en ''execution'', x_status = Pending, x_state = Some [], x_version = 0, x_updatedAt = None,
      xr_pipeline = JObj [(''schemaVersion'', jint 1), (''pipelineId'', JStr (pw_id p)),
        (''pipelineVersion'', JStr (pl_version p)), (''pipelineHash'', JStr hash)],
      xr_input = inp, xr_output = JNull, xr_activeRevision = None, xr_terminationReason = None,
      xr_startTime = Some (en_now en), xr_endTime = None, xr_authorityDeadlineAt = deadline\<rparr>"

definition first_revision :: "env \<Rightarrow> string \<Rightarrow> pipeline_budget option \<Rightarrow> step list \<Rightarrow> revision" where
  "first_revision en executionId b steps =
     \<lparr>rv_id = en_newId en ''revision'', rv_executionId = executionId, rv_number = 1, rv_parent = None, rv_base = None,
      rv_budget = plan_budget b, rv_steps = steps,
      rv_planHash = sha256Json (en_sha en) (en_coll en) (plan_js (plan_budget b) steps), rv_source = ''pipeline'',
      rv_reason = ''Initial execution plan snapshot'', rv_validation = JObj [(''valid'', JBool True)]\<rparr>"

definition insert_run :: "runtime_db \<Rightarrow> run_row \<Rightarrow> runtime_error + runtime_db" where
  "insert_run db x =
     (if find_by x_id (x_id x) (d_runs db) \<noteq> None then Inl (UniqueError ''PK_executions'')
      else Inr (db\<lparr>d_runs := d_runs db @ [x]\<rparr>))"

definition materializeExecutionWithManager ::
  "env \<Rightarrow> runtime_db \<Rightarrow> pipeline_row \<Rightarrow> jsv \<Rightarrow> int option \<Rightarrow> runtime_error + runtime_db \<times> run_row" where
  "materializeExecutionWithManager en db p inp deadline =
     bindE (mapL (LedgerError \<circ> Budget) (parsePipelineBudget (budget_column p))) (\<lambda>b.
       let x = new_run en p (pipeline_hash en p b) inp deadline;
           r = first_revision en (x_id x) b (pl_steps p);
           x' = x\<lparr>xr_activeRevision := Some (rv_id r)\<rparr>
       in bindE (insert_run db x) (\<lambda>db1.
          bindE (insert_revision db1 r) (\<lambda>db2.
          bindE (foldE (insert_step en (x_id x)) (save_run x' db2) (pl_steps p)) (\<lambda>db3. Inr (db3, x')))))"

definition createExecution ::
  "env \<Rightarrow> runtime_db \<Rightarrow> pipeline_row \<Rightarrow> jsv \<Rightarrow> runtime_error + runtime_db \<times> run_row" where
  "createExecution en db p inp = materializeExecutionWithManager en db p inp None"

subsection \<open>Reconciling\<close>

definition LIVE_ATTEMPTS :: "attempt_status list" where
  "LIVE_ATTEMPTS = [ACreated, ADispatched, ARunning, AWaiting]"

definition live_attempt :: "runtime_db \<Rightarrow> string \<Rightarrow> bool" where
  "live_attempt db logicalStepId \<longleftrightarrow>
     (\<exists>a \<in> set (d_attempts db). at_logicalStepId a = logicalStepId \<and> at_status a \<in> set LIVE_ATTEMPTS)"

definition stuck :: "string \<Rightarrow> run_row \<Rightarrow> bool" where
  "stuck i x \<longleftrightarrow> x_id x = i \<and> x_status x = Pending"

definition promote_execution :: "runtime_db \<Rightarrow> string \<Rightarrow> runtime_db \<times> bool" where
  "promote_execution db i =
     (case find_by x_id i (d_runs db) of
        None \<Rightarrow> (db, False)
      | Some x \<Rightarrow>
          if x_status x \<noteq> Pending \<or> xr_activeRevision x = None then (db, False)
          else (db\<lparr>d_runs := update_where (stuck i) (\<lambda>x. x\<lparr>x_status := Running\<rparr>) (d_runs db)\<rparr>,
                affected (stuck i) (d_runs db) = 1))"

text \<open>A row that another replica inserted in between is left as it is, and counted.\<close>

definition backfill_step :: "env \<Rightarrow> string \<Rightarrow> runtime_db \<times> nat \<Rightarrow> step \<Rightarrow> runtime_db \<times> nat" where
  "backfill_step en i acc s =
     (if \<exists>l \<in> set (d_steps (fst acc)). ls_executionId l = i \<and> ls_stepId l = st_id s then acc
      else (case insert_step en i (fst acc) s of Inl _ \<Rightarrow> fst acc | Inr db' \<Rightarrow> db', snd acc + 1))"

definition advance_step ::
  "env \<Rightarrow> step list \<Rightarrow> logical_step list \<Rightarrow> runtime_db \<times> nat \<Rightarrow> logical_step \<Rightarrow> runtime_db \<times> nat" where
  "advance_step en plan steps acc l =
     (case find_by st_id (ls_stepId l) plan of
        None \<Rightarrow> acc
      | Some config \<Rightarrow>
          if \<not> dependenciesResolved config steps plan then acc
          else (case find (\<lambda>k. ls_id k = ls_id l \<and> ls_status k = SPending) (d_steps (fst acc)) of
              None \<Rightarrow> acc
            | Some k \<Rightarrow>
                if live_attempt (fst acc) (ls_id k) then acc
                else (save_step (k\<lparr>ls_status := SReady, ls_eligibleAt := Some (en_now en)\<rparr>) (fst acc), snd acc + 1)))"

definition pending_steps :: "runtime_db \<Rightarrow> string \<Rightarrow> logical_step list" where
  "pending_steps db i = sort_by (\<lambda>a b. ls_id a \<le> ls_id b) (filter (\<lambda>l. ls_status l = SPending) (steps_of db i))"

definition advance_steps :: "env \<Rightarrow> runtime_db \<Rightarrow> string \<Rightarrow> runtime_db \<times> nat \<times> nat" where
  "advance_steps en db i =
     (case find_by x_id i (d_runs db) of
        None \<Rightarrow> (db, 0, 0)
      | Some x \<Rightarrow>
          (case xr_activeRevision x of
             None \<Rightarrow> (db, 0, 0)
           | Some ri \<Rightarrow>
               if \<not> is_live x then (db, 0, 0)
               else (case find_by rv_id ri (d_revisions db) of
                  None \<Rightarrow> (db, 0, 0)
                | Some r \<Rightarrow>
                    (case foldl (backfill_step en i) (db, 0) (rv_steps r) of (db1, backfilled) \<Rightarrow>
                       if x_status x \<noteq> Running then (db1, backfilled, 0)
                       else (case foldl (advance_step en (rv_steps r) (steps_of db1 i)) (db1, 0) (pending_steps db1 i) of
                          (db2, advanced) \<Rightarrow> (db2, backfilled, advanced))))))"

definition reconcileExecution :: "env \<Rightarrow> runtime_db \<Rightarrow> string \<Rightarrow> runtime_db \<times> bool \<times> nat \<times> nat" where
  "reconcileExecution en db i =
     (case promote_execution db i of (db1, promoted) \<Rightarrow>
        (case advance_steps en db1 i of (db2, n, k) \<Rightarrow> (db2, promoted, n, k)))"

definition getExecutionPlanSteps :: "runtime_db \<Rightarrow> run_row \<Rightarrow> runtime_error + step list" where
  "getExecutionPlanSteps db x =
     (case xr_activeRevision x of
        None \<Rightarrow> Inl NoActiveRevision
      | Some ri \<Rightarrow>
          (case find_by rv_id ri (d_revisions db) of
             None \<Rightarrow> Inl (RowMissing ri)
           | Some r \<Rightarrow> if rv_executionId r \<noteq> x_id x then Inl (RowMissing ri) else Inr (rv_steps r)))"

definition getStepExecutions :: "runtime_db \<Rightarrow> string \<Rightarrow> logical_step list" where
  "getStepExecutions db i = sort_by (\<lambda>a b. ls_createdAt a \<le> ls_createdAt b) (steps_of db i)"

subsection \<open>Status updates\<close>

definition updated_run :: "env \<Rightarrow> execution_status \<Rightarrow> jsv \<Rightarrow> run_row \<Rightarrow> run_row" where
  "updated_run en st out x = x\<lparr>x_status := st,
     xr_endTime := (if st \<in> set TERMINAL_EXECUTION_STATUSES then Some (en_now en) else xr_endTime x),
     xr_output := (if out = JUndef then xr_output x else out)\<rparr>"

text \<open>Only a terminal status is guarded.\<close>

definition updatable :: "execution_status \<Rightarrow> string \<Rightarrow> run_row \<Rightarrow> bool" where
  "updatable st i x \<longleftrightarrow> x_id x = i \<and> (st \<in> set TERMINAL_EXECUTION_STATUSES \<longrightarrow> is_live x)"

definition updateExecutionStatus :: "env \<Rightarrow> runtime_db \<Rightarrow> string \<Rightarrow> execution_status \<Rightarrow> jsv \<Rightarrow> runtime_db" where
  "updateExecutionStatus en db i st out =
     db\<lparr>d_runs := update_where (updatable st i) (updated_run en st out) (d_runs db)\<rparr>"

subsection \<open>Cancelling\<close>

definition CANCELLABLE_STEPS :: "step_status list" where
  "CANCELLABLE_STEPS = [SPending, SReady, SRunning, SRetrying, SWaiting]"

definition cancellable :: "string \<Rightarrow> attempt \<Rightarrow> bool" where
  "cancellable i a \<longleftrightarrow> at_executionId a = i \<and> at_status a \<in> set LIVE_ATTEMPTS"

definition cancelled_attempt :: "env \<Rightarrow> string \<Rightarrow> attempt \<Rightarrow> attempt" where
  "cancelled_attempt en reason a = a\<lparr>at_status := ACancelled, at_terminalAt := Some (en_now en), at_result := JNull,
     at_error := Some (Message reason), at_terminationReason := Some (Message reason)\<rparr>"

definition cancelled_in_order :: "runtime_db \<Rightarrow> string \<Rightarrow> attempt list" where
  "cancelled_in_order db i = sort_by (\<lambda>a b. at_id a \<le> at_id b) (filter (cancellable i) (d_attempts db))"

definition release_attempts :: "ledger_db \<Rightarrow> attempt list \<Rightarrow> ledger_error + ledger_db" where
  "release_attempts db as = foldE (\<lambda>db a. releaseForAction db (at_invocationId a) ''execution cancelled'') db as"

definition cancellable_step :: "string \<Rightarrow> logical_step \<Rightarrow> bool" where
  "cancellable_step i l \<longleftrightarrow> ls_executionId l = i \<and> ls_status l \<in> set CANCELLABLE_STEPS"

definition cancelled_step :: "env \<Rightarrow> string \<Rightarrow> logical_step \<Rightarrow> logical_step" where
  "cancelled_step en reason l = l\<lparr>ls_status := SCancelled, ls_error := Some (Message reason),
     ls_endTime := Some (en_now en), ls_nextAttemptAt := None, ls_eligibleAt := None\<rparr>"

definition retirable :: "string set \<Rightarrow> outbox_row \<Rightarrow> bool" where
  "retirable ids b \<longleftrightarrow> ob_attempt b \<in> ids \<and> ob_status b \<in> {OPending, OLeased, ODispatched}"

definition retired :: "outbox_row \<Rightarrow> outbox_row" where
  "retired b = b\<lparr>ob_status := OCompleted, ob_leaseExpiresAt := None, ob_leaseToken := None\<rparr>"

definition cancelled_run :: "env \<Rightarrow> string \<Rightarrow> run_row \<Rightarrow> run_row" where
  "cancelled_run en reason x = x\<lparr>x_status := Cancelled, xr_endTime := Some (en_now en),
     xr_terminationReason := Some (Message reason)\<rparr>"

definition cancel_rows :: "env \<Rightarrow> string \<Rightarrow> string \<Rightarrow> runtime_db \<Rightarrow> runtime_db" where
  "cancel_rows en i reason db =
     db\<lparr>d_attempts := update_where (cancellable i) (cancelled_attempt en reason) (d_attempts db),
        d_steps := update_where (cancellable_step i) (cancelled_step en reason) (d_steps db),
        d_outbox := update_where (retirable (at_id ` set (filter (cancellable i) (d_attempts db)))) retired (d_outbox db)\<rparr>"

definition cancelExecutionWithManager ::
  "env \<Rightarrow> runtime_db \<Rightarrow> string \<Rightarrow> string \<Rightarrow> runtime_error + runtime_db \<times> run_row" where
  "cancelExecutionWithManager en db i reason =
     (case find_by x_id i (d_runs db) of
        None \<Rightarrow> Inl (RowMissing i)
      | Some x \<Rightarrow>
          if \<not> is_live x then Inr (db, x)
          else bindE (mapL LedgerError (release_attempts (d_ledger db) (cancelled_in_order db i))) (\<lambda>ledger.
            let x' = cancelled_run en reason x
            in Inr (save_run x' (cancel_rows en i reason (db\<lparr>d_ledger := ledger\<rparr>)), x')))"

definition cancelExecution :: "env \<Rightarrow> runtime_db \<Rightarrow> string \<Rightarrow> runtime_error + runtime_db \<times> run_row" where
  "cancelExecution en db i = cancelExecutionWithManager en db i ''Execution cancelled by request''"

subsection \<open>The deprecated entry points\<close>

definition createSkippedLogicalStep :: "env \<Rightarrow> runtime_db \<Rightarrow> string \<Rightarrow> step \<Rightarrow> bool \<Rightarrow> runtime_error + runtime_db \<times> logical_step" where
  "createSkippedLogicalStep en db i config result =
     (case find (\<lambda>l. ls_executionId l = i \<and> ls_stepId l = st_id config) (d_steps db) of
        Some l \<Rightarrow> Inr (db, l)
      | None \<Rightarrow>
          let l = (new_logical_step en i config)\<lparr>ls_status := SSkipped, ls_maxAttempts := 0,
                    ls_frozenSpecHash := Some (step_hash en config), ls_frozenAt := Some (en_now en),
                    ls_conditionResult := Some result, ls_endTime := Some (en_now en)\<rparr>
          in if find_by ls_id (ls_id l) (d_steps db) \<noteq> None then Inl (UniqueError ''PK_step_executions'')
             else Inr (db\<lparr>d_steps := d_steps db @ [l]\<rparr>, l))"

fun attempt_status_of :: "step_status \<Rightarrow> attempt_status" where
  "attempt_status_of SCompleted = ASuccess"
| "attempt_status_of SFailed = AFailed"
| "attempt_status_of SCancelled = ACancelled"
| "attempt_status_of SRunning = ARunning"
| "attempt_status_of _ = ACreated"

definition updated_attempt :: "env \<Rightarrow> step_status \<Rightarrow> jsv \<Rightarrow> string option \<Rightarrow> attempt \<Rightarrow> attempt" where
  "updated_attempt en st out err a =
     (let terminal = attempt_status_of st \<in> set TERMINAL_ATTEMPTS; why = map_option Message err
      in a\<lparr>at_status := attempt_status_of st,
           at_startTime := (if st = SRunning \<and> at_startTime a = None then Some (en_now en) else at_startTime a),
           at_terminalAt := (if terminal then Some (en_now en) else at_terminalAt a),
           at_result := (if terminal \<and> out \<noteq> JUndef then out else at_result a),
           at_error := (if terminal \<and> err \<noteq> None then why else at_error a),
           at_terminationReason := (if terminal \<and> err \<noteq> None then why else at_terminationReason a)\<rparr>)"

definition updated_step :: "env \<Rightarrow> step_status \<Rightarrow> jsv \<Rightarrow> string option \<Rightarrow> logical_step \<Rightarrow> logical_step" where
  "updated_step en st out err l = l\<lparr>ls_status := st,
     ls_startTime := (if st = SRunning \<and> ls_startTime l = None then Some (en_now en) else ls_startTime l),
     ls_endTime := (if st \<in> set TERMINAL_STEPS then Some (en_now en) else ls_endTime l),
     ls_output := (if out \<noteq> JUndef then out else ls_output l),
     ls_error := (if err \<noteq> None then map_option Message err else ls_error l)\<rparr>"

definition current_attempt :: "runtime_db \<Rightarrow> logical_step \<Rightarrow> attempt option" where
  "current_attempt db l =
     (if ls_attempt l > 0 then find (\<lambda>a. at_logicalStepId a = ls_id l \<and> at_attemptNumber a = ls_attempt l) (d_attempts db)
      else None)"

text \<open>Three statements, not one transaction; a terminal attempt keeps its step as it is.\<close>

definition updateStepStatus ::
  "env \<Rightarrow> runtime_db \<Rightarrow> string \<Rightarrow> string \<Rightarrow> step_status \<Rightarrow> jsv \<Rightarrow> string option \<Rightarrow> runtime_error + runtime_db \<times> logical_step" where
  "updateStepStatus en db i stepId st out err =
     (case find (\<lambda>l. ls_executionId l = i \<and> ls_stepId l = stepId) (d_steps db) of
        None \<Rightarrow> Inl (RowMissing stepId)
      | Some l \<Rightarrow>
          let l' = updated_step en st out err l
          in (case current_attempt db l of
                None \<Rightarrow> Inr (save_step l' db, l')
              | Some a \<Rightarrow>
                  if affected (not_terminal (at_id a)) (d_attempts db) \<noteq> 1 then Inr (db, l)
                  else if attempt_status_of st \<in> set ACTIVE_STATUSES \<and> active_other db a
                  then Inl (UniqueError ''UQ_step_attempt_active'')
                  else Inr (save_step l' (db\<lparr>d_attempts := update_where (not_terminal (at_id a))
                         (updated_attempt en st out err) (d_attempts db)\<rparr>), l')))"

text \<open>Materialises and claims in one call, without a context and without the gates of the claim.\<close>

definition legacy_attempt :: "env \<Rightarrow> run_row \<Rightarrow> string \<Rightarrow> string \<Rightarrow> jsv \<Rightarrow> int option \<Rightarrow> logical_step \<Rightarrow> attempt" where
  "legacy_attempt en x agent hash inp deadline l =
     \<lparr>at_id = en_newId en ''attempt'', at_executionId = x_id x, at_logicalStepId = ls_id l,
      at_planRevisionId = (case xr_activeRevision x of None \<Rightarrow> [] | Some r \<Rightarrow> r), at_attemptNumber = ls_attempt l,
      at_invocationId = invocation_id l, at_frozenSpecHash = Some hash, at_inputSnapshot = inp, at_contextSnapshot = JNull,
      at_efficiency = efficiency_js (buildClaimEfficiencyEvidence (invocation_id l)
        \<lparr>hn_agent = agent, hn_executorKind = ''legacy'', hn_configHash = hash, hn_connectionId = None,
         hn_connectionRevision = None, hn_requestedModelId = None\<rparr> None None None True (toISOString (en_now en))),
      at_executorSnapshot = JObj [(''agent'', JStr agent)], at_status = ACreated, at_createdAt = en_now en,
      at_startTime = None, at_deadlineAt = deadline, at_dispatchedAt = None, at_terminalAt = None, at_acceptedAt = None,
      at_lastEventAt = None, at_lastHeartbeatAt = None, at_lastProgressAt = None, at_result = JNull, at_error = None,
      at_terminationReason = None\<rparr>"

definition legacy_invocation :: "env \<Rightarrow> attempt \<Rightarrow> string \<Rightarrow> string \<Rightarrow> int \<Rightarrow> jsv" where
  "legacy_invocation en a stepId agent maxAttempts =
     JObj ([(''schemaVersion'', JStr ''1''), (''invocationId'', JStr (at_invocationId a)),
        (''executionId'', JStr (at_executionId a)), (''stepExecutionId'', JStr (at_logicalStepId a)),
        (''stepId'', JStr stepId), (''target'', JObj [(''agent'', JStr agent)]), (''input'', at_inputSnapshot a),
        (''attempt'', jint (at_attemptNumber a)), (''createdAt'', JStr (toISOString (en_now en)))]
      @ opt_member ''deadlineAt'' (\<lambda>t. JStr (toISOString t)) (at_deadlineAt a)
      @ [(''trace'', JObj [(''traceId'', JStr (at_executionId a)), (''correlationId'', JStr (at_invocationId a))]),
         (''metadata'', JObj [(''orchestration'', JObj [(''maxAttempts'', jint maxAttempts)])])])"

record legacy_request =
  lq_executionId :: string
  lq_stepId :: string
  lq_agent :: string
  lq_input :: jsv
  lq_maxAttempts :: int
  lq_config :: "step option"
  lq_deadlineAt :: "int option"

definition legacy_hash :: "env \<Rightarrow> legacy_request \<Rightarrow> string" where
  "legacy_hash en q = (case lq_config q of Some s \<Rightarrow> step_hash en s
     | None \<Rightarrow> sha256Json (en_sha en) (en_coll en) (JObj [(''id'', JStr (lq_stepId q)), (''agent'', JStr (lq_agent q))]))"

definition kept_hash :: "env \<Rightarrow> legacy_request \<Rightarrow> logical_step \<Rightarrow> string" where
  "kept_hash en q l = (case ls_frozenSpecHash l of Some h \<Rightarrow> if h = [] then legacy_hash en q else h | None \<Rightarrow> legacy_hash en q)"

definition legacy_step :: "env \<Rightarrow> legacy_request \<Rightarrow> logical_step \<Rightarrow> logical_step" where
  "legacy_step en q l = l\<lparr>ls_agent := lq_agent q, ls_input := lq_input q, ls_status := SPending, ls_output := JNull,
     ls_error := None, ls_startTime := None, ls_endTime := None, ls_attempt := ls_attempt l + 1,
     ls_maxAttempts := lq_maxAttempts q, ls_frozenSpecHash := Some (kept_hash en q l),
     ls_frozenAt := (case ls_frozenAt l of None \<Rightarrow> Some (en_now en) | Some t \<Rightarrow> Some t)\<rparr>"

text \<open>A step that has no row yet: the row as it would be, before its first attempt.\<close>

definition legacy_new_step :: "env \<Rightarrow> legacy_request \<Rightarrow> logical_step" where
  "legacy_new_step en q =
     \<lparr>ls_id = en_newId en (''step:'' @ lq_stepId q), ls_executionId = lq_executionId q, ls_stepId = lq_stepId q,
      ls_agent = lq_agent q, ls_status = SReady, ls_input = JNull, ls_output = JNull, ls_error = None,
      ls_attempt = 0, ls_maxAttempts = 1, ls_nextAttemptAt = None, ls_startTime = None, ls_endTime = None,
      ls_eligibleAt = None, ls_frozenSpecHash = None, ls_frozenAt = None, ls_conditionResult = None,
      ls_createdAt = en_now en\<rparr>"

definition schedule_legacy :: "env \<Rightarrow> legacy_request \<Rightarrow> run_row \<Rightarrow> runtime_db \<Rightarrow> logical_step \<Rightarrow> runtime_error + runtime_db \<times> logical_step" where
  "schedule_legacy en q x db l =
     (let a = legacy_attempt en x (lq_agent q) (case ls_frozenSpecHash l of None \<Rightarrow> [] | Some h \<Rightarrow> h) (lq_input q) (lq_deadlineAt q) l
      in bindE (insert_attempt db a) (\<lambda>db1.
         bindE (insert_outbox db1 (new_outbox en a (legacy_invocation en a (lq_stepId q) (lq_agent q) (lq_maxAttempts q)))) (\<lambda>db2.
           Inr (db2, l))))"

definition createStepExecution :: "env \<Rightarrow> runtime_db \<Rightarrow> legacy_request \<Rightarrow> runtime_error + runtime_db \<times> logical_step" where
  "createStepExecution en db q =
     (if (case lq_config q of None \<Rightarrow> False | Some s \<Rightarrow> st_projection s \<noteq> None) then Inl (Raised ''contextProjection'')
      else (case find_by x_id (lq_executionId q) (d_runs db) of
          None \<Rightarrow> Inl NoActiveRevision
        | Some x \<Rightarrow>
            if xr_activeRevision x = None then Inl NoActiveRevision
            else if x_status x \<noteq> Running then Inl (Raised ''not runnable'')
            else (case find (\<lambda>l. ls_executionId l = lq_executionId q \<and> ls_stepId l = lq_stepId q) (d_steps db) of
                Some l \<Rightarrow>
                  if frozen_otherwise l (legacy_hash en q) then Inl (Raised (lq_stepId q))
                  else if ls_status l = SRunning \<or> ls_status l = SPending then Inl (Raised (lq_stepId q))
                  else schedule_legacy en q x (save_step (legacy_step en q l) db) (legacy_step en q l)
              | None \<Rightarrow>
                  let l = legacy_step en q (legacy_new_step en q)
                  in if find_by ls_id (ls_id l) (d_steps db) \<noteq> None then Inl (UniqueError ''PK_step_executions'')
                     else schedule_legacy en q x (db\<lparr>d_steps := d_steps db @ [l]\<rparr>) l)))"

end
