(* ===== verification/StepClaim_Properties.thy ===== *)
theory StepClaim_Properties
  imports StepClaim
begin

text \<open>
  A claim grants work authority to an entitled attempt only, with every gate passed in the same transaction; every
  other outcome leaves the outbox as it was. The claim is a sound step of the runtime tables.
\<close>

subsection \<open>New rows\<close>

lemma insert_attempt_Inr:
  assumes "insert_attempt db a = Inr db'"
  shows "db' = db\<lparr>d_attempts := d_attempts db @ [a]\<rparr>" and "at_id a \<notin> at_id ` set (d_attempts db)"
    and "at_invocationId a \<notin> at_invocationId ` set (d_attempts db)"
  using assms by (auto simp: insert_attempt_def split: if_splits)

lemma sound_insert_attempt:
  assumes "insert_attempt db a = Inr db'"
  shows "sound_step coll db db'"
  unfolding sound_step_def
proof
  assume ok: "runtime_ok coll db"
  note invs = runtime_okD [OF ok]
  note db' = insert_attempt_Inr [OF assms]
  have "plans_ok coll db'" by (rule plans_ok_frame [OF invs(2)]) (simp_all add: db')
  moreover have "keys_ok db'" using invs(1) db'(2,3) by (simp add: keys_ok_def db'(1))
  ultimately show "runtime_ok coll db' \<and> facts_kept db db'"
    using invs by (simp add: runtime_ok_def db'(1) states_ok_def evidence_ok_def facts_kept_def)
qed

lemma sound_policy: "sound_step coll db (db\<lparr>d_policy := p\<rparr>)"
  by (rule sound_skeleton') (simp_all add: skeleton_def facts_kept_def)

lemma exposures_kept: "set rows \<subseteq> set (foldl (add_exposure i) rows arts)"
proof (induction arts arbitrary: rows)
  case (Cons a arts)
  have "set rows \<subseteq> set (add_exposure i rows a)" by (auto simp: add_exposure_def)
  with Cons.IH [of "add_exposure i rows a"] show ?case by simp
qed simp

lemma sound_exposures: "sound_step coll db (db\<lparr>d_exposures := foldl (add_exposure i) (d_exposures db) arts\<rparr>)"
  by (rule sound_skeleton') (use exposures_kept in \<open>auto simp: skeleton_def facts_kept_def keeps_def\<close>)

subsection \<open>The stages of a claim\<close>

definition claiming_ok :: "runtime_db \<Rightarrow> claiming \<Rightarrow> bool" where
  "claiming_ok db c \<longleftrightarrow> cl_run c \<in> set (d_runs db) \<and> is_live (cl_run c) \<and>
     step_view (cl_step c) \<in> step_view ` set (d_steps db) \<and>
     (\<forall>b. st_budget (cl_config c) = Some b \<longrightarrow> valid_amounts b)"

lemma save_step_views:
  assumes "step_view l \<in> step_view ` set (d_steps db)"
  shows "step_view ` set (d_steps (save_step l db)) \<supseteq> {step_view l}"
proof -
  from assms obtain k where k: "k \<in> set (d_steps db)" "step_view k = step_view l" by fastforce
  then have "l \<in> set (d_steps (save_step l db))"
    by (auto simp: save_step_def step_view_def intro!: in_save_self [of k])
  then show ?thesis by blast
qed

lemma sound_save_view:
  assumes "step_view l \<in> step_view ` set (d_steps db)"
  shows "sound_step coll db (save_step l db)"
proof -
  from assms obtain k where "k \<in> set (d_steps db)" "step_view l = step_view k" by auto
  then show ?thesis unfolding save_step_def by (rule sound_save_step)
qed

lemma sound_fail_run_row:
  assumes "x \<in> set (d_runs db)" and "is_live x"
  shows "sound_step coll db (save_run (failed_run en i msg x) db)"
  unfolding save_run_def using assms by (intro sound_save_run) (simp_all add: failed_run_views)

lemma fail_claim_Inr:
  assumes "fail_claim en c ctx msg out db = Inr (db', out')" and "claiming_ok db c"
  shows "out' = out" and "d_outbox db' = d_outbox db" and "sound_step coll db db'"
    and "at_status a \<in> set ACTIVE_STATUSES \<Longrightarrow> a \<in> set (d_attempts db') \<Longrightarrow> a \<in> set (d_attempts db)"
proof -
  let ?a = "(attempt_row en c ctx AFailed)\<lparr>at_terminalAt := Some (en_now en), at_error := Some (Message msg),
    at_terminationReason := Some (Message msg)\<rparr>"
  let ?retry = "on_failure (Some (cl_config c)) ''retry'' \<and> ls_attempt (cl_step c) < cl_maxAttempts c"
  from assms(1) obtain db1 where db1: "insert_attempt db ?a = Inr db1"
    and db': "db' = (let db2 = save_step (failed_step en (Message msg) ?retry (cl_step c)) db1
        in if \<not> ?retry \<and> \<not> on_failure (Some (cl_config c)) ''continue''
           then save_run (failed_run en (st_id (cl_config c)) msg (cl_run c)) db2 else db2)" and "out' = out"
    by (auto simp: fail_claim_def bindE_Inr_iff Let_def)
  then show "out' = out" by simp
  note ins = insert_attempt_Inr [OF db1]
  show "d_outbox db' = d_outbox db" by (simp add: db' ins(1) save_step_def save_run_def Let_def)
  have "d_attempts db' = d_attempts db @ [?a]" by (simp add: db' ins(1) save_step_def save_run_def Let_def)
  then show "at_status a \<in> set ACTIVE_STATUSES \<Longrightarrow> a \<in> set (d_attempts db') \<Longrightarrow> a \<in> set (d_attempts db)"
    by (auto simp: attempt_row_def ACTIVE_STATUSES_def)
  let ?db2 = "save_step (failed_step en (Message msg) ?retry (cl_step c)) db1"
  have "sound_step coll db db1" by (rule sound_insert_attempt [OF db1])
  also have "sound_step coll db1 ?db2"
    by (rule sound_save_view) (use assms(2) in \<open>simp add: claiming_ok_def ins(1) failed_step_view\<close>)
  also have "sound_step coll ?db2 db'"
  proof -
    have "cl_run c \<in> set (d_runs ?db2)" "is_live (cl_run c)" using assms(2) by (simp_all add: claiming_ok_def ins(1) save_step_def)
    from sound_fail_run_row [OF this] show ?thesis by (simp add: db' Let_def)
  qed
  finally show "sound_step coll db db'" .
qed

text \<open>What a granted attempt has with it when the transaction commits.\<close>

definition allowed :: "env \<Rightarrow> policy_db \<Rightarrow> string \<Rightarrow> bool" where
  "allowed en p i \<longleftrightarrow> en_policy en \<noteq> EnvUnset \<longrightarrow>
     (\<exists>d \<in> set (decisions p). dr_proposalId d = i \<and> dr_actionType d = Dispatch \<and> dr_effect d = ALLOW)"

definition granted :: "env \<Rightarrow> claiming \<Rightarrow> runtime_db \<Rightarrow> runtime_db \<Rightarrow> attempt \<Rightarrow> bool" where
  "granted en c db db' a \<longleftrightarrow> (\<exists>ctx. a = attempt_row en c ctx ACreated) \<and>
     negotiated en (cl_config c) \<and>
     allowed en (d_policy db') (at_invocationId a) \<and>
     reserved (d_ledger db') a (cl_config c) \<and> d_attempts db' = d_attempts db @ [a] \<and>
     (\<exists>b. d_outbox db' = d_outbox db @ [b] \<and> ob_attempt b = at_id a \<and> ob_status b = OPending)"

definition withheld :: "runtime_db \<Rightarrow> runtime_db \<Rightarrow> bool" where
  "withheld db db' \<longleftrightarrow> d_outbox db' = d_outbox db \<and>
     (\<forall>a \<in> set (d_attempts db'). at_status a \<in> set ACTIVE_STATUSES \<longrightarrow> a \<in> set (d_attempts db))"

definition stage_ok :: "env \<Rightarrow> claiming \<Rightarrow> runtime_db \<Rightarrow> runtime_db \<times> claim \<Rightarrow> bool" where
  "stage_ok en c db res \<longleftrightarrow> sound_step (en_coll en) db (fst res) \<and>
     (case snd res of Claimed l a \<Rightarrow> l = cl_step c \<and> granted en c db (fst res) a | _ \<Rightarrow> withheld db (fst res))"

lemma stage_ok_fail:
  assumes "fail_claim en c ctx msg out db = Inr res" and "claiming_ok db c" and "\<forall>l a. out \<noteq> Claimed l a"
  shows "stage_ok en c db res"
proof -
  obtain db' out' where res: "res = (db', out')" by (cases res)
  note f = fail_claim_Inr [OF assms(1) [unfolded res] assms(2)]
  have "withheld db db'" using f(2,4) by (auto simp: withheld_def)
  then show ?thesis using f(1,3) assms(3) by (auto simp: stage_ok_def res split: claim.splits)
qed

lemma grant_Inr:
  assumes "grant en c ctx db = Inr res"
  defines "a \<equiv> attempt_row en c ctx ACreated"
  shows "snd res = Claimed (cl_step c) a" and "sound_step coll db (fst res)"
    and "d_attempts (fst res) = d_attempts db @ [a]" and "d_ledger (fst res) = d_ledger db"
    and "d_policy (fst res) = d_policy db"
    and "\<exists>b. d_outbox (fst res) = d_outbox db @ [b] \<and> ob_attempt b = at_id a \<and> ob_status b = OPending"
proof -
  let ?b = "new_outbox en a (invocation_of en a (cl_config c) (cl_maxAttempts c) (frozen_members (cl_snapshot c)))"
  from assms(1) obtain db1 db2 where db1: "insert_attempt db a = Inr db1"
    and db2: "insert_outbox (db1\<lparr>d_exposures := foldl (add_exposure (at_id a)) (d_exposures db1) (cx_artifacts ctx)\<rparr>) ?b = Inr db2"
    and res: "res = (db2, Claimed (cl_step c) a)"
    by (auto simp: grant_def bindE_Inr_iff Let_def a_def)
  note rows = insert_attempt_Inr(1) [OF db1] insert_outbox_Inr(1) [OF db2]
  show "snd res = Claimed (cl_step c) a" by (simp add: res)
  show "d_attempts (fst res) = d_attempts db @ [a]" "d_ledger (fst res) = d_ledger db" "d_policy (fst res) = d_policy db"
    by (simp_all add: res rows)
  show "\<exists>b. d_outbox (fst res) = d_outbox db @ [b] \<and> ob_attempt b = at_id a \<and> ob_status b = OPending"
    by (simp add: res rows) (simp add: new_outbox_def)
  have "sound_step coll db db1" by (rule sound_insert_attempt [OF db1])
  also note sound_exposures [of coll db1 "at_id a" "cx_artifacts ctx"]
  also have "sound_step coll (db1\<lparr>d_exposures := foldl (add_exposure (at_id a)) (d_exposures db1) (cx_artifacts ctx)\<rparr>) db2"
    by (rule sound_insert_outbox [OF db2])
  finally show "sound_step coll db (fst res)" by (simp add: res)
qed

lemma claiming_ok_ledger [simp]: "claiming_ok (db\<lparr>d_ledger := led\<rparr>) c = claiming_ok db c"
  by (simp add: claiming_ok_def)

lemma claiming_ok_policy [simp]: "claiming_ok (db\<lparr>d_policy := p\<rparr>) c = claiming_ok db c"
  by (simp add: claiming_ok_def)

lemma stage_ok_before:
  assumes "stage_ok en c db1 res" and "sound_step (en_coll en) db db1" and "d_attempts db1 = d_attempts db" "d_outbox db1 = d_outbox db"
  shows "stage_ok en c db res"
  using assms sound_trans [OF assms(2)]
  by (auto simp: stage_ok_def granted_def withheld_def split: claim.splits)

lemma stage_ok_budget:
  assumes "budget_stage en c ctx db = Inr res" and "claiming_ok db c" and "negotiated en (cl_config c)"
    and "allowed en (d_policy db) (invocation_id (cl_step c))"
  shows "stage_ok en c db res"
proof -
  let ?a = "attempt_row en c ctx ACreated"
  from assms(1) obtain led refused where gate: "budget_gate en (d_ledger db) (rv_budget (cl_revision c)) ?a (cl_config c) = Inr (led, refused)"
    and rest: "(case refused of Some e \<Rightarrow> fail_claim en c ctx (budget_failure e) BudgetInsufficient (db\<lparr>d_ledger := led\<rparr>)
       | None \<Rightarrow> grant en c ctx (db\<lparr>d_ledger := led\<rparr>)) = Inr res"
    by (auto simp: budget_stage_def bindE_Inr_iff)
  have sound: "sound_step (en_coll en) db (db\<lparr>d_ledger := led\<rparr>)"
    by (rule sound_ledger) (use ledger_ok_budget_gate [OF gate] assms(2) in \<open>auto simp: claiming_ok_def\<close>)
  have "stage_ok en c (db\<lparr>d_ledger := led\<rparr>) res"
  proof (cases refused)
    case None
    with rest have g: "grant en c ctx (db\<lparr>d_ledger := led\<rparr>) = Inr res" by simp
    note grant = grant_Inr [OF g]
    have "reserved led ?a (cl_config c)" using gate None by (auto intro: budget_gate_reserved)
    moreover have "at_invocationId ?a = invocation_id (cl_step c)" by (simp add: attempt_row_def)
    ultimately show ?thesis using grant assms(3,4) by (auto simp: stage_ok_def granted_def)
  next
    case (Some e)
    with rest have "fail_claim en c ctx (budget_failure e) BudgetInsufficient (db\<lparr>d_ledger := led\<rparr>) = Inr res" by simp
    then show ?thesis by (rule stage_ok_fail) (use assms(2) in simp_all)
  qed
  then show ?thesis by (rule stage_ok_before [OF _ sound]) simp_all
qed

lemma stage_ok_await:
  assumes "await_approval en c ctx p db = Inr res" and "claiming_ok db c"
  shows "stage_ok en c db res"
proof -
  let ?l = "(cl_step c)\<lparr>ls_status := SWaiting, ls_error := Some (Message ''Approval required'')\<rparr>"
  let ?a = "attempt_row en c ctx AWaiting"
  from assms(1) obtain db1 db2 q where db1: "insert_attempt db ?a = Inr db1"
    and db2: "request en (save_step ?l db1) p (jint defaultExpiryMs) = Inr (db2, q)" and res: "res = (db2, ApprovalRequired)"
    by (auto simp: await_approval_def bindE_Inr_iff)
  note rows = insert_attempt_Inr(1) [OF db1]
  have "db2 = insert_approval (save_step ?l db1) (new_request p (en_now en + defaultExpiryMs)) \<or>
      (\<exists>q. db2 = insert_approval (save_step ?l db1) q)"
    using db2 by (auto simp: request_def bindE_Inr_iff Let_def split: option.splits)
  then have same: "d_outbox db2 = d_outbox db" "d_attempts db2 = d_attempts db @ [?a]"
    by (auto simp: insert_approval_def save_step_def rows)
  then have "withheld db db2" by (auto simp: withheld_def attempt_row_def ACTIVE_STATUSES_def)
  moreover have "sound_step (en_coll en) db db1" by (rule sound_insert_attempt [OF db1])
  moreover have "sound_step (en_coll en) db1 (save_step ?l db1)"
    by (rule sound_save_view) (use assms(2) in \<open>simp add: claiming_ok_def rows step_view_def\<close>)
  moreover have "sound_step (en_coll en) (save_step ?l db1) db2" by (rule sound_request [OF db2])
  ultimately show ?thesis by (auto simp: stage_ok_def res intro: sound_trans)
qed

lemma evaluate_recorded:
  assumes "evaluate sha coll db q = Inr (db', d)"
  shows "decision_row (er_proposal q) d \<in> set (decisions db')"
  using assms by (auto simp: evaluate_def bindE_Inr_iff Let_def)

lemma dispatch_proposal_Inr:
  assumes "dispatch_proposal en c = Inr p"
  shows "p_id p = invocation_id (cl_step c)" and "p_actionType p = Dispatch"
  using assms by (auto simp: dispatch_proposal_def buildDispatchProposal_def with_hash_def bindE_Inr_iff)

lemma stage_ok_policy:
  assumes "policy_stage en c ctx db = Inr res" and "claiming_ok db c" and "negotiated en (cl_config c)"
  shows "stage_ok en c db res"
proof (cases "en_policy en = EnvUnset")
  case True
  with assms show ?thesis by (intro stage_ok_budget) (simp_all add: policy_stage_def allowed_def)
next
  case False
  with assms(1) obtain p pol d where p: "dispatch_proposal en c = Inr p"
    and d: "evaluate (en_sha en) (en_coll en) (d_policy db)
        \<lparr>er_env = en_policy en, er_race = en_race en, er_now = toISOString (en_now en), er_proposal = p\<rparr> = Inr (pol, d)"
    and rest: "decided_stage en c ctx p d (db\<lparr>d_policy := pol\<rparr>) = Inr res"
    by (auto simp: policy_stage_def bindE_Inr_iff)
  have "stage_ok en c (db\<lparr>d_policy := pol\<rparr>) res"
  proof (cases "d_effect d")
    case ALLOW
    from evaluate_recorded [OF d] dispatch_proposal_Inr [OF p] ALLOW
    have "allowed en pol (invocation_id (cl_step c))" by (force simp: allowed_def decision_row_def)
    with rest ALLOW assms(2,3) show ?thesis by (intro stage_ok_budget) (simp_all add: decided_stage_def)
  next
    case DENY
    with rest have "fail_claim en c ctx (''Policy DENY: '' @ join_comma (d_reasons d)) PolicyDenial (db\<lparr>d_policy := pol\<rparr>) = Inr res"
      by (simp only: decided_stage_def policy_effect.case)
    then show ?thesis by (rule stage_ok_fail) (use assms(2) in simp_all)
  next
    case REQUIRE_APPROVAL
    with rest assms(2) show ?thesis by (intro stage_ok_await) (simp_all add: decided_stage_def)
  qed
  then show ?thesis by (rule stage_ok_before [OF _ sound_policy]) simp_all
qed

lemma stage_ok_capability:
  assumes "capability_stage en c ctx db = Inr res" and "claiming_ok db c"
  shows "stage_ok en c db res"
  using assms stage_ok_policy stage_ok_fail by (auto simp: capability_stage_def split: if_splits)

lemma stage_ok_context:
  assumes "context_stage en c db out = Inr res" and "claiming_ok db c"
  shows "stage_ok en c db res"
  using assms stage_ok_capability stage_ok_fail by (auto simp: context_stage_def split: context_outcome.splits)

subsection \<open>The claim\<close>

text \<open>Who may be granted an attempt: a due step of a running execution before its authority deadline, as the active
  plan defines it, with its dependencies resolved, its condition true, and no attempt under way.\<close>

definition entitled :: "env \<Rightarrow> string list \<Rightarrow> runtime_db \<Rightarrow> claim_request \<Rightarrow> logical_step \<Rightarrow> claiming \<Rightarrow> bool" where
  "entitled en locked db q l c \<longleftrightarrow>
     l \<in> set (d_steps db) \<and> runnable en locked (rq_executionId q) (rq_stepId q) l \<and>
     cl_run c \<in> set (d_runs db) \<and> x_id (cl_run c) = rq_executionId q \<and> x_status (cl_run c) = Running \<and>
     \<not> authority_over en (cl_run c) \<and>
     cl_revision c \<in> set (d_revisions db) \<and> xr_activeRevision (cl_run c) = Some (rv_id (cl_revision c)) \<and>
     find_by st_id (rq_stepId q) (rv_steps (cl_revision c)) = Some (cl_config c) \<and>
     \<not> frozen_otherwise l (step_hash en (cl_config c)) \<and>
     dependenciesResolved (cl_config c) (steps_of db (rq_executionId q)) (rv_steps (cl_revision c)) \<and>
     condition_holds en (cl_run c) (steps_of db (rq_executionId q)) (cl_config c) \<and> \<not> active_attempt db (ls_id l) \<and>
     cl_step c = started_step en (cl_config c) (rq_input q) (rq_maxAttempts q) (gated_step en (step_hash en (cl_config c)) True l) \<and>
     cl_deadline c = attempt_deadline (xr_authorityDeadlineAt (cl_run c)) (rq_deadlineAt q)"

lemma gate_step_Inr:
  assumes "gate_step en cache q x r config h l con m db = (cache', Inr res)"
  obtains (none) "res = (db, NotClaimed)"
    | (skipped) "res = (save_step (skipped_step en (gated_step en h False l)) db, Skipped (skipped_step en (gated_step en h False l)))"
    | (started) snapshot out where
      "dependenciesResolved config (steps_of db (rq_executionId q)) (rv_steps r)"
      "condition_holds en x (steps_of db (rq_executionId q)) config" "\<not> active_attempt db (ls_id l)"
      "context_stage en (claiming_of en q x r config h l snapshot) (save_step (cl_step (claiming_of en q x r config h l snapshot)) db) out
        = Inr res"
  using assms
  by (auto simp: gate_step_def start_attempt_def Let_def split: if_splits sum.splits prod.splits)

lemma claim_cases:
  assumes "claimRunnableStep en cache locked db q = (cache', Inr res)"
  obtains (none) "res = (db, NotClaimed)"
    | (expired) x l where "x \<in> set (d_runs db)" "x_status x = Running" "l \<in> set (d_steps db)"
      "res = (expire_authority en x l db, AuthorityExpired)"
    | (skipped) l h where "l \<in> set (d_steps db)"
      "res = (save_step (skipped_step en (gated_step en h False l)) db, Skipped (skipped_step en (gated_step en h False l)))"
    | (started) l c out where "entitled en locked db q l c" "context_stage en c (save_step (cl_step c) db) out = Inr res"
proof (cases "find (runnable en locked (rq_executionId q) (rq_stepId q)) (d_steps db)")
  case None
  with assms show ?thesis by (intro none) (simp add: claimRunnableStep_def)
next
  case (Some l)
  note l = find_SomeD [OF Some]
  show ?thesis
  proof (cases "find_by x_id (rq_executionId q) (d_runs db)")
    case None
    with Some assms show ?thesis by (intro none) (simp add: claimRunnableStep_def)
  next
    case x: (Some x)
    note find_by_Some [OF x]
    show ?thesis
    proof (cases "x_status x = Running \<and> \<not> authority_over en x")
      case False
      with Some x assms l find_by_Some [OF x] show ?thesis
        by (cases "x_status x = Running") (auto simp: claimRunnableStep_def intro: none expired)
    next
      case True
      with Some x assms have "claim_planned en cache q x l db = (cache', Inr res)" by (simp add: claimRunnableStep_def)
      then obtain ri r config con m where ri: "xr_activeRevision x = Some ri" "find_by rv_id ri (d_revisions db) = Some r"
        and config: "find_by st_id (rq_stepId q) (rv_steps r) = Some config" "\<not> frozen_otherwise l (step_hash en config)"
        and gate: "gate_step en cache q x r config (step_hash en config) l con m db = (cache', Inr res)"
        by (auto simp: claim_planned_def split: option.splits if_splits sum.splits)
      have r: "xr_activeRevision x = Some (rv_id r)" "r \<in> set (d_revisions db)" using ri(1) find_by_Some [OF ri(2)] by auto
      show ?thesis
      proof (cases rule: gate_step_Inr [OF gate])
        case 1
        then show ?thesis by (rule none)
      next
        case 2
        show ?thesis by (rule skipped [OF conjunct1 [OF l] 2])
      next
        case (3 snapshot out)
        show ?thesis
        proof (rule started)
          show "context_stage en (claiming_of en q x r config (step_hash en config) l snapshot)
              (save_step (cl_step (claiming_of en q x r config (step_hash en config) l snapshot)) db) out = Inr res" by (rule 3)
          show "entitled en locked db q l (claiming_of en q x r config (step_hash en config) l snapshot)"
            using l True r config 3 find_by_Some [OF x] by (simp add: entitled_def claiming_of_def)
        qed
      qed
    qed
  qed
qed

lemma started_view: "step_view (started_step en config inp n (gated_step en h b l)) = step_view l"
  by (simp add: started_step_def gated_step_def step_view_def)

lemma entitled_ok:
  assumes "entitled en locked db q l c" and "runtime_ok (en_coll en) db"
  shows "claiming_ok (save_step (cl_step c) db) c" and "step_view (cl_step c) \<in> step_view ` set (d_steps db)"
proof -
  note e = assms(1) [unfolded entitled_def]
  from e show view: "step_view (cl_step c) \<in> step_view ` set (d_steps db)" by (auto simp: started_view)
  from e have "cl_config c \<in> set (rv_steps (cl_revision c))" by (auto dest: find_by_Some)
  with e plan_step_budget [OF runtime_okD(2) [OF assms(2)], of "cl_revision c" "cl_config c"]
  have "\<forall>b. st_budget (cl_config c) = Some b \<longrightarrow> valid_amounts b" by blast
  with e save_step_views [OF view] show "claiming_ok (save_step (cl_step c) db) c"
    by (auto simp: claiming_ok_def is_live_def TERMINAL_EXECUTION_STATUSES_def save_step_def)
qed

lemma claim_stage_ok:
  assumes "runtime_ok (en_coll en) db" and "claimRunnableStep en cache locked db q = (cache', Inr res)"
  shows "sound_step (en_coll en) db (fst res)"
    and "case snd res of Claimed l' a \<Rightarrow> \<exists>l c. entitled en locked db q l c \<and> l' = cl_step c \<and> granted en c db (fst res) a
      | _ \<Rightarrow> withheld db (fst res)"
proof -
  have "sound_step (en_coll en) db (fst res) \<and> (case snd res of
      Claimed l' a \<Rightarrow> \<exists>l c. entitled en locked db q l c \<and> l' = cl_step c \<and> granted en c db (fst res) a
    | _ \<Rightarrow> withheld db (fst res))"
    using assms(2)
  proof (cases rule: claim_cases)
    case (expired x l)
    let ?l = "l\<lparr>ls_status := SCancelled, ls_error := Some (Message ''AUTHORITY_DEADLINE_EXCEEDED''), ls_endTime := Some (en_now en),
      ls_nextAttemptAt := None\<rparr>"
    have "sound_step (en_coll en) db (save_step ?l db)"
      by (rule sound_save_view) (use expired(3) in \<open>auto simp: step_view_def\<close>)
    also have "sound_step (en_coll en) (save_step ?l db) (fst res)"
      unfolding expired(4) fst_conv expire_authority_def Let_def save_run_def
      by (rule sound_save_run [of x])
        (use expired(1,2) in \<open>simp_all add: save_step_def is_live_def TERMINAL_EXECUTION_STATUSES_def run_view_def\<close>)
    finally show ?thesis using expired(4) by (simp add: withheld_def expire_authority_def save_step_def save_run_def Let_def)
  next
    case (skipped l h)
    have "sound_step (en_coll en) db (save_step (skipped_step en (gated_step en h False l)) db)"
      by (rule sound_save_view) (use skipped(1) in \<open>auto simp: step_view_def skipped_step_def gated_step_def\<close>)
    with skipped(2) show ?thesis by (simp add: withheld_def save_step_def)
  next
    case (started l c out)
    note ok = entitled_ok [OF started(1) assms(1)]
    have "stage_ok en c (save_step (cl_step c) db) res" by (rule stage_ok_context [OF started(2) ok(1)])
    then have "stage_ok en c db res"
      by (rule stage_ok_before [OF _ sound_save_view [OF ok(2)]]) (simp_all add: save_step_def)
    with started(1) show ?thesis by (auto simp: stage_ok_def split: claim.splits)
  qed (simp add: withheld_def)
  then show "sound_step (en_coll en) db (fst res)"
    "case snd res of Claimed l' a \<Rightarrow> \<exists>l c. entitled en locked db q l c \<and> l' = cl_step c \<and> granted en c db (fst res) a
      | _ \<Rightarrow> withheld db (fst res)" by blast+
qed

text \<open>C3: work authority is granted only here and only to the entitled: when a claim returns an attempt, the step was due
  in a running execution before its authority deadline, its plan, dependencies and condition allowed it and no
  attempt was under way; the delegation mode was negotiated, a configured policy has recorded ALLOW for this
  invocation, every dimension of the budget is reserved for it, and the transaction adds exactly this attempt and its
  one outbox row, with a deadline not after the authority deadline. Every other outcome adds no outbox row and no
  attempt that could be dispatched.\<close>

theorem claim_grants_authority:
  assumes "runtime_ok (en_coll en) db" and "claimRunnableStep en cache locked db q = (cache', Inr (db', out))"
  shows "case out of
      Claimed l' a \<Rightarrow> \<exists>l c. entitled en locked db q l c \<and> l' = cl_step c \<and> granted en c db db' a \<and>
        at_attemptNumber a = ls_attempt l + 1 \<and> at_frozenSpecHash a = Some (step_hash en (cl_config c)) \<and>
        (case xr_authorityDeadlineAt (cl_run c) of None \<Rightarrow> True | Some t \<Rightarrow> \<exists>d. at_deadlineAt a = Some d \<and> d \<le> t)
    | _ \<Rightarrow> withheld db db'"
proof (cases out)
  case (Claimed l' a)
  with claim_stage_ok(2) [OF assms] obtain l c where lc: "entitled en locked db q l c" "l' = cl_step c" "granted en c db db' a"
    by auto
  from lc(1,3) have "at_attemptNumber a = ls_attempt l + 1 \<and> at_frozenSpecHash a = Some (step_hash en (cl_config c)) \<and>
      (case xr_authorityDeadlineAt (cl_run c) of None \<Rightarrow> True | Some t \<Rightarrow> \<exists>d. at_deadlineAt a = Some d \<and> d \<le> t)"
    by (auto simp: entitled_def granted_def attempt_row_def started_step_def gated_step_def attempt_deadline_def
      split: option.splits)
  with lc Claimed show ?thesis by (simp only: claim.case) blast
qed (use claim_stage_ok(2) [OF assms] in simp_all)

text \<open>When nothing stands against it, the claim goes through.\<close>

definition unclaimed :: "env \<Rightarrow> attempt \<Rightarrow> runtime_db \<Rightarrow> bool" where
  "unclaimed en a db \<longleftrightarrow>
     list_all (\<lambda>b. at_id b \<noteq> at_id a \<and> at_invocationId b \<noteq> at_invocationId a \<and> (at_logicalStepId b = at_logicalStepId a \<longrightarrow>
        at_attemptNumber b \<noteq> at_attemptNumber a \<and> at_status b \<notin> set ACTIVE_STATUSES)) (d_attempts db) \<and>
     list_all (\<lambda>b. ob_id b \<noteq> en_newId en ''outbox'' \<and> ob_attempt b \<noteq> at_id a) (d_outbox db)"

lemma insert_attempt_unclaimed:
  assumes "unclaimed en a db"
  shows "insert_attempt db a = Inr (db\<lparr>d_attempts := d_attempts db @ [a]\<rparr>)"
  using assms by (auto simp: insert_attempt_def unclaimed_def active_other_def list_all_iff)

lemma grant_unclaimed:
  assumes "unclaimed en (attempt_row en c ctx ACreated) db"
  shows "\<exists>db'. grant en c ctx db = Inr (db', Claimed (cl_step c) (attempt_row en c ctx ACreated))"
proof -
  let ?a = "attempt_row en c ctx ACreated"
  from assms have "insert_attempt db ?a = Inr (db\<lparr>d_attempts := d_attempts db @ [?a]\<rparr>)"
    by (rule insert_attempt_unclaimed)
  moreover from assms have "\<exists>db2. insert_outbox (db1\<lparr>d_exposures := es\<rparr>) (new_outbox en ?a inv) = Inr db2"
    if "d_outbox db1 = d_outbox db" for db1 es inv
    using that by (auto simp: insert_outbox_def new_outbox_def unclaimed_def list_all_iff)
  ultimately show ?thesis by (auto simp: grant_def Let_def bindE_Inr_iff)
qed

lemma ungated_claim:
  assumes l: "find (runnable en locked (rq_executionId q) (rq_stepId q)) (d_steps db) = Some l"
    and x: "find_by x_id (rq_executionId q) (d_runs db) = Some x" "x_status x = Running" "xr_authorityDeadlineAt x = None"
    and r: "xr_activeRevision x = Some ri" "find_by rv_id ri (d_revisions db) = Some r"
    and s: "find_by st_id (rq_stepId q) (rv_steps r) = Some s" "ls_frozenSpecHash l = None" "st_metadata s = None"
      "st_projection s = None" "st_delegation s = None" "st_budget s = None" "st_condition s = None"
    and deps: "dependenciesResolved s (steps_of db (rq_executionId q)) (rv_steps r)"
    and en: "en_policy en = EnvUnset" "en_snapshot en (st_agent s) None None = Inr snapshot"
    and free: "\<not> active_attempt db (ls_id l)"
      "unclaimed en (attempt_row en (claiming_of en q x r s (step_hash en s) l snapshot) no_context ACreated) db"
  shows "\<exists>db' l' a. claimRunnableStep en cache locked db q = (cache, Inr (db', Claimed l' a))"
proof -
  let ?c = "claiming_of en q x r s (step_hash en s) l snapshot"
  have "unclaimed en (attempt_row en ?c no_context ACreated) (save_step (cl_step ?c) db)"
    using free(2) by (simp add: unclaimed_def save_step_def)
  from grant_unclaimed [OF this] obtain db' where "grant en ?c no_context (save_step (cl_step ?c) db)
      = Inr (db', Claimed (cl_step ?c) (attempt_row en ?c no_context ACreated))" by blast
  then have "context_stage en ?c (save_step (cl_step ?c) db) (Ready no_context)
      = Inr (db', Claimed (cl_step ?c) (attempt_row en ?c no_context ACreated))"
    using s(5,6) en(1)
    by (simp add: context_stage_def capability_stage_def negotiated_def policy_stage_def budget_stage_def budget_gate_def
      claiming_of_def)
  moreover have "start_attempt en cache q x r s (step_hash en s) l None None db =
      (cache, context_stage en ?c (save_step (cl_step ?c) db) (Ready no_context))"
  proof -
    have "st_projection (cl_config ?c) = None" using s(4) by (simp add: claiming_of_def)
    then have "claim_context en cache (save_step (cl_step ?c) db) ?c = (cache, Ready no_context)" by (simp add: claim_context_def)
    with en(2) show ?thesis unfolding start_attempt_def Let_def by (simp only: sum.case prod.case)
  qed
  moreover have "gate_step en cache q x r s (step_hash en s) l None None db = start_attempt en cache q x r s (step_hash en s) l None None db"
    using s(7) deps free(1) unfolding gate_step_def condition_holds_def Let_def by simp
  moreover have "claim_planned en cache q x l db = gate_step en cache q x r s (step_hash en s) l None None db"
    using r s(1-3) unfolding claim_planned_def
    by (simp add: frozen_otherwise_def stepConnectionIdOf_def stepModelIdOf_def metadata_of_def)
  moreover have "claimRunnableStep en cache locked db q = claim_planned en cache q x l db"
    using l x by (simp add: claimRunnableStep_def authority_over_def)
  ultimately show ?thesis by simp
qed

definition ex_claim_db :: runtime_db where
  "ex_claim_db = ex_plan_db\<lparr>
     d_steps := map (\<lambda>l. if ls_id l = ''step:b'' then l\<lparr>ls_status := SReady\<rparr> else l\<lparr>ls_status := SCompleted\<rparr>) (d_steps ex_plan_db)\<rparr>"

definition ex_claim :: claim_request where
  "ex_claim = \<lparr>rq_executionId = ''e'', rq_stepId = ''b'', rq_input = JObj [], rq_maxAttempts = 1, rq_deadlineAt = Some 90\<rparr>"

lemma ex_claim_sound: "runtime_ok (en_coll ex_env) ex_claim_db"
proof -
  have "plans_ok ex_coll ex_claim_db" "keys_ok ex_claim_db" by code_simp+
  moreover have "d_ledger ex_claim_db = \<lparr>accounts = [], reservations = [], ledger = []\<rparr>" "d_evidence ex_claim_db = []"
    "d_runs ex_claim_db = [ex_run]" by (simp_all add: ex_claim_db_def ex_plan_db_def)
  ultimately show ?thesis using ex_empty_ledger state_ok_empty
    by (simp add: runtime_ok_def states_ok_def evidence_ok_def ex_run_def run_state_def ex_env_def)
qed

lemma ex_claim_run:
  "\<exists>db' l a. claimRunnableStep ex_env empty_cache [] ex_claim_db ex_claim = (empty_cache, Inr (db', Claimed l a))"
  by (rule ungated_claim [where x = ex_run and ri = "''r1''" and r = ex_revision and snapshot = JNull
      and s = "ex_plan_step ''b'' (Some [''a'']) False"
      and l = "(new_logical_step ex_env ''e'' (ex_plan_step ''b'' (Some [''a'']) False))\<lparr>ls_status := SReady\<rparr>"])
    (simp_all add: ex_claim_def ex_claim_db_def ex_plan_db_def ex_run_def ex_revision_def ex_base_def ex_plan_step_def find_by_def
      runnable_def new_logical_step_def ex_env_def not_after_def dependenciesResolved_def dependency_resolved_def steps_of_def
      active_attempt_def ex_attempt_def unclaimed_def attempt_row_def claiming_of_def invocation_id_def started_step_def
      gated_step_def int_str_def)

theorem claim_grants_authority_witness:
  "\<exists>cache' db' l a. claimRunnableStep ex_env empty_cache [] ex_claim_db ex_claim = (cache', Inr (db', Claimed l a)) \<and>
     (\<exists>b. d_outbox db' = [b] \<and> ob_attempt b = at_id a)"
proof -
  obtain cache' db' l a where run: "claimRunnableStep ex_env empty_cache [] ex_claim_db ex_claim = (cache', Inr (db', Claimed l a))"
    using ex_claim_run by blast
  have "d_outbox ex_claim_db = []" by (simp add: ex_claim_db_def ex_plan_db_def)
  with claim_grants_authority [OF ex_claim_sound run] run show ?thesis by (auto simp: granted_def)
qed

subsection \<open>What a resumed invocation lacks\<close>

definition ex_connection :: jsv where
  "ex_connection = JObj [(''connection'', JObj [(''connectionId'', JStr ''c''), (''revisionNumber'', jint 2),
     (''configHash'', JStr ''h'')]), (''requestedModelId'', JStr ''m'')]"

lemma getp_append: "getp (JObj (xs @ ys)) k = (case map_of xs k of Some v \<Rightarrow> v | None \<Rightarrow> getp (JObj ys) k)"
  by (simp add: getp_def map_add_def split: option.split)

lemma frozen_connection: "truthy (getp snapshot ''connection'') \<Longrightarrow> truthy (getp (JObj (frozen_members snapshot)) ''connection'')"
proof -
  have obj: "truthy (JObj kvs)" for kvs by (simp add: truthy_def)
  assume "truthy (getp snapshot ''connection'')"
  then show ?thesis by (simp add: frozen_members_def Let_def getp_append obj)
qed

lemma invocation_connection:
  "getp (invocation_of en a config n frozen) ''connection'' = getp (JObj frozen) ''connection''"
  by (simp add: invocation_of_def getp_append opt_member_def getp_JObj split: option.splits)


definition ex_bound_env :: env where
  "ex_bound_env = ex_env\<lparr>en_snapshot := (\<lambda>_ _ _. Inr ex_connection)\<rparr>"

definition ex_claiming :: claiming where
  "ex_claiming = claiming_of ex_bound_env ex_claim ex_run ex_revision (ex_plan_step ''b'' (Some [''a'']) False) ''h''
     ((new_logical_step ex_env ''e'' (ex_plan_step ''b'' (Some [''a'']) False))\<lparr>ls_status := SReady\<rparr>) ex_connection"

lemma ex_grant:
  "\<exists>db1. grant ex_bound_env ex_claiming no_context ex_claim_db =
     Inr (db1, Claimed (cl_step ex_claiming) (attempt_row ex_bound_env ex_claiming no_context ACreated))"
  by (rule grant_unclaimed)
    (simp add: unclaimed_def ex_claim_db_def ex_plan_db_def ex_attempt_def attempt_row_def ex_claiming_def claiming_of_def
      invocation_id_def started_step_def gated_step_def new_logical_step_def ex_env_def ex_bound_env_def ex_plan_step_def int_str_def)

lemma resume_Inr_iff:
  "(\<exists>db'. resume en db a l config = Inr db') \<longleftrightarrow> \<not> active_other db a \<and>
     list_all (\<lambda>b. ob_id b \<noteq> en_newId en ''outbox'' \<and> ob_attempt b \<noteq> at_id a) (d_outbox db)"
  by (auto simp: resume_def insert_outbox_def new_outbox_def list_all_iff)


end
