(* ===== verification/ExecutionService_Properties.thy ===== *)
theory ExecutionService_Properties
  imports ExecutionService StepClaim_Properties
begin

text \<open>
  Every operation of the execution service is a sound step of the runtime tables; a stored pipeline is loaded as it
  was stored; a new execution has its plan and its rows; reconciling twice is reconciling once; and a cancelled
  execution has nothing left that could run.
\<close>

subsection \<open>Stored pipelines\<close>

definition pipeline_valid :: "(string \<Rightarrow> string \<Rightarrow> bool) \<Rightarrow> pipeline_row \<Rightarrow> bool" where
  "pipeline_valid coll r \<longleftrightarrow> graph_valid (pl_steps r) \<and> (\<forall>s \<in> set (pl_steps r). step_valid coll s)"

lemma getp_pipeline_js:
  "getp (pipeline_js p) ''name'' = JStr (pl_name p)" "getp (pipeline_js p) ''version'' = JStr (pl_version p)"
  "getp (pipeline_js p) ''description'' = (case pl_description p of None \<Rightarrow> JUndef | Some d \<Rightarrow> JStr d)"
  "getp (pipeline_js p) ''budget'' = (case pl_budget p of None \<Rightarrow> JUndef | Some b \<Rightarrow> envelope_js b)"
  "getp (pipeline_js p) ''steps'' = JArr (map step_js (pl_steps p))"
  by (simp_all add: pipeline_js_def opt_member_def split: option.split)

lemma nonEmptyString_again: "nonEmptyString v n e = Inr s \<Longrightarrow> nonEmptyString (JStr s) n e = Inr s"
  by (auto simp: nonEmptyString_def split: jsv.splits if_splits)

lemma parsePipelineBudget_js:
  assumes "parsePipelineBudget v = Inr b"
  shows "parsePipelineBudget (case b of None \<Rightarrow> JUndef | Some b \<Rightarrow> envelope_js b) = Inr b"
proof (cases b)
  case None
  then show ?thesis by (simp add: parsePipelineBudget_def)
next
  case (Some b')
  with parsePipelineBudget_Some [of v b'] parse_parent_Inr [of "getp v ''parent''"] assms show ?thesis
    by (cases "pb_parent b'")
      (auto simp: parsePipelineBudget_def envelope_js_def validateCeilings_amounts_js parse_parent_def split: option.splits)
qed

lemma validatePipeline_js:
  assumes "validatePipeline coll v = Inr p"
  shows "validatePipeline coll (pipeline_js p) = Inr p"
proof -
  from assms obtain d where parts: "nonEmptyString (getp v ''name'') 255 False = Inr (pl_name p)"
      "nonEmptyString (getp v ''version'') 50 False = Inr (pl_version p)" "validateSteps coll (getp v ''steps'') = Inr (pl_steps p)"
      "parsePipelineBudget (getp v ''budget'') = Inr (pl_budget p)" "pl_description p = d"
    and d: "d = None \<or> (\<exists>s. d = Some s \<and> nonEmptyString (getp v ''description'') 10000 True = Inr s)"
    by (auto simp: validatePipeline_def bindE_Inr_iff split: if_splits)
  note again = nonEmptyString_again [OF parts(1)] nonEmptyString_again [OF parts(2)] validateSteps_js [OF parts(3)]
    parsePipelineBudget_js [OF parts(4)]
  have "is_record (pipeline_js p)" by (simp add: pipeline_js_def)
  moreover have "nonEmptyString (JStr s) 10000 True = Inr s" if "d = Some s" for s
    using d that nonEmptyString_again by auto
  ultimately show ?thesis
    using again parts(5)
    by (cases d) (simp_all add: validatePipeline_def getp_pipeline_js pipeline.equality)
qed

lemma create_pipeline_Inr:
  assumes "create_pipeline en rows v = Inr (rows', r)"
  shows "rows' = rows @ [r]" and "validatePipeline (en_coll en) (pipeline_js r) = Inr (pipeline.truncate r)"
    and "pipeline_valid (en_coll en) r"
proof -
  from assms obtain p where p: "validatePipeline (en_coll en) v = Inr p" and rows: "rows' = rows @ [r]"
    and r: "pipeline.truncate r = p"
    by (auto simp: create_pipeline_def bindE_Inr_iff Let_def pipeline.defs)
  show "rows' = rows @ [r]" by (fact rows)
  have "pipeline_js r = pipeline_js (pipeline.truncate r)" by (simp add: pipeline_js_def pipeline.defs)
  with validatePipeline_js [OF p] r
  show valid: "validatePipeline (en_coll en) (pipeline_js r) = Inr (pipeline.truncate r)" by simp
  then have "validateSteps (en_coll en) (JArr (map step_js (pl_steps r))) = Inr (pl_steps r)"
    by (auto simp: validatePipeline_def bindE_Inr_iff getp_pipeline_js pipeline.defs split: if_splits)
  with validateSteps_Inr(1) validateSteps_valid show "pipeline_valid (en_coll en) r"
    unfolding pipeline_valid_def by blast
qed

lemma stored_pipeline:
  assumes "create_pipeline en rows v = Inr (rows', r)" and "pw_id r \<notin> pw_id ` set rows"
  shows "find_pipeline en rows' (pw_id r) = Inr (Some r)"
proof -
  have "find_by pw_id (pw_id r) rows = None" using assms(2) by (simp add: find_by_None)
  then have "find_by pw_id (pw_id r) rows' = Some r"
    by (simp add: create_pipeline_Inr(1) [OF assms(1)] find_by_append) (simp add: find_by_def)
  with create_pipeline_Inr(2) [OF assms(1)] show ?thesis by (simp add: find_pipeline_def pipeline.defs)
qed

text \<open>C11: a pipeline that was stored is loaded as it was stored: validating it again, from its columns, accepts it with
  the same steps.\<close>

theorem pipeline_roundtrip:
  assumes "create_pipeline en rows v = Inr (rows', r)" and "pw_id r \<notin> pw_id ` set rows"
  shows "find_pipeline en rows' (pw_id r) = Inr (Some r)"
  by (rule stored_pipeline [OF assms])

definition ex_pipeline_js :: jsv where
  "ex_pipeline_js = JObj [(''name'', JStr ''p''), (''version'', JStr ''1''), (''steps'', JArr [step_js (ex_plan_step ''a'' None False)])]"

lemma ex_create: "case create_pipeline ex_env [] ex_pipeline_js of Inl _ \<Rightarrow> False | Inr _ \<Rightarrow> True"
  by code_simp

theorem pipeline_roundtrip_witness:
  "\<exists>rows r. create_pipeline ex_env [] ex_pipeline_js = Inr (rows, r) \<and> find_pipeline ex_env rows (pw_id r) = Inr (Some r)"
proof -
  obtain rows r where run: "create_pipeline ex_env [] ex_pipeline_js = Inr (rows, r)"
    using ex_create by (cases "create_pipeline ex_env [] ex_pipeline_js") auto
  from pipeline_roundtrip [OF run] run show ?thesis by simp
qed

subsection \<open>Creating an execution\<close>

lemma materialize_Inr:
  assumes "materializeExecutionWithManager en db p inp deadline = Inr (db', x)"
  obtains b where "parsePipelineBudget (budget_column p) = Inr b"
    "x = (new_run en p (pipeline_hash en p b) inp deadline)\<lparr>xr_activeRevision := Some (rv_id (first_revision en (x_id x) b (pl_steps p)))\<rparr>"
    "db' = db\<lparr>d_runs := d_runs db @ [x], d_revisions := d_revisions db @ [first_revision en (x_id x) b (pl_steps p)],
       d_steps := d_steps db @ map (new_logical_step en (x_id x)) (pl_steps p)\<rparr>"
    "x_id x \<notin> x_id ` set (d_runs db)"
    "find_by rv_id (rv_id (first_revision en (x_id x) b (pl_steps p))) (d_revisions db) = None"
    "distinct (map ls_id (d_steps db)) \<longrightarrow> distinct (map ls_id (d_steps db'))"
proof -
  from assms obtain b where b: "parsePipelineBudget (budget_column p) = Inr b"
    and rest: "(let x = new_run en p (pipeline_hash en p b) inp deadline; r = first_revision en (x_id x) b (pl_steps p);
           x' = x\<lparr>xr_activeRevision := Some (rv_id r)\<rparr>
       in bindE (insert_run db x) (\<lambda>db1. bindE (insert_revision db1 r) (\<lambda>db2.
          bindE (foldE (insert_step en (x_id x)) (save_run x' db2) (pl_steps p)) (\<lambda>db3. Inr (db3, x'))))) = Inr (db', x)"
    by (auto simp: materializeExecutionWithManager_def bindE_Inr_iff)
  let ?x = "new_run en p (pipeline_hash en p b) inp deadline"
  let ?r = "first_revision en (x_id ?x) b (pl_steps p)"
  from rest obtain db1 db2 where db1: "insert_run db ?x = Inr db1" and db2: "insert_revision db1 ?r = Inr db2"
    and steps: "foldE (insert_step en (x_id ?x)) (save_run (?x\<lparr>xr_activeRevision := Some (rv_id ?r)\<rparr>) db2) (pl_steps p) = Inr db'"
    and x: "x = ?x\<lparr>xr_activeRevision := Some (rv_id ?r)\<rparr>"
    by (auto simp: Let_def bindE_Inr_iff)
  from db1 have i1: "db1 = db\<lparr>d_runs := d_runs db @ [?x]\<rparr>" "x_id ?x \<notin> x_id ` set (d_runs db)"
    by (auto simp: insert_run_def find_by_None split: if_splits)
  from db2 have i2: "db2 = db1\<lparr>d_revisions := d_revisions db1 @ [?r]\<rparr>" "find_by rv_id (rv_id ?r) (d_revisions db1) = None"
    by (auto simp: insert_revision_def split: if_splits)
  have id: "x_id x = x_id ?x" by (simp add: x)
  have "\<forall>y \<in> set (d_runs db). x_id y \<noteq> x_id x" using i1(2) unfolding id by (metis imageI)
  then have "save_by x_id x (d_runs db @ [?x]) = d_runs db @ [x]"
    by (simp add: save_by_def update_where_def id map_idI)
  then have saved: "save_run x db2 = db\<lparr>d_runs := d_runs db @ [x], d_revisions := d_revisions db @ [?r]\<rparr>"
    by (simp add: save_run_def i1(1) i2(1))
  note steps' = steps [folded x, unfolded saved]
  have db': "db' = db\<lparr>d_runs := d_runs db @ [x], d_revisions := d_revisions db @ [?r],
      d_steps := d_steps db @ map (new_logical_step en (x_id x)) (pl_steps p)\<rparr>"
    by (simp add: insert_steps_Inr [OF steps'] id)
  have "distinct (map ls_id (d_steps db)) \<longrightarrow> distinct (map ls_id (d_steps db'))"
    using insert_steps_distinct [OF steps'] by simp
  with b x db' i1 i2(2) show ?thesis by (intro that [of b]) (simp_all add: id)
qed

lemma sound_materialize:
  assumes "materializeExecutionWithManager en db p inp deadline = Inr (db', x)" and "pipeline_valid coll p"
  shows "sound_step coll db db'"
  unfolding sound_step_def
proof
  assume ok: "runtime_ok coll db"
  note invs = runtime_okD [OF ok]
  obtain b where x: "x = (new_run en p (pipeline_hash en p b) inp deadline)\<lparr>xr_activeRevision := Some (rv_id (first_revision en (x_id x) b (pl_steps p)))\<rparr>"
    and db': "db' = db\<lparr>d_runs := d_runs db @ [x], d_revisions := d_revisions db @ [first_revision en (x_id x) b (pl_steps p)],
       d_steps := d_steps db @ map (new_logical_step en (x_id x)) (pl_steps p)\<rparr>"
    and new: "x_id x \<notin> x_id ` set (d_runs db)" "find_by rv_id (rv_id (first_revision en (x_id x) b (pl_steps p))) (d_revisions db) = None"
    and ids: "distinct (map ls_id (d_steps db)) \<longrightarrow> distinct (map ls_id (d_steps db'))"
    by (rule materialize_Inr [OF assms(1)])
  let ?r = "first_revision en (x_id x) b (pl_steps p)"
  have active: "xr_activeRevision x = Some (rv_id ?r)" "x_state x = Some []" by (subst x, simp add: new_run_def)+
  have "materialized db' (x_id x) (pl_steps p)"
    unfolding materialized_def
  proof
    fix s assume "s \<in> set (pl_steps p)"
    then have "new_logical_step en (x_id x) s \<in> set (d_steps db')" by (simp add: db')
    then show "\<exists>l \<in> set (d_steps db'). ls_executionId l = x_id x \<and> ls_stepId l = st_id s"
      by (rule rev_bexI) (simp add: new_logical_step_def)
  qed
  with active new(2) have "run_ok db' x"
    by (simp add: run_ok_def db' find_by_append) (simp add: find_by_def first_revision_def)
  moreover have "run_ok db' y" if "y \<in> set (d_runs db)" for y
  proof -
    from that invs(2) have "run_ok db y" by (simp add: plans_ok_iff)
    then show ?thesis by (rule run_ok_mono [of _ _ _ "[?r]"]) (simp_all add: db')
  qed
  moreover have "plan_ok coll ?r" using assms(2) by (simp add: plan_ok_def pipeline_valid_def first_revision_def)
  ultimately have "plans_ok coll db'" using invs(2) unfolding plans_ok_iff by (auto simp: db')
  moreover have "keys_ok db'" using invs(1) new(1) ids by (simp add: keys_ok_def db')
  moreover have "states_ok db'" using invs(4) active(2) state_ok_empty by (simp add: states_ok_def db' run_state_def)
  ultimately show "runtime_ok coll db' \<and> facts_kept db db'"
    using invs by (simp add: runtime_ok_def db' evidence_ok_def facts_kept_def)
qed

subsection \<open>Reconciling\<close>

lemma sound_promote: "promote_execution db i = (db', b) \<Longrightarrow> sound_step coll db db'"
  by (auto simp: promote_execution_def stuck_def is_live_def TERMINAL_EXECUTION_STATUSES_def run_view_def
    split: option.splits if_splits intro!: sound_runs)

lemma sound_insert_step:
  assumes "ls_id l \<notin> ls_id ` set (d_steps db)"
  shows "sound_step coll db (db\<lparr>d_steps := d_steps db @ [l]\<rparr>)"
  unfolding sound_step_def
proof
  assume ok: "runtime_ok coll db"
  note invs = runtime_okD [OF ok]
  let ?db = "db\<lparr>d_steps := d_steps db @ [l]\<rparr>"
  have "plans_ok coll ?db" by (rule plans_ok_frame [OF invs(2)]) auto
  moreover have "keys_ok ?db" using invs(1) assms by (simp add: keys_ok_def)
  ultimately show "runtime_ok coll ?db \<and> facts_kept db ?db"
    using invs by (simp add: runtime_ok_def states_ok_def evidence_ok_def facts_kept_def)
qed

lemma sound_backfill: "sound_step coll (fst acc) (fst (backfill_step en i acc s))"
proof (cases "insert_step en i (fst acc) s")
  case (Inr db')
  then have "db' = (fst acc)\<lparr>d_steps := d_steps (fst acc) @ [new_logical_step en i s]\<rparr>"
    "ls_id (new_logical_step en i s) \<notin> ls_id ` set (d_steps (fst acc))"
    by (auto simp: insert_step_def find_by_None split: if_splits)
  with Inr sound_insert_step show ?thesis by (simp add: backfill_step_def)
qed (simp add: backfill_step_def)

lemma sound_advance: "sound_step coll (fst acc) (fst (advance_step en plan steps acc l))"
proof -
  have "sound_step coll (fst acc) (save_step (k\<lparr>ls_status := SReady, ls_eligibleAt := t\<rparr>) (fst acc))"
    if "find P (d_steps (fst acc)) = Some k" for P k t
    by (rule sound_save_view) (use find_SomeD [OF that] in \<open>auto simp: step_view_def\<close>)
  then show ?thesis by (auto simp: advance_step_def split: option.splits)
qed

lemma sound_fold_fst:
  assumes "\<And>acc q. sound_step coll (fst acc) (fst (f acc q))"
  shows "sound_step coll (fst acc) (fst (foldl f acc qs))"
proof (induction qs arbitrary: acc)
  case (Cons q qs)
  note assms [of acc q]
  also note Cons.IH [of "f acc q"]
  finally show ?case by simp
qed simp

lemma sound_advance_steps: "sound_step coll db (fst (advance_steps en db i))"
proof -
  have backfill: "foldl (backfill_step en i) (db, 0) plan = (db1, n) \<Longrightarrow> sound_step coll db db1" for plan db1 n
    using sound_fold_fst [of coll "backfill_step en i" "(db, 0)" plan] sound_backfill by simp
  have advance: "foldl (advance_step en plan steps) (db1, 0) ls = (db2, k) \<Longrightarrow> sound_step coll db1 db2" for plan steps db1 ls db2 k
    using sound_fold_fst [of coll "advance_step en plan steps" "(db1, 0)" ls] sound_advance by simp
  show ?thesis
    unfolding advance_steps_def
    by (auto split: option.splits prod.splits dest!: backfill advance intro: sound_trans)
qed

lemma sound_reconcile: "sound_step coll db (fst (reconcileExecution en db i))"
  using sound_promote [of db i] sound_advance_steps
  by (auto simp: reconcileExecution_def split: prod.splits intro: sound_trans) (metis fst_conv sound_trans)

subsection \<open>Cancelling and status updates\<close>

lemma sound_updateExecutionStatus:
  "st \<in> set TERMINAL_EXECUTION_STATUSES \<Longrightarrow> sound_step coll db (updateExecutionStatus en db i st out)"
  unfolding updateExecutionStatus_def
  by (rule sound_runs) (simp_all add: updatable_def updated_run_def run_view_def)

lemma ledger_ok_release_attempts:
  "release_attempts db as = Inr db' \<Longrightarrow> ledger_ok db \<Longrightarrow> ledger_ok db'"
  unfolding release_attempts_def
  by (induction as arbitrary: db) (auto simp: bindE_Inr_iff dest: ledger_ok_releaseForAction)

lemma sound_cancel_rows: "sound_step coll db (cancel_rows en i reason db)"
proof -
  let ?as = "update_where (cancellable i) (cancelled_attempt en reason) (d_attempts db)"
  let ?ss = "update_where (cancellable_step i) (cancelled_step en reason) (d_steps db)"
  let ?ids = "at_id ` set (filter (cancellable i) (d_attempts db))"
  have "sound_step coll db (db\<lparr>d_attempts := ?as\<rparr>)"
    by (rule sound_attempts)
      (auto simp: cancellable_def LIVE_ATTEMPTS_def attempt_final_def TERMINAL_ATTEMPTS_def cancelled_attempt_def)
  also have "sound_step coll (db\<lparr>d_attempts := ?as\<rparr>) (db\<lparr>d_attempts := ?as, d_steps := ?ss\<rparr>)"
    using sound_steps [of "cancelled_step en reason" coll "db\<lparr>d_attempts := ?as\<rparr>" "cancellable_step i"]
    by (simp add: cancelled_step_def step_view_def)
  also have "sound_step coll (db\<lparr>d_attempts := ?as, d_steps := ?ss\<rparr>) (cancel_rows en i reason db)"
    using sound_outbox [of retired coll "db\<lparr>d_attempts := ?as, d_steps := ?ss\<rparr>" "retirable ?ids"]
    by (simp add: cancel_rows_def retired_def)
  finally show ?thesis .
qed

lemma cancel_Inr:
  assumes "cancelExecutionWithManager en db i reason = Inr (db', x')"
  obtains (over) "db' = db" "x' \<in> set (d_runs db)" "x_id x' = i" "\<not> is_live x'"
    | (cancels) x ledger where "x \<in> set (d_runs db)" "x_id x = i" "is_live x"
      "release_attempts (d_ledger db) (cancelled_in_order db i) = Inr ledger"
      "db' = save_run (cancelled_run en reason x) (cancel_rows en i reason (db\<lparr>d_ledger := ledger\<rparr>))"
      "x' = cancelled_run en reason x"
proof (cases "find_by x_id i (d_runs db)")
  case None
  with assms show ?thesis by (simp add: cancelExecutionWithManager_def)
next
  case (Some x)
  note x = find_by_Some [OF Some]
  show ?thesis
  proof (cases "is_live x")
    case True
    with assms Some obtain ledger where "release_attempts (d_ledger db) (cancelled_in_order db i) = Inr ledger"
      "db' = save_run (cancelled_run en reason x) (cancel_rows en i reason (db\<lparr>d_ledger := ledger\<rparr>))"
      "x' = cancelled_run en reason x"
      by (auto simp: cancelExecutionWithManager_def bindE_Inr_iff Let_def)
    with x True show ?thesis by (intro cancels) simp_all
  next
    case False
    with assms Some have "db' = db" "x' = x" by (simp_all add: cancelExecutionWithManager_def)
    with x False show ?thesis by (intro over) simp_all
  qed
qed

lemma sound_cancel:
  assumes "cancelExecutionWithManager en db i reason = Inr (db', x')"
  shows "sound_step coll db db'"
  using assms
proof (cases rule: cancel_Inr)
  case (cancels x ledger)
  have "sound_step coll db (db\<lparr>d_ledger := ledger\<rparr>)"
    by (rule sound_ledger) (rule ledger_ok_release_attempts [OF cancels(4)])
  also note sound_cancel_rows [of coll _ en i reason]
  also have "sound_step coll (cancel_rows en i reason (db\<lparr>d_ledger := ledger\<rparr>)) db'"
    unfolding cancels(5) save_run_def
    by (rule sound_save_run [of x]) (use cancels in \<open>simp_all add: cancel_rows_def cancelled_run_def run_view_def\<close>)
  finally show ?thesis .
qed simp

subsection \<open>What a cancellation releases\<close>

definition mark :: "string set \<Rightarrow> reservation list \<Rightarrow> reservation list" where
  "mark ids rs = map (\<lambda>r. if r_id r \<in> ids then r\<lparr>r_status := RELEASED\<rparr> else r) rs"

definition ids_of :: "string set \<Rightarrow> reservation list \<Rightarrow> string set" where
  "ids_of acts rs = r_id ` {r \<in> set rs. \<exists>i \<in> acts. r_action r = Some i}"

lemma mark_mark: "mark jds (mark ids rs) = mark (ids \<union> jds) rs"
  by (auto simp: mark_def)

lemma mark_none [simp]: "mark {} rs = rs"
  by (simp add: mark_def)

lemma ids_of_Cons: "ids_of acts (r # rs) = (if \<exists>i \<in> acts. r_action r = Some i then {r_id r} else {}) \<union> ids_of acts rs"
  by (auto simp: ids_of_def)

lemma ids_of_mark [simp]: "ids_of acts (mark ids rs) = ids_of acts rs"
  by (induction rs) (auto simp: mark_def ids_of_Cons)

lemma ids_of_Un: "ids_of (A \<union> B) rs = ids_of A rs \<union> ids_of B rs"
  by (auto simp: ids_of_def)

lemma in_mark: "r \<in> set (mark ids rs) \<Longrightarrow> r_id r \<in> ids \<Longrightarrow> r_status r = RELEASED"
  by (auto simp: mark_def split: if_splits)

lemma release_reservations:
  assumes "release db inp = Inr (db', r')"
  shows "reservations db' = mark {si_reservation inp} (reservations db)"
proof -
  from assms obtain r db1 where p: "prepare_release inp db r = Inr db1" and db': "db' = set_status db1 (si_reservation inp) RELEASED"
    unfolding release_def by (rule settleReservation_Inr)
  from p have "reservations db1 = reservations db"
    by (auto simp: prepare_release_def result_simps split: if_splits dest!: writeChainEntries_Inr)
  then show ?thesis by (simp add: db' reservations_set_status mark_def)
qed

lemma releases_reservations:
  assumes "foldE (\<lambda>db r. bindE (release db (release_input r (r_amount r) reason)) (\<lambda>res. Inr (fst res))) db rs = Inr db'"
  shows "reservations db' = mark (r_id ` set rs) (reservations db)"
  using assms
proof (induction rs arbitrary: db)
  case (Cons r rs)
  then obtain db1 r' where db1: "release db (release_input r (r_amount r) reason) = Inr (db1, r')"
    and rest: "foldE (\<lambda>db r. bindE (release db (release_input r (r_amount r) reason)) (\<lambda>res. Inr (fst res))) db1 rs = Inr db'"
    by (auto simp: bindE_Inr_iff)
  from Cons.IH [OF rest] release_reservations [OF db1] show ?case
    by (simp add: mark_mark release_input_def)
qed simp

lemma releaseForAction_reservations:
  assumes "releaseForAction db i reason = Inr db'"
  shows "reservations db' = mark (ids_of {i} (reservations db)) (reservations db)"
proof -
  have "r_id ` set (filter (\<lambda>r. r_action r = Some i) (reservations db)) = ids_of {i} (reservations db)"
    by (auto simp: ids_of_def)
  with releases_reservations [OF assms [unfolded releaseForAction_def]] show ?thesis by simp
qed

lemma release_attempts_reservations:
  assumes "release_attempts db as = Inr db'"
  shows "reservations db' = mark (ids_of (at_invocationId ` set as) (reservations db)) (reservations db)"
  using assms unfolding release_attempts_def
proof (induction as arbitrary: db)
  case Nil
  then show ?case by (simp add: ids_of_def)
next
  case (Cons a as)
  then obtain db1 where db1: "releaseForAction db (at_invocationId a) ''execution cancelled'' = Inr db1"
    and rest: "foldE (\<lambda>db a. releaseForAction db (at_invocationId a) ''execution cancelled'') db1 as = Inr db'"
    by (auto simp: bindE_Inr_iff)
  from Cons.IH [OF rest] releaseForAction_reservations [OF db1] ids_of_Un [of "{at_invocationId a}" "at_invocationId ` set as"]
  show ?case by (simp add: mark_mark)
qed

lemma in_update_where: "r \<in> set (update_where P f rows) \<Longrightarrow> \<exists>q \<in> set rows. r = (if P q then f q else q)"
  by (auto simp: update_where_def)

lemma cancelled_tables:
  "d_attempts (save_run x (cancel_rows en i reason db)) = update_where (cancellable i) (cancelled_attempt en reason) (d_attempts db)"
  "d_steps (save_run x (cancel_rows en i reason db)) = update_where (cancellable_step i) (cancelled_step en reason) (d_steps db)"
  "d_outbox (save_run x (cancel_rows en i reason db)) =
     update_where (retirable (at_id ` set (filter (cancellable i) (d_attempts db)))) retired (d_outbox db)"
  "d_ledger (save_run x (cancel_rows en i reason db)) = d_ledger db"
  by (simp_all add: save_run_def cancel_rows_def)

text \<open>C4: cancelling a live execution leaves nothing of it that could run: the execution is CANCELLED, none of its attempts
  is live, all its steps are terminal, no outbox row of a cancelled attempt can be dispatched, and every reservation
  made for one of them is released, all in one transaction; and whatever had been final before is as it was.\<close>

theorem cancel_leaves_nothing_running:
  assumes "runtime_ok coll db" and "cancelExecutionWithManager en db i reason = Inr (db', x')"
    and "find_by x_id i (d_runs db) = Some x" and "is_live x"
  shows "find_by x_id i (d_runs db') = Some x' \<and> x_status x' = Cancelled \<and>
     (\<forall>a \<in> set (d_attempts db'). at_executionId a = i \<longrightarrow> at_status a \<in> set TERMINAL_ATTEMPTS) \<and>
     (\<forall>l \<in> set (d_steps db'). ls_executionId l = i \<longrightarrow> ls_status l \<in> set TERMINAL_STEPS) \<and>
     (\<forall>a \<in> set (d_attempts db). cancellable i a \<longrightarrow>
        (\<forall>b \<in> set (d_outbox db'). ob_attempt b = at_id a \<longrightarrow> ob_status b \<in> {OCompleted, OFailed}) \<and>
        (\<forall>r \<in> set (reservations (d_ledger db')). r_action r = Some (at_invocationId a) \<longrightarrow> r_status r = RELEASED)) \<and>
     runtime_ok coll db' \<and> facts_kept db db'"
  using assms(2)
proof (cases rule: cancel_Inr)
  case over
  with find_by_unique [of x_id "d_runs db" x'] runtime_okD(1) [OF assms(1)] assms(3,4) show ?thesis
    by (simp add: keys_ok_def)
next
  case (cancels y ledger)
  have y: "y = x" using find_by_unique [of x_id "d_runs db" y] runtime_okD(1) [OF assms(1)] cancels(1,2) assms(3)
    by (simp add: keys_ok_def)
  have "find_by x_id i (d_runs db') = Some x'" and "x_status x' = Cancelled"
    using assms(3) cancels(2,5,6) by (simp_all add: save_run_def cancel_rows_def find_by_save cancelled_run_def)
  moreover have "at_status a \<in> set TERMINAL_ATTEMPTS" if "a \<in> set (d_attempts db')" "at_executionId a = i" for a
  proof -
    from that(1) obtain b where b: "a = (if cancellable i b then cancelled_attempt en reason b else b)"
      using in_update_where by (fastforce simp: cancels(5) cancelled_tables)
    show ?thesis
    proof (cases "cancellable i b")
      case False
      with b have "a = b" by simp
      with False that(2) have "at_status a \<notin> set LIVE_ATTEMPTS" by (simp add: cancellable_def)
      then show ?thesis by (cases "at_status a") (simp_all add: LIVE_ATTEMPTS_def TERMINAL_ATTEMPTS_def)
    qed (simp add: b cancelled_attempt_def TERMINAL_ATTEMPTS_def)
  qed
  moreover have "ls_status l \<in> set TERMINAL_STEPS" if "l \<in> set (d_steps db')" "ls_executionId l = i" for l
  proof -
    from that(1) obtain k where k: "l = (if cancellable_step i k then cancelled_step en reason k else k)"
      using in_update_where by (fastforce simp: cancels(5) cancelled_tables)
    show ?thesis
    proof (cases "cancellable_step i k")
      case False
      with k have "l = k" by simp
      with False that(2) have "ls_status l \<notin> set CANCELLABLE_STEPS" by (simp add: cancellable_step_def)
      then show ?thesis by (cases "ls_status l") (simp_all add: CANCELLABLE_STEPS_def TERMINAL_STEPS_def)
    qed (simp add: k cancelled_step_def TERMINAL_STEPS_def)
  qed
  moreover have "ob_status b \<in> {OCompleted, OFailed}"
    if "a \<in> set (d_attempts db)" "cancellable i a" "b \<in> set (d_outbox db')" "ob_attempt b = at_id a" for a b
  proof -
    from that(3) obtain c where c: "b = (if retirable (at_id ` set (filter (cancellable i) (d_attempts db))) c then retired c else c)"
      using in_update_where by (fastforce simp: cancels(5) cancelled_tables)
    have "ob_attempt c = ob_attempt b" by (simp add: c retired_def)
    with that(4) have "ob_attempt c = at_id a" by simp
    with that(1,2) have "ob_attempt c \<in> at_id ` set (filter (cancellable i) (d_attempts db))" by auto
    with c show ?thesis by (cases "ob_status c") (simp_all add: retirable_def retired_def)
  qed
  moreover have "r_status r = RELEASED"
    if "a \<in> set (d_attempts db)" "cancellable i a" "r \<in> set (reservations (d_ledger db'))" "r_action r = Some (at_invocationId a)" for a r
  proof -
    let ?acts = "at_invocationId ` set (cancelled_in_order db i)"
    have res: "reservations (d_ledger db') = mark (ids_of ?acts (reservations (d_ledger db))) (reservations (d_ledger db))"
      using release_attempts_reservations [OF cancels(4)] by (simp add: cancels(5) cancelled_tables)
    have "a \<in> set (cancelled_in_order db i)" using that(1,2) by (simp add: cancelled_in_order_def)
    with that(3,4) have "r_id r \<in> ids_of ?acts (reservations (d_ledger db'))" by (auto simp: ids_of_def)
    with in_mark [OF that(3) [unfolded res]] show ?thesis by (simp add: res)
  qed
  moreover have "runtime_ok coll db'" "facts_kept db db'"
    using sound_cancel [OF assms(2), of coll] assms(1) by (simp_all add: sound_step_def)
  ultimately show ?thesis by blast
qed

theorem cancel_leaves_nothing_running_witness:
  "\<exists>db' x'. cancelExecutionWithManager ex_env ex_task_db ''e'' ''stop'' = Inr (db', x') \<and>
     (\<forall>a \<in> set (d_attempts db'). at_executionId a = ''e'' \<longrightarrow> at_status a \<in> set TERMINAL_ATTEMPTS)"
proof -
  have x: "find_by x_id ''e'' (d_runs ex_task_db) = Some ex_run" "is_live ex_run"
    by (simp_all add: ex_task_db_def ex_plan_db_def ex_run_def find_by_def is_live_def TERMINAL_EXECUTION_STATUSES_def)
  have free: "releaseForAction (d_ledger ex_task_db) r reason = Inr (d_ledger ex_task_db)" for r reason
    by (simp add: releaseForAction_def ex_task_db_def ex_plan_db_def)
  have "release_attempts (d_ledger ex_task_db) as = Inr (d_ledger ex_task_db)" for as
    unfolding release_attempts_def by (induction as) (simp_all add: free)
  with x obtain db' x' where run: "cancelExecutionWithManager ex_env ex_task_db ''e'' ''stop'' = Inr (db', x')"
    by (simp add: cancelExecutionWithManager_def Let_def)
  from cancel_leaves_nothing_running [OF ex_task_sound run x] run show ?thesis by blast
qed

subsection \<open>What reconciling does\<close>

text \<open>The step as the loop finds it: pending, every dependency resolved, nothing under way.\<close>

definition advanceable :: "runtime_db \<Rightarrow> string \<Rightarrow> step list \<Rightarrow> logical_step \<Rightarrow> bool" where
  "advanceable db i plan l \<longleftrightarrow> ls_executionId l = i \<and> ls_status l = SPending \<and> \<not> live_attempt db (ls_id l) \<and>
     (case find_by st_id (ls_stepId l) plan of None \<Rightarrow> False | Some config \<Rightarrow> dependenciesResolved config (steps_of db i) plan)"

definition readied :: "env \<Rightarrow> logical_step \<Rightarrow> logical_step" where
  "readied en l = l\<lparr>ls_status := SReady, ls_eligibleAt := Some (en_now en)\<rparr>"

lemma update_where_again:
  assumes "\<And>r. Q r \<Longrightarrow> \<not> P (f r)"
  shows "update_where P f (update_where Q f rows) = update_where (\<lambda>r. Q r \<or> P r) f rows"
  using assms by (auto simp: update_where_def)

lemma update_where_cong: "(\<And>r. r \<in> set rows \<Longrightarrow> P r = Q r) \<Longrightarrow> update_where P f rows = update_where Q f rows"
  by (simp add: update_where_def)

lemma update_where_none: "(\<And>r. r \<in> set rows \<Longrightarrow> \<not> P r) \<Longrightarrow> update_where P f rows = rows"
  by (simp add: update_where_def map_idI)

lemma save_by_update:
  assumes "distinct (map k rows)" and "x \<in> set rows" and "k (f x) = k x"
  shows "save_by k (f x) rows = update_where (\<lambda>r. k r = k x) f rows"
proof -
  have "r = x" if "r \<in> set rows" "k r = k x" for r using distinct_map_eq [OF assms(1) that(1) assms(2)] that(2) .
  with assms(3) show ?thesis by (auto simp: save_by_def update_where_def)
qed

definition step_advanceable :: "runtime_db \<Rightarrow> step list \<Rightarrow> logical_step list \<Rightarrow> logical_step \<Rightarrow> bool" where
  "step_advanceable db plan steps l \<longleftrightarrow> ls_status l = SPending \<and> \<not> live_attempt db (ls_id l) \<and>
     (case find_by st_id (ls_stepId l) plan of None \<Rightarrow> False | Some config \<Rightarrow> dependenciesResolved config steps plan)"

lemma advance_step_effect:
  assumes ids: "distinct (map ls_id (d_steps (fst acc)))" and l: "step_view l \<in> step_view ` set (d_steps (fst acc))"
  shows "fst (advance_step en plan steps acc l) = (fst acc)\<lparr>d_steps :=
     update_where (\<lambda>k. ls_id k = ls_id l \<and> step_advanceable (fst acc) plan steps k) (readied en) (d_steps (fst acc))\<rparr>"
proof -
  obtain db n where acc: "acc = (db, n)" by (cases acc)
  from l obtain k where k: "k \<in> set (d_steps db)" "ls_id k = ls_id l" "ls_stepId k = ls_stepId l"
    by (auto simp: acc step_view_def)
  have only: "r = k" if "r \<in> set (d_steps db)" "ls_id r = ls_id l" for r
    using distinct_map_eq [OF ids [unfolded acc fst_conv] that(1) k(1)] that(2) k(2) by simp
  have found: "find (\<lambda>k. ls_id k = ls_id l \<and> ls_status k = SPending) (d_steps db) = (if ls_status k = SPending then Some k else None)"
  proof (cases "find (\<lambda>k. ls_id k = ls_id l \<and> ls_status k = SPending) (d_steps db)")
    case None
    then show ?thesis using k by (auto simp: find_None_iff)
  next
    case (Some r)
    from find_SomeD [OF Some] only show ?thesis using Some by auto
  qed
  have saved: "save_by ls_id (readied en k) (d_steps db) = update_where (\<lambda>r. ls_id r = ls_id l) (readied en) (d_steps db)"
    using save_by_update [of ls_id "d_steps db" k "readied en"] ids k by (simp add: acc readied_def)
  have same: "update_where (\<lambda>r. ls_id r = ls_id l \<and> step_advanceable db plan steps r) (readied en) (d_steps db) =
      update_where (\<lambda>r. ls_id r = ls_id l \<and> step_advanceable db plan steps k) (readied en) (d_steps db)"
    by (rule update_where_cong) (use only in blast)
  have eq: "fst (advance_step en plan steps (db, n) l) =
     (if step_advanceable db plan steps k then save_step (readied en k) db else db)"
    using k by (simp add: advance_step_def found step_advanceable_def readied_def split: option.split)
  show ?thesis
    by (cases "step_advanceable db plan steps k")
      (simp_all add: acc eq same saved save_step_def update_where_none)
qed

lemma advance_fold:
  assumes "distinct (map ls_id (d_steps (fst acc)))" and "step_view ` set ls \<subseteq> step_view ` set (d_steps (fst acc))"
  shows "fst (foldl (advance_step en plan steps) acc ls) = (fst acc)\<lparr>d_steps :=
     update_where (\<lambda>k. ls_id k \<in> ls_id ` set ls \<and> step_advanceable (fst acc) plan steps k) (readied en) (d_steps (fst acc))\<rparr>"
  using assms
proof (induction ls arbitrary: acc)
  case Nil
  then show ?case by (simp add: update_where_none)
next
  case (Cons l ls)
  let ?acc = "advance_step en plan steps acc l"
  have one: "fst ?acc = (fst acc)\<lparr>d_steps :=
     update_where (\<lambda>k. ls_id k = ls_id l \<and> step_advanceable (fst acc) plan steps k) (readied en) (d_steps (fst acc))\<rparr>"
    by (rule advance_step_effect) (use Cons.prems in simp_all)
  have ready: "step_view (readied en k) = step_view k" "ls_id (readied en k) = ls_id k" "ls_status (readied en k) = SReady" for k
    by (simp_all add: readied_def step_view_def)
  have views: "step_view ` set (d_steps (fst ?acc)) = step_view ` set (d_steps (fst acc))"
    by (simp add: one view_update ready)
  have "distinct (map ls_id (d_steps (fst ?acc)))" using Cons.prems(1) by (simp add: one map_update_where ready)
  moreover have "step_view ` set ls \<subseteq> step_view ` set (d_steps (fst ?acc))" using Cons.prems(2) unfolding views by simp
  ultimately have rest: "fst (foldl (advance_step en plan steps) ?acc ls) = (fst ?acc)\<lparr>d_steps :=
     update_where (\<lambda>k. ls_id k \<in> ls_id ` set ls \<and> step_advanceable (fst ?acc) plan steps k) (readied en) (d_steps (fst ?acc))\<rparr>"
    by (rule Cons.IH)
  have adv: "step_advanceable (fst ?acc) plan steps k = step_advanceable (fst acc) plan steps k" for k
    by (simp add: step_advanceable_def live_attempt_def one)
  have not: "\<not> step_advanceable db plan steps (readied en k)" for db k by (simp add: step_advanceable_def ready)
  show ?case
    by (simp add: rest adv, simp add: one update_where_again not)
      (rule arg_cong [where f = "\<lambda>r. (fst acc)\<lparr>d_steps := r\<rparr>"], rule update_where_cong, auto)
qed

lemma advance_skip:
  assumes "distinct (map ls_id (d_steps db))" and "l \<in> set (d_steps db)" and "\<not> step_advanceable db plan steps l"
  shows "advance_step en plan steps (db, n) l = (db, n)"
proof -
  have only: "k = l" if "k \<in> set (d_steps db)" "ls_id k = ls_id l" for k
    using distinct_map_eq [OF assms(1) that(1) assms(2) that(2)] .
  from assms(3) show ?thesis
    by (auto simp: advance_step_def step_advanceable_def split: option.splits dest!: find_SomeD dest: only)
qed

lemma advance_skips:
  assumes "distinct (map ls_id (d_steps db))" and "\<forall>l \<in> set ls. l \<in> set (d_steps db) \<and> \<not> step_advanceable db plan steps l"
  shows "foldl (advance_step en plan steps) (db, n) ls = (db, n)"
  using assms by (induction ls) (simp_all add: advance_skip)

lemma backfill_materialized:
  assumes "materialized db i plan"
  shows "foldl (backfill_step en i) (db, n) plan = (db, n)"
  using assms by (induction plan) (auto simp: materialized_def backfill_step_def)

lemma readied_simps [simp]:
  "ls_id (readied en l) = ls_id l" "ls_executionId (readied en l) = ls_executionId l" "ls_stepId (readied en l) = ls_stepId l"
  "ls_status (readied en l) = SReady"
  by (simp_all add: readied_def)

lemma dependency_resolved_ready:
  assumes "\<And>l. P l \<Longrightarrow> ls_status l = SPending"
  shows "dependency_resolved (update_where P (readied en) steps) plan d = dependency_resolved steps plan d"
proof (induction steps)
  case (Cons l ls)
  then show ?case
    using assms [of l] by (auto simp: dependency_resolved_def find_by_def update_where_def)
qed (simp add: update_where_def)

lemma dependenciesResolved_ready:
  "(\<And>l. P l \<Longrightarrow> ls_status l = SPending) \<Longrightarrow>
   dependenciesResolved c (update_where P (readied en) steps) plan = dependenciesResolved c steps plan"
  by (simp add: dependenciesResolved_def dependency_resolved_ready cong: list.pred_cong)

lemma steps_of_ready: "steps_of (db\<lparr>d_steps := update_where P (readied en) rows\<rparr>) i =
    update_where P (readied en) (steps_of (db\<lparr>d_steps := rows\<rparr>) i)"
  by (auto simp: steps_of_def update_where_def filter_map o_def intro!: map_cong filter_cong)

lemma pending_set: "set (pending_steps db i) = {l \<in> set (d_steps db). ls_executionId l = i \<and> ls_status l = SPending}"
  by (auto simp: pending_steps_def steps_of_def)

lemma advance_candidates:
  assumes ids: "distinct (map ls_id (d_steps db))"
  shows "fst (foldl (advance_step en plan (steps_of db i)) (db, n) (pending_steps db i)) =
     db\<lparr>d_steps := update_where (advanceable db i plan) (readied en) (d_steps db)\<rparr>"
proof -
  have same: "ls_id k \<in> ls_id ` set (pending_steps db i) \<and> step_advanceable db plan (steps_of db i) k \<longleftrightarrow> advanceable db i plan k"
    if k: "k \<in> set (d_steps db)" for k
  proof -
    have "ls_id k \<in> ls_id ` set (pending_steps db i) \<longleftrightarrow> k \<in> set (pending_steps db i)"
      using distinct_map_eq [OF ids k] by (auto simp: pending_set)
    with k show ?thesis by (auto simp: pending_set step_advanceable_def advanceable_def)
  qed
  have "step_view ` set (pending_steps db i) \<subseteq> step_view ` set (d_steps db)" by (auto simp: pending_set)
  moreover have "update_where (\<lambda>k. ls_id k \<in> ls_id ` set (pending_steps db i) \<and> step_advanceable db plan (steps_of db i) k)
      (readied en) (d_steps db) = update_where (advanceable db i plan) (readied en) (d_steps db)"
    by (rule update_where_cong) (rule same)
  ultimately show ?thesis using advance_fold [of "(db, n)" "pending_steps db i" en plan "steps_of db i"] ids by simp
qed

lemma sound_ids: "runtime_ok coll db \<Longrightarrow> distinct (map ls_id (d_steps db))"
  by (simp add: runtime_ok_def keys_ok_def)

text \<open>What the invariant says of a live execution with a plan.\<close>

lemma planned_run:
  assumes "runtime_ok coll db" and "find_by x_id i (d_runs db) = Some x" and "xr_activeRevision x = Some ri"
  obtains r where "find_by rv_id ri (d_revisions db) = Some r" and "materialized db i (rv_steps r)"
proof -
  from find_by_Some [OF assms(2)] have x: "x \<in> set (d_runs db)" "x_id x = i" by simp_all
  with runtime_okD(2) [OF assms(1)] have "run_ok db x" by (simp add: plans_ok_iff)
  with assms(3) x(2) that show ?thesis by (auto simp: run_ok_def split: option.splits)
qed

lemma advance_steps_running:
  assumes "distinct (map ls_id (d_steps db))" and "find_by x_id i (d_runs db) = Some x" "x_status x = Running"
    and "xr_activeRevision x = Some ri" "find_by rv_id ri (d_revisions db) = Some r" "materialized db i (rv_steps r)"
  shows "fst (advance_steps en db i) = db\<lparr>d_steps := update_where (advanceable db i (rv_steps r)) (readied en) (d_steps db)\<rparr>"
    and "fst (snd (advance_steps en db i)) = 0"
    and "(\<And>l. l \<in> set (d_steps db) \<Longrightarrow> \<not> advanceable db i (rv_steps r) l) \<Longrightarrow> advance_steps en db i = (db, 0, 0)"
proof -
  let ?fold = "foldl (advance_step en (rv_steps r) (steps_of db i)) (db, 0) (pending_steps db i)"
  have eq: "advance_steps en db i = (fst ?fold, 0, snd ?fold)"
    using assms(2-5) backfill_materialized [OF assms(6), of en 0]
    by (simp add: advance_steps_def is_live_def TERMINAL_EXECUTION_STATUSES_def split: prod.splits)
  show "fst (advance_steps en db i) = db\<lparr>d_steps := update_where (advanceable db i (rv_steps r)) (readied en) (d_steps db)\<rparr>"
    by (simp add: eq advance_candidates [OF assms(1)])
  show "fst (snd (advance_steps en db i)) = 0" by (simp add: eq)
  assume none: "\<And>l. l \<in> set (d_steps db) \<Longrightarrow> \<not> advanceable db i (rv_steps r) l"
  have "?fold = (db, 0)"
    by (rule advance_skips [OF assms(1)]) (use none in \<open>auto simp: pending_set step_advanceable_def advanceable_def\<close>)
  then show "advance_steps en db i = (db, 0, 0)" by (simp add: eq)
qed

definition promoted_db :: "runtime_db \<Rightarrow> string \<Rightarrow> runtime_db" where
  "promoted_db db i = db\<lparr>d_runs := update_where (stuck i) (\<lambda>x. x\<lparr>x_status := Running\<rparr>) (d_runs db)\<rparr>"

lemma promote_planned:
  assumes "find_by x_id i (d_runs db) = Some x" and "xr_activeRevision x \<noteq> None" and "distinct (map x_id (d_runs db))"
  shows "fst (promote_execution db i) = promoted_db db i"
proof (cases "x_status x = Pending")
  case False
  have "\<not> stuck i y" if "y \<in> set (d_runs db)" for y
    using find_by_unique [OF assms(3) that] False assms(1) by (auto simp: stuck_def)
  then have "promoted_db db i = db" by (simp add: promoted_db_def update_where_none)
  with assms(1) False show ?thesis by (simp add: promote_execution_def)
qed (use assms in \<open>auto simp: promote_execution_def promoted_db_def\<close>)

lemma promoted_find:
  assumes "find_by x_id i (d_runs db) = Some x"
  shows "find_by x_id i (d_runs (promoted_db db i)) = Some (if x_status x = Pending then x\<lparr>x_status := Running\<rparr> else x)"
proof -
  have "find_by x_id i (update_where (stuck i) f rows) = Some (if x_status x = Pending then f x else x)"
    if "find_by x_id i rows = Some x" "\<And>y. x_id (f y) = x_id y" for rows f
    using that by (induction rows) (auto simp: find_by_def update_where_def stuck_def split: if_splits)
  then show ?thesis using assms by (simp add: promoted_db_def)
qed

lemma reconcile_frontier':
  assumes "runtime_ok coll db" and "find_by x_id i (d_runs db) = Some x" and "x_status x \<in> {Pending, Running}"
    and "xr_activeRevision x = Some ri" and "find_by rv_id ri (d_revisions db) = Some r"
  shows "\<exists>b k. reconcileExecution en db i =
     (db\<lparr>d_runs := update_where (stuck i) (\<lambda>x. x\<lparr>x_status := Running\<rparr>) (d_runs db),
         d_steps := update_where (advanceable db i (rv_steps r)) (readied en) (d_steps db)\<rparr>, b, 0, k)"
proof -
  let ?db = "promoted_db db i"
  have keys: "keys_ok db" by (rule runtime_okD(1) [OF assms(1)])
  have p: "fst (promote_execution db i) = ?db"
    by (rule promote_planned [OF assms(2)]) (use assms(4) keys in \<open>simp_all add: keys_ok_def\<close>)
  have same: "d_steps ?db = d_steps db" "d_attempts ?db = d_attempts db" "d_revisions ?db = d_revisions db"
    by (simp_all add: promoted_db_def)
  obtain y where y: "find_by x_id i (d_runs ?db) = Some y" "x_status y = Running" "xr_activeRevision y = Some ri"
    using promoted_find [OF assms(2)] assms(3,4) by auto
  obtain r' where r': "find_by rv_id ri (d_revisions db) = Some r'" "materialized db i (rv_steps r')"
    by (rule planned_run [OF assms(1,2,4)])
  with assms(5) have mat: "materialized ?db i (rv_steps r)" by (simp add: materialized_def same)
  have ids: "distinct (map ls_id (d_steps ?db))" by (simp add: same sound_ids [OF assms(1)])
  have adv: "advanceable ?db i (rv_steps r) = advanceable db i (rv_steps r)"
    by (intro ext) (simp add: advanceable_def live_attempt_def steps_of_def same cong: option.case_cong)
  note run = advance_steps_running [OF ids y assms(5) [folded same(3)] mat, of en]
  have "fst (advance_steps en ?db i) = db\<lparr>d_runs := update_where (stuck i) (\<lambda>x. x\<lparr>x_status := Running\<rparr>) (d_runs db),
      d_steps := update_where (advanceable db i (rv_steps r)) (readied en) (d_steps db)\<rparr>"
    unfolding run(1) adv by (simp add: promoted_db_def)
  with run(2) p show ?thesis
    by (cases "promote_execution db i"; cases "advance_steps en ?db i") (auto simp: reconcileExecution_def)
qed

text \<open>C6: reconciling a live execution does what its description says and no more: a pending execution that has its plan
  runs, and the steps that become ready are exactly the pending ones with every dependency resolved and nothing under
  way.\<close>

theorem reconcile_advances_frontier:
  assumes "runtime_ok coll db" and "find_by x_id i (d_runs db) = Some x" and "x_status x \<in> {Pending, Running}"
    and "xr_activeRevision x = Some ri" and "find_by rv_id ri (d_revisions db) = Some r"
  shows "\<exists>b k. reconcileExecution en db i =
     (db\<lparr>d_runs := update_where (stuck i) (\<lambda>x. x\<lparr>x_status := Running\<rparr>) (d_runs db),
         d_steps := update_where (advanceable db i (rv_steps r)) (readied en) (d_steps db)\<rparr>, b, 0, k)"
  by (rule reconcile_frontier' [OF assms])

lemma reconcile_idle:
  assumes "runtime_ok coll db"
    and "\<And>x. find_by x_id i (d_runs db) = Some x \<Longrightarrow> x_status x \<notin> {Pending, Running} \<or> xr_activeRevision x = None"
  shows "reconcileExecution en db i = (db, False, 0, 0)"
proof (cases "find_by x_id i (d_runs db)")
  case None
  then show ?thesis by (simp add: reconcileExecution_def promote_execution_def advance_steps_def)
next
  case (Some x)
  have p: "promote_execution db i = (db, False)" using assms(2) [OF Some] Some by (auto simp: promote_execution_def)
  have "advance_steps en db i = (db, 0, 0)"
  proof (cases "xr_activeRevision x")
    case None
    with Some show ?thesis by (simp add: advance_steps_def)
  next
    case (Some ri)
    obtain r where "find_by rv_id ri (d_revisions db) = Some r" "materialized db i (rv_steps r)"
      by (rule planned_run [OF assms(1) \<open>find_by x_id i (d_runs db) = Some x\<close> Some])
    with assms(2) \<open>find_by x_id i (d_runs db) = Some x\<close> Some show ?thesis
      by (auto simp: advance_steps_def backfill_materialized)
  qed
  with p show ?thesis by (simp add: reconcileExecution_def)
qed

lemma advanceable_readied:
  assumes "l \<in> set (update_where (advanceable db i plan) (readied en) (d_steps db))"
  shows "\<not> advanceable (db\<lparr>d_runs := xs, d_steps := update_where (advanceable db i plan) (readied en) (d_steps db)\<rparr>) i plan l"
proof -
  let ?db = "db\<lparr>d_runs := xs, d_steps := update_where (advanceable db i plan) (readied en) (d_steps db)\<rparr>"
  from in_update_where [OF assms] obtain k where k: "l = (if advanceable db i plan k then readied en k else k)" by blast
  have "dependenciesResolved c (steps_of ?db i) plan = dependenciesResolved c (steps_of db i) plan" for c
  proof -
    have "steps_of ?db i = update_where (advanceable db i plan) (readied en) (steps_of db i)"
      using steps_of_ready [where db = db and P = "advanceable db i plan" and en = en and rows = "d_steps db" and i = i] by (simp add: steps_of_def)
    moreover have "ls_status l = SPending" if "advanceable db i plan l" for l using that by (simp add: advanceable_def)
    note dependenciesResolved_ready [OF this]
    ultimately show ?thesis by simp
  qed
  then have "advanceable ?db i plan k = advanceable db i plan k"
    by (simp add: advanceable_def live_attempt_def cong: option.case_cong)
  with k show ?thesis by (cases "advanceable db i plan k") (simp_all add: advanceable_def [of _ _ _ "readied en k"])
qed

text \<open>C7: reconciling twice is reconciling once: right after it, there is nothing left to promote, to fill in or to advance.\<close>

theorem reconcile_idempotent:
  assumes "runtime_ok coll db" and "reconcileExecution en db i = (db', b, n, k)"
  shows "reconcileExecution en' db' i = (db', False, 0, 0)"
proof (cases "\<exists>x ri. find_by x_id i (d_runs db) = Some x \<and> x_status x \<in> {Pending, Running} \<and> xr_activeRevision x = Some ri")
  case False
  then have "reconcileExecution e db i = (db, False, 0, 0)" for e by (intro reconcile_idle [OF assms(1)]) auto
  with assms(2) show ?thesis by simp
next
  case True
  then obtain x ri where x: "find_by x_id i (d_runs db) = Some x" "x_status x \<in> {Pending, Running}" "xr_activeRevision x = Some ri"
    by blast
  obtain r where r: "find_by rv_id ri (d_revisions db) = Some r" "materialized db i (rv_steps r)"
    by (rule planned_run [OF assms(1) x(1,3)])
  let ?runs = "update_where (stuck i) (\<lambda>x. x\<lparr>x_status := Running\<rparr>) (d_runs db)"
  from reconcile_frontier' [OF assms(1) x r(1), of en] assms(2)
  have db': "db' = db\<lparr>d_runs := ?runs,
      d_steps := update_where (advanceable db i (rv_steps r)) (readied en) (d_steps db)\<rparr>" by auto
  have "runtime_ok coll db'"
    using sound_reconcile [of coll db en i] assms by (simp add: sound_step_def)
  note ids = sound_ids [OF this]
  obtain y where y: "find_by x_id i (d_runs db') = Some y" "x_status y = Running" "xr_activeRevision y = Some ri"
    using promoted_find [OF x(1)] x(2,3) by (auto simp: db' promoted_db_def)
  obtain r' where r': "find_by rv_id ri (d_revisions db') = Some r'" "materialized db' i (rv_steps r')"
    by (rule planned_run [OF \<open>runtime_ok coll db'\<close> y(1,3)])
  with r(1) have rr: "r' = r" by (simp add: db')
  have "advance_steps en' db' i = (db', 0, 0)"
  proof (rule advance_steps_running(3) [OF ids y r'])
    fix l assume "l \<in> set (d_steps db')"
    then have "l \<in> set (update_where (advanceable db i (rv_steps r)) (readied en) (d_steps db))" by (simp add: db')
    from advanceable_readied [OF this, of ?runs] show "\<not> advanceable db' i (rv_steps r') l" by (simp add: rr db')
  qed
  moreover have "promote_execution db' i = (db', False)" using y by (simp add: promote_execution_def)
  ultimately show ?thesis by (simp add: reconcileExecution_def)
qed

lemma ex_task_run:
  "find_by x_id ''e'' (d_runs ex_task_db) = Some ex_run" "x_status ex_run \<in> {Pending, Running}"
  "xr_activeRevision ex_run = Some ''r1''" "find_by rv_id ''r1'' (d_revisions ex_task_db) = Some ex_revision"
  by (simp_all add: ex_task_db_def ex_plan_db_def ex_run_def ex_revision_def find_by_def)

theorem reconcile_advances_frontier_witness:
  "\<exists>b k. reconcileExecution ex_env ex_task_db ''e'' =
     (ex_task_db\<lparr>d_runs := update_where (stuck ''e'') (\<lambda>x. x\<lparr>x_status := Running\<rparr>) (d_runs ex_task_db),
        d_steps := update_where (advanceable ex_task_db ''e'' (rv_steps ex_revision)) (readied ex_env) (d_steps ex_task_db)\<rparr>,
      b, 0, k)"
  using reconcile_advances_frontier [OF ex_task_sound ex_task_run, of ex_env] .

theorem reconcile_idempotent_witness:
  "\<exists>db' b n k. reconcileExecution ex_env ex_task_db ''e'' = (db', b, n, k) \<and>
     reconcileExecution ex_env db' ''e'' = (db', False, 0, 0)"
proof -
  obtain db' b n k where run: "reconcileExecution ex_env ex_task_db ''e'' = (db', b, n, k)"
    by (cases "reconcileExecution ex_env ex_task_db ''e''")
  with reconcile_idempotent [OF ex_task_sound run] show ?thesis by blast
qed

subsection \<open>The service\<close>

lemma sound_schedule_legacy:
  assumes "schedule_legacy en q x db l = Inr (db', l')"
  shows "sound_step coll db db'"
proof -
  from assms obtain a b db1 where "insert_attempt db a = Inr db1" "insert_outbox db1 b = Inr db'"
    by (auto simp: schedule_legacy_def Let_def bindE_Inr_iff)
  with sound_insert_attempt [of db a db1 coll] sound_insert_outbox [of db1 b db' coll] show ?thesis
    by (blast intro: sound_trans)
qed

lemma sound_createStepExecution:
  assumes "createStepExecution en db q = Inr (db', l')"
  shows "sound_step coll db db'"
proof -
  have old: "sound_step coll db (save_step (legacy_step en q l) db)" if "find P (d_steps db) = Some l" for P l
    by (rule sound_save_view) (use find_SomeD [OF that] in \<open>auto simp: step_view_def legacy_step_def\<close>)
  have new: "sound_step coll db (db\<lparr>d_steps := d_steps db @ [l]\<rparr>)" if "find_by ls_id (ls_id l) (d_steps db) = None" for l
    using that by (intro sound_insert_step) (simp add: find_by_None)
  show ?thesis
  proof (cases "find (\<lambda>l. ls_executionId l = lq_executionId q \<and> ls_stepId l = lq_stepId q) (d_steps db)")
    case None
    let ?l = "legacy_step en q (legacy_new_step en q)"
    from assms None obtain x where fresh: "find_by ls_id (ls_id ?l) (d_steps db) = None"
      and s: "schedule_legacy en q x (db\<lparr>d_steps := d_steps db @ [?l]\<rparr>) ?l = Inr (db', l')"
      by (auto simp: createStepExecution_def Let_def split: if_splits option.splits)
    from new [OF fresh] sound_schedule_legacy [OF s] show ?thesis by (rule sound_trans)
  next
    case (Some l)
    with assms obtain x where s: "schedule_legacy en q x (save_step (legacy_step en q l) db) (legacy_step en q l) = Inr (db', l')"
      by (auto simp: createStepExecution_def split: if_splits option.splits)
    from old [OF Some] sound_schedule_legacy [OF s] show ?thesis by (rule sound_trans)
  qed
qed

lemma sound_updateStepStatus:
  assumes "updateStepStatus en db i s st out err = Inr (db', l')"
  shows "sound_step coll db db'"
proof -
  from assms obtain l where l: "find (\<lambda>l. ls_executionId l = i \<and> ls_stepId l = s) (d_steps db) = Some l"
    by (auto simp: updateStepStatus_def split: option.splits)
  have step: "sound_step coll db0 (save_step (updated_step en st out err l) db0)" if "d_steps db0 = d_steps db" for db0
    by (rule sound_save_view)
      (use find_SomeD [OF l] that in \<open>auto simp: step_view_def updated_step_def\<close>)
  have "sound_step coll db (db\<lparr>d_attempts := update_where (not_terminal j) (updated_attempt en st out err) (d_attempts db)\<rparr>)" for j
    by (rule sound_attempts) (auto simp: not_terminal_def attempt_final_def updated_attempt_def Let_def)
  from sound_trans [OF this step] step [of db] assms l show ?thesis
    by (auto simp: updateStepStatus_def Let_def split: option.splits if_splits)
qed

lemma sound_createSkipped:
  "createSkippedLogicalStep en db i config result = Inr (db', l) \<Longrightarrow> sound_step coll db db'"
  by (auto simp: createSkippedLogicalStep_def Let_def find_by_None split: option.splits if_splits intro!: sound_insert_step)

lemma find_pipeline_valid:
  assumes "find_pipeline en rows i = Inr (Some p)"
  shows "pipeline_valid (en_coll en) p"
proof -
  from assms obtain r :: pipeline_row and p' where p': "validatePipeline (en_coll en) (pipeline_js r) = Inr p'" and p: "pl_steps p = pl_steps p'"
    by (auto simp: find_pipeline_def bindE_Inr_iff split: option.splits)
  from p' have "validateSteps (en_coll en) (JArr (map step_js (pl_steps r))) = Inr (pl_steps p')"
    by (auto simp: validatePipeline_def bindE_Inr_iff getp_pipeline_js split: if_splits)
  with validateSteps_Inr(1) validateSteps_valid show ?thesis unfolding pipeline_valid_def p by blast
qed

text \<open>The calls of the engine and the controllers; the engine finishes an execution with a terminal status only.\<close>

datatype execution_call =
    Create "pipeline_row list" string jsv
  | Reconcile string
  | Claim projection_cache "string list" claim_request
  | Finish string execution_status jsv
  | Cancel string
  | Schedule legacy_request
  | Skip string step bool
  | Report string string step_status jsv "string option"

fun execution_tx :: "env \<Rightarrow> runtime_db \<Rightarrow> execution_call \<Rightarrow> runtime_error + runtime_db" where
  "execution_tx en db (Create rows i inp) =
     (case find_pipeline en rows i of
        Inr (Some p) \<Rightarrow> bindE (createExecution en db p inp) (\<lambda>(db', x). Inr db')
      | _ \<Rightarrow> Inl (RowMissing i))"
| "execution_tx en db (Reconcile i) = Inr (fst (reconcileExecution en db i))"
| "execution_tx en db (Claim cache locked q) = bindE (snd (claimRunnableStep en cache locked db q)) (\<lambda>(db', out). Inr db')"
| "execution_tx en db (Finish i st out) =
     (if st \<in> set TERMINAL_EXECUTION_STATUSES then Inr (updateExecutionStatus en db i st out) else Inr db)"
| "execution_tx en db (Cancel i) = bindE (cancelExecution en db i) (\<lambda>(db', x). Inr db')"
| "execution_tx en db (Schedule q) = bindE (createStepExecution en db q) (\<lambda>(db', l). Inr db')"
| "execution_tx en db (Skip i config result) = bindE (createSkippedLogicalStep en db i config result) (\<lambda>(db', l). Inr db')"
| "execution_tx en db (Report i s st out err) = bindE (updateStepStatus en db i s st out err) (\<lambda>(db', l). Inr db')"

lemma sound_execution_tx:
  assumes "execution_tx en db q = Inr db'"
  shows "sound_step (en_coll en) db db'"
proof (cases q)
  case (Create rows i inp)
  with assms obtain p x where p: "find_pipeline en rows i = Inr (Some p)" and "createExecution en db p inp = Inr (db', x)"
    by (auto simp: bindE_Inr_iff split: sum.splits option.splits)
  with find_pipeline_valid [OF p] show ?thesis by (auto simp: createExecution_def intro: sound_materialize)
next
  case (Reconcile i)
  with assms sound_reconcile [of "en_coll en" db en i] show ?thesis by simp
next
  case (Claim cache locked r)
  with assms obtain cache' out where "claimRunnableStep en cache locked db r = (cache', Inr (db', out))"
    by (cases "claimRunnableStep en cache locked db r") (auto simp: bindE_Inr_iff)
  from claim_stage_ok(1) [OF _ this] show ?thesis by (simp add: sound_step_def)
next
  case (Finish i st out)
  with assms sound_updateExecutionStatus [of st] show ?thesis by (auto split: if_splits)
next
  case (Cancel i)
  with assms show ?thesis by (auto simp: cancelExecution_def bindE_Inr_iff intro: sound_cancel)
next
  case (Schedule r)
  with assms show ?thesis by (auto simp: bindE_Inr_iff intro: sound_createStepExecution)
next
  case (Skip i config result)
  with assms show ?thesis by (auto simp: bindE_Inr_iff intro: sound_createSkipped)
next
  case (Report i s st out err)
  with assms show ?thesis by (auto simp: bindE_Inr_iff intro: sound_updateStepStatus)
qed

interpretation executions: runtime_service execution_tx
  by (rule sound_service) (rule sound_execution_tx)

end
