(* ===== verification/AgentEvents.thy ===== *)
theory AgentEvents
  imports ResultInbox
begin

text \<open>
  services/orchestrator/src/services/agent-event.service.ts: one transaction takes a delivered agent event to its
  event row or to a conflict row, and projects its liveness on the attempt. The event is the JSON that was
  delivered; its hash covers it whole.
\<close>

definition MAX_EVENT_CANONICAL_BYTES :: nat where "MAX_EVENT_CANONICAL_BYTES = 64 * 1024"

datatype event_application = EApplied | EDuplicate | EConflict | EIgnored

definition event_text :: "jsv \<Rightarrow> string \<Rightarrow> string" where
  "event_text event k = (case getp event k of JStr s \<Rightarrow> s | _ \<Rightarrow> [])"

definition event_sequence :: "jsv \<Rightarrow> int" where
  "event_sequence event = (case as_integer (getp event ''sequence'') of Some n \<Rightarrow> n | None \<Rightarrow> 0)"

definition event_row_of :: "env \<Rightarrow> attempt \<Rightarrow> jsv \<Rightarrow> transport_identity \<Rightarrow> int \<Rightarrow> event_row" where
  "event_row_of en a event source receivedAt =
     \<lparr>ae_id = en_newId en ''event'', ae_attempt = at_id a, ae_invocationId = event_text event ''invocationId'',
      ae_executionId = event_text event ''executionId'', ae_logicalStepId = event_text event ''stepExecutionId'',
      ae_eventId = event_text event ''eventId'', ae_sequence = event_sequence event, ae_type = event_text event ''type'',
      ae_payload = getp event ''payload'',
      ae_metadata = (case getp event ''metadata'' of JUndef \<Rightarrow> JNull | v \<Rightarrow> v), ae_trace = getp event ''trace'', ae_hash = sha256Json (en_sha en) (en_coll en) event, ae_source = source,
      ae_receivedAt = receivedAt\<rparr>"

text \<open>The unique constraints of the table; a violation makes the insert a no-op.\<close>

definition event_clash :: "event_row \<Rightarrow> event_row \<Rightarrow> bool" where
  "event_clash r q \<longleftrightarrow> ae_id q = ae_id r \<or>
     ae_attempt q = ae_attempt r \<and> (ae_eventId q = ae_eventId r \<or> ae_sequence q = ae_sequence r) \<or>
     same_delivery (ae_source q) (ae_source r)"

definition insert_event :: "event_row \<Rightarrow> event_row list \<Rightarrow> event_row list" where
  "insert_event r rows = (if \<exists>q \<in> set rows. event_clash r q then rows else rows @ [r])"

definition recordConflict :: "env \<Rightarrow> event_row \<Rightarrow> event_conflict \<Rightarrow> runtime_db \<Rightarrow> runtime_db" where
  "recordConflict en r kind db =
     db\<lparr>d_eventConflicts := d_eventConflicts db @ [\<lparr>ac_attempt = ae_attempt r, ac_invocationId = ae_invocationId r, ac_eventId = ae_eventId r,
        ac_sequence = ae_sequence r, ac_kind = kind, ac_hash = ae_hash r, ac_payload = ae_payload r,
        ac_source = ae_source r, ac_receivedAt = en_now en\<rparr>]\<rparr>"

definition live_columns :: "string \<Rightarrow> int \<Rightarrow> attempt \<Rightarrow> attempt" where
  "live_columns type receivedAt a = a\<lparr>at_lastEventAt := Some receivedAt,
     at_acceptedAt := (if type = ''accepted'' then Some receivedAt else at_acceptedAt a),
     at_lastHeartbeatAt := (if type = ''heartbeat'' then Some receivedAt else at_lastHeartbeatAt a),
     at_lastProgressAt := (if type = ''progress'' then Some receivedAt else at_lastProgressAt a)\<rparr>"

definition ACTIVITY :: "string list" where
  "ACTIVITY = [''heartbeat'', ''progress'', ''log'', ''artifact'']"

definition dispatched :: "string \<Rightarrow> attempt \<Rightarrow> bool" where
  "dispatched i a \<longleftrightarrow> at_id a = i \<and> at_status a = ADispatched"

definition started :: "env \<Rightarrow> attempt \<Rightarrow> attempt" where
  "started en a = a\<lparr>at_status := ARunning,
     at_startTime := (case at_startTime a of None \<Rightarrow> Some (en_now en) | Some t \<Rightarrow> Some t)\<rparr>"

definition projectLiveness :: "env \<Rightarrow> string \<Rightarrow> string \<Rightarrow> int \<Rightarrow> attempt list \<Rightarrow> attempt list" where
  "projectLiveness en i type receivedAt rows =
     (let rows1 = update_where (not_terminal i) (live_columns type receivedAt) rows
      in if type \<in> set ACTIVITY then update_where (dispatched i) (started en) rows1 else rows1)"

definition same_event :: "event_row \<Rightarrow> event_row \<Rightarrow> bool" where
  "same_event r q \<longleftrightarrow> ae_attempt q = ae_attempt r \<and> ae_eventId q = ae_eventId r"

definition store_event :: "env \<Rightarrow> event_row \<Rightarrow> runtime_db \<Rightarrow> runtime_db \<times> event_application" where
  "store_event en r db =
     (let db1 = db\<lparr>d_events := insert_event r (d_events db)\<rparr>
      in case find (same_event r) (d_events db1) of
           Some q \<Rightarrow>
             if ae_hash q = ae_hash r
             then (db1\<lparr>d_attempts := projectLiveness en (ae_attempt r) (ae_type r) (ae_receivedAt r) (d_attempts db1)\<rparr>, EApplied)
             else (recordConflict en r EventIdPayload db1, EConflict)
         | None \<Rightarrow> (recordConflict en r SequenceOwner db1, EConflict))"

definition receive_event :: "env \<Rightarrow> event_row \<Rightarrow> runtime_db \<Rightarrow> runtime_db \<times> event_application" where
  "receive_event en r db =
     (case find (same_event r) (d_events db) of
        Some q \<Rightarrow> if ae_hash q = ae_hash r then (db, EDuplicate) else (recordConflict en r EventIdPayload db, EConflict)
      | None \<Rightarrow>
          if \<exists>q \<in> set (d_events db). ae_attempt q = ae_attempt r \<and> ae_sequence q = ae_sequence r
          then (recordConflict en r SequenceOwner db, EConflict)
          else store_event en r db)"

text \<open>The identity of the delivery is worked out before the transaction; the clock stands in for a missing time.\<close>

definition apply_event ::
  "env \<Rightarrow> runtime_db \<Rightarrow> jsv \<Rightarrow> transport \<Rightarrow> int option \<Rightarrow> runtime_error + runtime_db \<times> event_application" where
  "apply_event en db event tm receivedAt =
     (if utf8_len (canonicalJson (en_coll en) event) > MAX_EVENT_CANONICAL_BYTES then Inl (Raised ''EventPayloadTooLarge'')
      else bindE (mapL TransportError (durableTransportIdentity (en_sha en) tm)) (\<lambda>source.
        case find_by at_invocationId (event_text event ''invocationId'') (d_attempts db) of
          None \<Rightarrow> Inr (db, EIgnored)
        | Some a \<Rightarrow>
            if at_executionId a \<noteq> event_text event ''executionId'' \<or>
               at_logicalStepId a \<noteq> event_text event ''stepExecutionId''
            then Inr (db, EIgnored)
            else Inr (receive_event en (event_row_of en a event source
                 (case receivedAt of None \<Rightarrow> en_now en | Some t \<Rightarrow> t)) db)))"

text \<open>The history of an execution, a page at a time.\<close>

record event_query =
  eq_attempt :: "string option"
  eq_type :: "string option"
  eq_limit :: nat
  eq_after :: "(int \<times> string) option"

definition event_le :: "event_row \<Rightarrow> event_row \<Rightarrow> bool" where
  "event_le r q \<longleftrightarrow> ae_receivedAt r < ae_receivedAt q \<or> ae_receivedAt r = ae_receivedAt q \<and> ae_id r \<le> ae_id q"

definition listed :: "string \<Rightarrow> event_query \<Rightarrow> event_row \<Rightarrow> bool" where
  "listed executionId q r \<longleftrightarrow> ae_executionId r = executionId \<and>
     (case eq_attempt q of None \<Rightarrow> True | Some i \<Rightarrow> i = [] \<or> ae_attempt r = i) \<and>
     (case eq_type q of None \<Rightarrow> True | Some t \<Rightarrow> t = [] \<or> ae_type r = t) \<and>
     (case eq_after q of None \<Rightarrow> True | Some (t, i) \<Rightarrow> ae_receivedAt r > t \<or> ae_receivedAt r = t \<and> ae_id r > i)"

definition list_events :: "runtime_db \<Rightarrow> string \<Rightarrow> event_query \<Rightarrow> event_row list \<times> (int \<times> string) option" where
  "list_events db executionId q =
     (let rows = take (eq_limit q + 1) (sort_by event_le (filter (listed executionId q) (d_events db)));
          more = length rows > eq_limit q; events = (if more then take (eq_limit q) rows else rows)
      in (events, if more \<and> events \<noteq> [] then Some (ae_receivedAt (last events), ae_id (last events)) else None))"

end
