(* ===== verification/AgentEvents_Properties.thy ===== *)
theory AgentEvents_Properties
  imports AgentEvents Approvals_Properties
begin

text \<open>
  Agent events are observations: they never settle an attempt, the table of events has each identity and each sequence
  number once, and a redelivery is recognised whatever transport brings it.
\<close>

subsection \<open>Liveness\<close>

lemma live_columns_simps [simp]:
  "at_id (live_columns t n a) = at_id a" "at_invocationId (live_columns t n a) = at_invocationId a"
  "at_status (live_columns t n a) = at_status a" "at_executionId (live_columns t n a) = at_executionId a"
  "at_logicalStepId (live_columns t n a) = at_logicalStepId a"
  by (simp_all add: live_columns_def)

lemma started_simps [simp]:
  "at_id (started en a) = at_id a" "at_invocationId (started en a) = at_invocationId a"
  "at_status (started en a) = ARunning" "at_executionId (started en a) = at_executionId a"
  "at_logicalStepId (started en a) = at_logicalStepId a"
  by (simp_all add: started_def)

text \<open>What an event may do to an attempt: move its clocks and, when it was dispatched only, start it.\<close>

definition observed_attempt :: "attempt \<Rightarrow> attempt \<Rightarrow> bool" where
  "observed_attempt a b \<longleftrightarrow> b = a \<or> at_status a \<notin> set TERMINAL_ATTEMPTS \<and>
     (at_status b = at_status a \<or> at_status a = ADispatched \<and> at_status b = ARunning) \<and>
     b = a\<lparr>at_status := at_status b, at_startTime := at_startTime b, at_acceptedAt := at_acceptedAt b,
       at_lastEventAt := at_lastEventAt b, at_lastHeartbeatAt := at_lastHeartbeatAt b, at_lastProgressAt := at_lastProgressAt b\<rparr>"

lemma projectLiveness_map:
  "projectLiveness en i type t rows = map (\<lambda>a.
     let b = (if not_terminal i a then live_columns type t a else a)
     in if type \<in> set ACTIVITY \<and> dispatched i b then started en b else b) rows"
  by (auto simp: projectLiveness_def update_where_def Let_def)

lemma observed_live: "not_terminal i a \<Longrightarrow> observed_attempt a (live_columns type t a)"
  by (simp add: observed_attempt_def not_terminal_def) (simp add: live_columns_def)

lemma observed_started: "at_status a = ADispatched \<Longrightarrow> observed_attempt a (started en a)"
  by (simp add: observed_attempt_def TERMINAL_ATTEMPTS_def) (simp add: started_def)

lemma observed_live_started:
  "at_status a = ADispatched \<Longrightarrow> observed_attempt a (started en (live_columns type t a))"
  by (simp add: observed_attempt_def TERMINAL_ATTEMPTS_def) (simp add: started_def live_columns_def)

lemma observed_projectLiveness: "list_all2 observed_attempt rows (projectLiveness en i type t rows)"
proof -
  have "observed_attempt a a" for a by (simp add: observed_attempt_def)
  then show ?thesis
    unfolding projectLiveness_map list.rel_map Let_def
    by (intro list.rel_refl) (simp add: dispatched_def observed_live observed_started observed_live_started)
qed

lemma sound_projectLiveness:
  "sound_step coll db (db\<lparr>d_attempts := projectLiveness en i type t (d_attempts db)\<rparr>)"
proof -
  let ?db = "db\<lparr>d_attempts := update_where (not_terminal i) (live_columns type t) (d_attempts db)\<rparr>"
  have "sound_step coll db ?db"
    by (rule sound_attempts) (auto simp: not_terminal_def attempt_final_def)
  moreover have "sound_step coll ?db (?db\<lparr>d_attempts := update_where (dispatched i) (started en) (d_attempts ?db)\<rparr>)"
    by (rule sound_attempts) (auto simp: dispatched_def attempt_final_def TERMINAL_ATTEMPTS_def)
  ultimately show ?thesis by (auto simp: projectLiveness_def Let_def intro: sound_trans)
qed

lemma sound_events: "set (d_events db) \<subseteq> set es \<Longrightarrow> sound_step coll db (db\<lparr>d_events := es\<rparr>)"
  by (rule sound_skeleton') (auto simp: skeleton_def facts_kept_def keeps_def)

lemma sound_recordConflict: "sound_step coll db (recordConflict en r k db)"
  by (rule sound_skeleton') (auto simp: skeleton_def facts_kept_def keeps_def recordConflict_def)

lemma insert_event_grows: "\<exists>rs. insert_event r rows = rows @ rs"
  by (simp add: insert_event_def)

subsection \<open>The cases of an event\<close>

lemma receive_event_cases:
  assumes "receive_event en r db = (db', out)"
  obtains (duplicate) q where "find (same_event r) (d_events db) = Some q" "ae_hash q = ae_hash r" "db' = db" "out = EDuplicate"
    | (conflict) es k where "es = d_events db \<or> es = insert_event r (d_events db)"
        "db' = recordConflict en r k (db\<lparr>d_events := es\<rparr>)" "out = EConflict"
    | (applied) q where "find (same_event r) (d_events db) = None" "find (same_event r) (d_events db') = Some q" "ae_hash q = ae_hash r"
        "db' = db\<lparr>d_events := insert_event r (d_events db),
           d_attempts := projectLiveness en (ae_attempt r) (ae_type r) (ae_receivedAt r) (d_attempts db)\<rparr>"
        "out = EApplied"
proof (cases "find (same_event r) (d_events db)")
  case (Some q)
  show ?thesis
  proof (cases "ae_hash q = ae_hash r")
    case True
    with assms Some show ?thesis by (intro duplicate [of q]) (auto simp: receive_event_def)
  next
    case False
    with assms Some show ?thesis
      by (intro conflict [of "d_events db" EventIdPayload]) (auto simp: receive_event_def)
  qed
next
  case None
  show ?thesis
  proof (cases "\<exists>q \<in> set (d_events db). ae_attempt q = ae_attempt r \<and> ae_sequence q = ae_sequence r")
    case True
    with assms None show ?thesis by (intro conflict [of "d_events db" SequenceOwner]) (auto simp: receive_event_def)
  next
    case False
    with assms None have s: "store_event en r db = (db', out)" by (simp only: receive_event_def option.case if_False)
    show ?thesis
    proof (cases "find (same_event r) (insert_event r (d_events db))")
      case None
      with s show ?thesis by (intro conflict [of "insert_event r (d_events db)" SequenceOwner]) (auto simp: store_event_def)
    next
      case (Some q)
      show ?thesis
      proof (cases "ae_hash q = ae_hash r")
        case True
        with s Some None show ?thesis by (intro applied [of q]) (auto simp: store_event_def)
      next
        case False
        with s Some show ?thesis
          by (intro conflict [of "insert_event r (d_events db)" EventIdPayload]) (auto simp: store_event_def)
      qed
    qed
  qed
qed

lemma sound_receive_event:
  assumes "receive_event en r db = (db', out)"
  shows "sound_step coll db db'"
  using assms
proof (cases rule: receive_event_cases)
  case (conflict es k)
  have "sound_step coll db (db\<lparr>d_events := es\<rparr>)"
    by (rule sound_events) (use conflict(1) insert_event_grows [of r "d_events db"] in auto)
  also note sound_recordConflict [of coll _ en r k]
  finally show ?thesis using conflict(2) by simp
next
  case (applied q)
  have "sound_step coll db (db\<lparr>d_events := insert_event r (d_events db)\<rparr>)"
    by (rule sound_events) (use insert_event_grows [of r "d_events db"] in auto)
  also note sound_projectLiveness [of coll _ en "ae_attempt r" "ae_type r" "ae_receivedAt r"]
  finally show ?thesis using applied(4) by simp
qed simp

lemma apply_event_Inr:
  assumes "apply_event en db event tm t = Inr (db', out)"
  obtains (ignored) "db' = db" "out = EIgnored"
    | (received) a source where "find_by at_invocationId (event_text event ''invocationId'') (d_attempts db) = Some a"
        "at_executionId a = event_text event ''executionId''" "at_logicalStepId a = event_text event ''stepExecutionId''"
        "durableTransportIdentity (en_sha en) tm = Inr source"
        "receive_event en (event_row_of en a event source (case t of None \<Rightarrow> en_now en | Some t \<Rightarrow> t)) db = (db', out)"
  using assms
  by (auto simp: apply_event_def bindE_Inr_iff split: if_splits option.splits)

lemma sound_apply_event:
  assumes "apply_event en db event tm t = Inr (db', out)"
  shows "sound_step coll db db'"
  using assms by (cases rule: apply_event_Inr) (auto intro: sound_receive_event)

text \<open>C8: an event settles nothing: whatever a worker reports, terminal attempts are as they were, no attempt becomes
  terminal, the execution, its steps, its outbox and its inbox are untouched, and only an applied event moves the
  clocks of an attempt or takes it from dispatched to running.\<close>

theorem event_settles_nothing:
  assumes "apply_event en db event tm t = Inr (db', out)"
  shows "\<exists>es cs as. db' = db\<lparr>d_events := d_events db @ es, d_eventConflicts := d_eventConflicts db @ cs, d_attempts := as\<rparr> \<and>
     list_all2 observed_attempt (d_attempts db) as \<and> (out \<noteq> EApplied \<longrightarrow> as = d_attempts db) \<and> (out = EConflict \<longleftrightarrow> cs \<noteq> [])"
proof -
  have refl: "list_all2 observed_attempt rows rows" for rows by (rule list_all2_refl) (simp add: observed_attempt_def)
  show ?thesis
    using assms
  proof (cases rule: apply_event_Inr)
    case ignored
    then show ?thesis
      by (intro exI [of _ "[]"] exI [of _ "d_attempts db"]) (simp add: refl)
  next
    case (received a source)
    let ?r = "event_row_of en a event source (case t of None \<Rightarrow> en_now en | Some t \<Rightarrow> t)"
    obtain rs where rs: "insert_event ?r (d_events db) = d_events db @ rs" using insert_event_grows by blast
    from received(5) show ?thesis
    proof (cases rule: receive_event_cases)
      case (duplicate q)
      then show ?thesis by (intro exI [of _ "[]"] exI [of _ "d_attempts db"]) (simp add: refl)
    next
      case (conflict es k)
      with rs obtain rs' where "es = d_events db @ rs'" by auto
      with conflict(2,3) show ?thesis
        by (intro exI [of _ rs'] exI [of _ "d_attempts db"])
          (auto simp: recordConflict_def refl)
    next
      case (applied q)
      then show ?thesis
        by (intro exI [of _ rs] exI [of _ "[]"] exI [of _ "d_attempts db'"]) (simp add: rs observed_projectLiveness)
    qed
  qed
qed

subsection \<open>Redelivery\<close>

lemma find_by_map: "(\<And>a. k (f a) = k a) \<Longrightarrow> find_by k v (map f rows) = map_option f (find_by k v rows)"
  by (induction rows) (simp_all add: find_by_def)

lemma projectLiveness_find:
  assumes "find_by at_invocationId v rows = Some a"
  shows "\<exists>b. find_by at_invocationId v (projectLiveness en i type t rows) = Some b \<and> at_id b = at_id a \<and>
     at_executionId b = at_executionId a \<and> at_logicalStepId b = at_logicalStepId a"
  unfolding projectLiveness_map using assms by (subst find_by_map) (simp_all add: Let_def)

lemma same_event_cong: "ae_attempt r = ae_attempt q \<Longrightarrow> ae_eventId r = ae_eventId q \<Longrightarrow> same_event r = same_event q"
  by (intro ext) (simp add: same_event_def)


subsection \<open>The table of events\<close>

definition events_ok :: "event_row list \<Rightarrow> bool" where
  "events_ok rows \<longleftrightarrow> sorted_wrt (\<lambda>q r. \<not> event_clash r q) rows"

lemma events_ok_insert: "events_ok rows \<Longrightarrow> events_ok (insert_event r rows)"
  by (auto simp: events_ok_def insert_event_def sorted_wrt_append)

lemma events_ok_apply:
  assumes "events_ok (d_events db)" and "apply_event en db event tm t = Inr (db', out)"
  shows "events_ok (d_events db')"
  using assms(2)
proof (cases rule: apply_event_Inr)
  case (received a source)
  from received(5) show ?thesis
    by (cases rule: receive_event_cases) (use assms(1) in \<open>auto simp: recordConflict_def events_ok_insert\<close>)
qed (use assms(1) in simp)

text \<open>The service as a machine of deliveries.\<close>

fun event_tx :: "env \<Rightarrow> runtime_db \<Rightarrow> jsv \<times> transport \<times> int option \<Rightarrow> runtime_error + runtime_db" where
  "event_tx en db (event, tm, t) = bindE (apply_event en db event tm t) (\<lambda>(db', out). Inr db')"

lemma event_tx_Inr: "event_tx en db q = Inr db' \<Longrightarrow> \<exists>event tm t out. apply_event en db event tm t = Inr (db', out)"
  by (cases q) (auto simp: bindE_Inr_iff)

interpretation events: runtime_service event_tx
proof (rule sound_service)
  show "sound_step (en_coll en) db db'" if "event_tx en db q = Inr db'" for en db q db'
    using event_tx_Inr [OF that] sound_apply_event by blast
qed

interpretation event_table: tx_machine "events.call coll" "\<lambda>db. events_ok (d_events db)" for coll
proof unfold_locales
  show "events_ok (d_events db')" if "events_ok (d_events db)" "events.call coll db q = Inr db'" for db q db'
    using that event_tx_Inr [of "fst q" db "snd q" db'] events_ok_apply [OF that(1)]
    by (auto simp: events.call_def split: if_splits)
qed

lemma events_ok_nth:
  assumes "events_ok rows" and "i < j" "j < length rows"
  shows "\<not> event_clash (rows ! j) (rows ! i)"
  using sorted_wrt_nth_less [OF assms(1) [unfolded events_ok_def] assms(2,3)] .


subsection \<open>Witnesses\<close>

definition ex_event :: "string \<Rightarrow> int \<Rightarrow> jsv" where
  "ex_event eventId n = JObj [(''eventId'', JStr eventId), (''invocationId'', JStr ''i1''), (''executionId'', JStr ''e''),
     (''stepExecutionId'', JStr ''step:a''), (''sequence'', jint n), (''type'', JStr ''progress''), (''payload'', JNull)]"

definition ex_dispatched :: runtime_db where
  "ex_dispatched = ex_plan_db\<lparr>d_attempts := [ex_attempt\<lparr>at_status := ADispatched\<rparr>]\<rparr>"

lemma first_event:
  assumes "utf8_len (canonicalJson (en_coll en) event) \<le> MAX_EVENT_CANONICAL_BYTES" and "d_events db = []"
    and "durableTransportIdentity (en_sha en) tm = Inr source"
    and "find_by at_invocationId (event_text event ''invocationId'') (d_attempts db) = Some a"
    and "at_executionId a = event_text event ''executionId''" "at_logicalStepId a = event_text event ''stepExecutionId''"
  shows "\<exists>db'. apply_event en db event tm t = Inr (db', EApplied)"
proof -
  have "\<exists>db'. receive_event en r db = (db', EApplied)" for r
    using assms(2) by (simp add: receive_event_def store_event_def insert_event_def same_event_def Let_def)
  with assms(1,3-6) show ?thesis by (simp add: apply_event_def)
qed

lemma ex_event_small: "utf8_len (canonicalJson ex_coll (ex_event ''v'' 1)) < 400"
  by code_simp

lemma ex_event_run:
  obtains db' where "apply_event ex_env ex_dispatched (ex_event ''v'' 1) ex_transport None = Inr (db', EApplied)"
proof -
  obtain source where "durableTransportIdentity (en_sha ex_env) ex_transport = Inr source"
    using ex_transport_identity by blast
  from first_event [OF _ _ this, of "ex_event ''v'' 1" ex_dispatched "ex_attempt\<lparr>at_status := ADispatched\<rparr>" None] ex_event_small that
  show ?thesis
    by (auto simp: MAX_EVENT_CANONICAL_BYTES_def ex_env_def ex_dispatched_def ex_plan_db_def ex_attempt_def find_by_def
      ex_event_def event_text_def getp_def)
qed

theorem event_settles_nothing_witness:
  "\<exists>db'. apply_event ex_env ex_dispatched (ex_event ''v'' 1) ex_transport None = Inr (db', EApplied) \<and>
     d_runs db' = d_runs ex_dispatched \<and> list_all2 observed_attempt (d_attempts ex_dispatched) (d_attempts db')"
proof -
  obtain db' where run: "apply_event ex_env ex_dispatched (ex_event ''v'' 1) ex_transport None = Inr (db', EApplied)"
    by (rule ex_event_run)
  from event_settles_nothing [OF run] run show ?thesis by auto
qed



subsection \<open>A delivery that is not new\<close>

text \<open>A new event with a new sequence number that reuses the delivery of another row is not stored; it is recorded as a
  conflict over the sequence number, which nothing owns.\<close>

lemma delivery_clash_is_sequence_conflict:
  assumes "find (same_event r) (d_events db) = None"
    and "\<forall>q \<in> set (d_events db). \<not> (ae_attempt q = ae_attempt r \<and> ae_sequence q = ae_sequence r)"
    and "q \<in> set (d_events db)" "same_delivery (ae_source q) (ae_source r)"
  shows "receive_event en r db = (recordConflict en r SequenceOwner db, EConflict)"
proof -
  have "insert_event r (d_events db) = d_events db" using assms(3,4) by (auto simp: insert_event_def event_clash_def)
  with assms(1,2) show ?thesis by (auto simp: receive_event_def store_event_def)
qed

end
