(* ===== verification/RuntimeMachine.thy ===== *)
theory RuntimeMachine
  imports Pipeline_Properties ExecutionService_Properties AgentEvents_Properties DispatchOutbox_Properties Approvals_Properties Runtime_Soundness
begin

text \<open>
  The orchestrator as one machine: a step is one committed transaction of one of its services, in any order and with
  any clock, ids and configuration. Every reachable database satisfies the invariant of the runtime tables, and what
  is final stays; a live execution whose steps are pending or resolved always has a step that can go on.
\<close>

subsection \<open>The machine\<close>

inductive runtime_step :: "(string \<Rightarrow> string \<Rightarrow> bool) \<Rightarrow> runtime_db \<Rightarrow> runtime_db \<Rightarrow> bool" for coll where
  proposing: "en_coll en = coll \<Longrightarrow> proposal_tx en db q = Inr db' \<Longrightarrow> runtime_step coll db db'"
| receiving: "en_coll en = coll \<Longrightarrow> inbox_tx en db r = Inr db' \<Longrightarrow> runtime_step coll db db'"
| approving: "en_coll en = coll \<Longrightarrow> approval_tx en db a = Inr db' \<Longrightarrow> runtime_step coll db db'"
| dispatching: "en_coll en = coll \<Longrightarrow> dispatch_tx en db d = Inr db' \<Longrightarrow> runtime_step coll db db'"
| executing: "en_coll en = coll \<Longrightarrow> execution_tx en db x = Inr db' \<Longrightarrow> runtime_step coll db db'"
| observing: "en_coll en = coll \<Longrightarrow> event_tx en db e = Inr db' \<Longrightarrow> runtime_step coll db db'"

inductive_cases runtime_stepE [elim]: "runtime_step coll db db'"

definition empty_db :: runtime_db where
  "empty_db = \<lparr>d_runs = [], d_revisions = [], d_steps = [], d_attempts = [], d_outbox = [], d_inbox = [], d_conflicts = [],
     d_artifacts = [], d_evidence = [], d_exposures = [], d_observations = [], d_observationConflicts = [], d_events = [],
     d_eventConflicts = [], d_proposals = [], d_approvals = [], d_ledger = \<lparr>accounts = [], reservations = [], ledger = []\<rparr>,
     d_policy = \<lparr>snapshots = [], decisions = []\<rparr>\<rparr>"

inductive reachable :: "(string \<Rightarrow> string \<Rightarrow> bool) \<Rightarrow> runtime_db \<Rightarrow> bool" for coll where
  initial: "reachable coll empty_db"
| committed: "reachable coll db \<Longrightarrow> runtime_step coll db db' \<Longrightarrow> reachable coll db'"

lemma sound_runtime_step:
  assumes "runtime_step coll db db'" and "runtime_ok coll db"
  shows "runtime_ok coll db'" and "facts_kept db db'"
  using assms
  by (auto dest: proposals.tx_ok proposals.tx_kept inbox.tx_ok inbox.tx_kept approvals.tx_ok approvals.tx_kept
    dispatcher.tx_ok dispatcher.tx_kept executions.tx_ok executions.tx_kept events.tx_ok events.tx_kept)

lemma empty_db_ok: "runtime_ok coll empty_db"
  using ex_empty_ledger
  by (simp add: empty_db_def runtime_ok_def keys_ok_def plans_ok_def states_ok_def evidence_ok_def)

lemma reachable_ok: "reachable coll db \<Longrightarrow> runtime_ok coll db"
  by (induction rule: reachable.induct) (auto simp: empty_db_ok dest: sound_runtime_step(1))

lemma reachable_trans: "(runtime_step coll)\<^sup>*\<^sup>* db db' \<Longrightarrow> reachable coll db \<Longrightarrow> reachable coll db'"
  by (induction rule: rtranclp_induct) (auto intro: reachable.committed)

text \<open>C1: whatever the services do, in whatever order their transactions commit, every database they reach is well
  formed: keys are unique, every execution has a valid plan with a row for each of its steps, the ledger is solvent
  and no reservation is settled beyond its amount, states are within their bounds, and evidence has its applied result.\<close>

theorem runtime_well_formed:
  assumes "reachable coll db"
  shows "keys_ok db \<and> plans_ok coll db \<and> ledger_ok (d_ledger db) \<and> states_ok db \<and> evidence_ok db"
  using reachable_ok [OF assms] by (simp add: runtime_ok_def)

lemma ex_create_run:
  "case create_pipeline ex_env [] ex_pipeline_js of Inl _ \<Rightarrow> False | Inr (rows, p) \<Rightarrow>
     (case createExecution ex_env empty_db p (JObj []) of Inl _ \<Rightarrow> False | Inr (db, x) \<Rightarrow> d_runs db \<noteq> [])"
  by code_simp

lemma ex_reachable: "\<exists>db. reachable ex_coll db \<and> d_runs db \<noteq> []"
proof -
  obtain rows p db x where p: "create_pipeline ex_env [] ex_pipeline_js = Inr (rows, p)"
    and x: "createExecution ex_env empty_db p (JObj []) = Inr (db, x)" "d_runs db \<noteq> []"
    using ex_create_run by (cases "create_pipeline ex_env [] ex_pipeline_js")
      (auto split: sum.splits, metis (no_types) sum.exhaust prod.exhaust)
  have "find_pipeline ex_env rows (pw_id p) = Inr (Some p)" by (rule stored_pipeline [OF p]) simp
  with x(1) have "execution_tx ex_env empty_db (Create rows (pw_id p) (JObj [])) = Inr db" by simp
  moreover have "en_coll ex_env = ex_coll" by (simp add: ex_env_def)
  ultimately have "runtime_step ex_coll empty_db db" by (blast intro: runtime_step.executing)
  with x(2) reachable.initial show ?thesis by (blast intro: reachable.committed)
qed

theorem runtime_well_formed_witness: "\<exists>db. reachable ex_coll db \<and> d_runs db \<noteq> [] \<and> plans_ok ex_coll db"
  using ex_reachable runtime_well_formed by blast


subsection \<open>Progress\<close>

lemma plan_of_run:
  assumes "runtime_ok coll db" and "find_by rv_id ri (d_revisions db) = Some r"
  shows "graph_ok (rv_steps r)"
proof -
  from assms(2) have "r \<in> set (d_revisions db)" by (auto dest: find_by_Some)
  with runtime_okD(2) [OF assms(1)] have "plan_ok coll r" by (simp add: plans_ok_iff)
  then show ?thesis by (simp add: plan_ok_def graph_valid_def validateGraph_iff')
qed

lemma dependenciesResolved_deps: "dependenciesResolved s steps plan \<longleftrightarrow> (\<forall>d \<in> set (deps s). dependency_resolved steps plan d)"
  by (simp add: dependenciesResolved_def deps_def list_all_iff split: option.split)

lemma deps_of_Some: "deps_of plan i = Some ds \<Longrightarrow> \<exists>s \<in> set plan. st_id s = i \<and> deps s = ds"
  by (auto simp: deps_of_def dest: find_SomeD)

text \<open>Of the steps that are not resolved, one has all its dependencies resolved.\<close>

lemma unresolved_ranked:
  assumes "graph_ok plan" and "ranked plan rank" and "s \<in> set plan" and "\<not> dependency_resolved steps plan (st_id s)"
  shows "\<exists>t \<in> set plan. \<not> dependency_resolved steps plan (st_id t) \<and> dependenciesResolved t steps plan"
  using assms(3,4)
proof (induction "rank (st_id s)" arbitrary: s rule: less_induct)
  case less
  show ?case
  proof (cases "dependenciesResolved s steps plan")
    case False
    then obtain d where d: "d \<in> set (deps s)" "\<not> dependency_resolved steps plan d"
      by (auto simp: dependenciesResolved_deps)
    have "deps_of plan (st_id s) = Some (deps s)"
      using assms(1) less.prems(1) by (intro deps_of_step) (auto simp: graph_ok_def)
    with assms(2) d(1) have "deps_of plan d \<noteq> None" and smaller: "rank d < rank (st_id s)" unfolding ranked_def by blast+
    then obtain t where "t \<in> set plan" "st_id t = d" using deps_of_Some by blast
    with less.hyps [of t] smaller d(2) show ?thesis by auto
  qed (use less.prems in blast)
qed

lemma unresolved_minimal:
  assumes "graph_ok plan" and "s \<in> set plan" and "\<not> dependency_resolved steps plan (st_id s)"
  shows "\<exists>t \<in> set plan. \<not> dependency_resolved steps plan (st_id t) \<and> dependenciesResolved t steps plan"
proof -
  from assms(1) obtain rank where "ranked plan rank" by (auto simp: graph_ok_def)
  from unresolved_ranked [OF assms(1) this assms(2,3)] show ?thesis .
qed

text \<open>C5: a live execution cannot be stuck between steps: when each of its steps is resolved or pending with nothing under
  way, and one is not resolved, reconciling makes at least one of the pending steps ready.\<close>

theorem reconcile_makes_progress:
  assumes "runtime_ok coll db" and "find_by x_id i (d_runs db) = Some x" and "x_status x \<in> {Pending, Running}"
    and "xr_activeRevision x = Some ri" and "find_by rv_id ri (d_revisions db) = Some r"
    and idle: "\<forall>l \<in> set (steps_of db i). dependency_resolved (steps_of db i) (rv_steps r) (ls_stepId l) \<or>
        ls_status l = SPending \<and> \<not> live_attempt db (ls_id l)"
    and open_step: "s \<in> set (rv_steps r)" "\<not> dependency_resolved (steps_of db i) (rv_steps r) (st_id s)"
    and run: "reconcileExecution en db i = (db', b, n, k)"
  shows "\<exists>l \<in> set (steps_of db i). ls_status l = SPending \<and> readied en l \<in> set (steps_of db' i)"
proof -
  have graph: "graph_ok (rv_steps r)" by (rule plan_of_run [OF assms(1,5)])
  obtain t where t: "t \<in> set (rv_steps r)" "\<not> dependency_resolved (steps_of db i) (rv_steps r) (st_id t)"
    "dependenciesResolved t (steps_of db i) (rv_steps r)"
    using unresolved_minimal [OF graph, of s "steps_of db i"] open_step by blast
  obtain r' where "find_by rv_id ri (d_revisions db) = Some r'" "materialized db i (rv_steps r')"
    by (rule planned_run [OF assms(1,2,4)])
  with assms(5) t(1) obtain l where l: "l \<in> set (steps_of db i)" "ls_stepId l = st_id t"
    by (auto simp: materialized_def steps_of_def)
  with idle t(2) have pending: "ls_status l = SPending" "\<not> live_attempt db (ls_id l)" by auto
  have "find_by st_id (st_id t) (rv_steps r) = Some t"
    using graph t(1) by (intro find_by_unique) (auto simp: graph_ok_def)
  with l pending t(3) have "advanceable db i (rv_steps r) l" by (auto simp: advanceable_def steps_of_def)
  moreover from reconcile_frontier' [OF assms(1-5), of en] run
  have "d_steps db' = update_where (advanceable db i (rv_steps r)) (readied en) (d_steps db)" by auto
  ultimately have "readied en l \<in> set (steps_of db' i)"
    using l(1) by (auto simp: steps_of_def set_update_where)
  with l(1) pending(1) show ?thesis by blast
qed

definition ex_idle_db :: runtime_db where
  "ex_idle_db = ex_plan_db\<lparr>d_steps := map (\<lambda>l. l\<lparr>ls_status := if ls_id l = ''step:b'' then SPending else SCompleted\<rparr>) (d_steps ex_plan_db)\<rparr>"

lemma ex_idle_sound: "runtime_ok ex_coll ex_idle_db"
proof -
  have "plans_ok ex_coll ex_idle_db" "keys_ok ex_idle_db" by code_simp+
  moreover have "d_ledger ex_idle_db = \<lparr>accounts = [], reservations = [], ledger = []\<rparr>" "d_evidence ex_idle_db = []"
    "d_runs ex_idle_db = [ex_run]" by (simp_all add: ex_idle_db_def ex_plan_db_def)
  ultimately show ?thesis using ex_empty_ledger state_ok_empty
    by (simp add: runtime_ok_def states_ok_def evidence_ok_def ex_run_def run_state_def)
qed

theorem reconcile_makes_progress_witness:
  "\<exists>db' b n k. reconcileExecution ex_env ex_idle_db ''e'' = (db', b, n, k) \<and>
     (\<exists>l \<in> set (steps_of ex_idle_db ''e''). ls_status l = SPending \<and> readied ex_env l \<in> set (steps_of db' ''e''))"
proof -
  have run: "find_by x_id ''e'' (d_runs ex_idle_db) = Some ex_run" "x_status ex_run \<in> {Pending, Running}"
    "xr_activeRevision ex_run = Some ''r1''" "find_by rv_id ''r1'' (d_revisions ex_idle_db) = Some ex_revision"
    by (simp_all add: ex_idle_db_def ex_plan_db_def ex_run_def ex_revision_def find_by_def)
  have idle: "\<forall>l \<in> set (steps_of ex_idle_db ''e''). dependency_resolved (steps_of ex_idle_db ''e'') (rv_steps ex_revision) (ls_stepId l) \<or>
      ls_status l = SPending \<and> \<not> live_attempt ex_idle_db (ls_id l)"
    "\<not> dependency_resolved (steps_of ex_idle_db ''e'') (rv_steps ex_revision) ''b''"
    by code_simp+
  have s: "list_ex (\<lambda>s. st_id s = ''b'') (rv_steps ex_revision)" by code_simp
  then obtain s where "s \<in> set (rv_steps ex_revision)" "st_id s = ''b''" by (auto simp: list_ex_iff)
  with reconcile_makes_progress [OF ex_idle_sound run idle(1), of s ex_env] idle(2)
  show ?thesis by (cases "reconcileExecution ex_env ex_idle_db ''e''") auto
qed


end
