(* ===== verification/Spec2Isabelle.thy ===== *)
theory Spec2Isabelle
  imports Ledger_Properties Policy_Properties Conditions_Properties Pipeline_Properties Attention ProjectionCache_Properties ArtifactProjection TransportIdentity RuntimeMachine StepClaim_Properties
begin

text \<open>
  A verification development for Tenvyr, the control plane for agent execution in this repository.
\<close>

end
